(* ===== verification/Prelude.thy ===== *)
theory Prelude
  imports Complex_Main "HOL-Library.Word" "HOL-Library.AList"
begin

text \<open>
  Shared vocabulary of the development: text and byte strings as the code has them
  (a \<open>QString\<close> is a list of UTF-16 code units, a \<open>QByteArray\<close> a list of bytes), decimal and
  hexadecimal printing, \<open>QHash\<close> tables as association lists in their iteration order, and
  the generic facts about folds, maps and tables the components share.
\<close>

named_theorems text_simps \<open>equations that decide equality of text literals\<close>
named_theorems table_simps \<open>lookup, key and size equations of tables\<close>

section \<open>Text and bytes\<close>

type_synonym qchar = "16 word"
type_synonym qstring = "qchar list"
type_synonym bytes = "8 word list"
type_synonym msecs = int
type_synonym sock = nat

definition unit_of :: "char \<Rightarrow> qchar" where
  "unit_of c = word_of_nat (of_char c)"

definition byte_of :: "char \<Rightarrow> 8 word" where
  "byte_of c = word_of_nat (of_char c)"

definition qs :: "string \<Rightarrow> qstring" where
  "qs s = map unit_of s"

definition bs :: "string \<Rightarrow> bytes" where
  "bs s = map byte_of s"

lemma char_code_small: "(of_char c :: nat) < 65536"
  by (rule less_trans [OF nat_of_char_less_256]) simp

lemma unat_unit_of: "unat (unit_of c) = of_char c"
  using char_code_small [of c] by (simp add: unit_of_def unat_of_nat)

lemma unat_byte_of: "unat (byte_of c) = of_char c"
  using nat_of_char_less_256 [of c] by (simp add: byte_of_def unat_of_nat)

lemma unit_of_eq [text_simps, simp]: "unit_of c = unit_of d \<longleftrightarrow> c = d"
  by (metis unat_unit_of char_of_char)

lemma byte_of_eq [text_simps, simp]: "byte_of c = byte_of d \<longleftrightarrow> c = d"
  by (metis unat_byte_of char_of_char)

lemma qs_eq [text_simps, simp]: "qs a = qs b \<longleftrightarrow> a = b"
  by (simp add: qs_def inj_def inj_map_eq_map)

lemma bs_eq [text_simps, simp]: "bs a = bs b \<longleftrightarrow> a = b"
  by (simp add: bs_def inj_def inj_map_eq_map)

lemma qs_Nil [simp]: "qs [] = []"
  by (simp add: qs_def)

lemma qs_Nil_iff [simp]: "qs s = [] \<longleftrightarrow> s = []" "[] = qs s \<longleftrightarrow> s = []"
  by (auto simp: qs_def)

lemma length_qs [simp]: "length (qs s) = length s"
  by (simp add: qs_def)

lemma length_bs [simp]: "length (bs s) = length s"
  by (simp add: bs_def)

text \<open>
  \<open>QString::toLatin1\<close> replaces a code unit above U+00FF by a question mark;
  \<open>QString::fromLatin1\<close> widens every byte.
\<close>

definition to_latin1 :: "qstring \<Rightarrow> bytes" where
  "to_latin1 s = map (\<lambda>u. if u < 256 then ucast u else byte_of CHR ''?'') s"

definition from_latin1 :: "bytes \<Rightarrow> qstring" where
  "from_latin1 b = map ucast b"

lemma length_to_latin1 [simp]: "length (to_latin1 s) = length s"
  by (simp add: to_latin1_def)

lemma length_from_latin1 [simp]: "length (from_latin1 s) = length s"
  by (simp add: from_latin1_def)

lemma unat_ucast: "unat (ucast (w :: 'a::len word) :: 'b::len word) = unat w mod 2 ^ LENGTH('b)"
  by (simp add: unsigned_ucast_eq take_bit_eq_mod)

lemma byte_less: "unat (b :: 8 word) < 256"
  using unsigned_less [of b] by simp

lemma ucast_up_less: "(ucast (b :: 8 word) :: qchar) < 256"
  using byte_less [of b] by (simp add: word_less_nat_alt unat_ucast)

lemma ucast_down_up: "ucast (ucast (b :: 8 word) :: qchar) = b"
  using byte_less [of b] by (simp add: word_unat_eq_iff unat_ucast)

lemma to_from_latin1 [simp]: "to_latin1 (from_latin1 b) = b"
  by (induction b)
    (simp_all add: to_latin1_def from_latin1_def ucast_up_less ucast_down_up)

lemma ucast_up_down: "u < 256 \<Longrightarrow> ucast (ucast (u :: qchar) :: 8 word) = u"
  by (simp add: word_unat_eq_iff unat_ucast word_less_nat_alt)

lemma from_to_latin1:
  "byte_of CHR ''?'' \<notin> set (to_latin1 s) \<Longrightarrow> from_latin1 (to_latin1 s) = s"
  by (induction s)
    (auto simp: to_latin1_def from_latin1_def ucast_up_down split: if_splits)

section \<open>Character classes\<close>

definition in_range :: "char \<Rightarrow> char \<Rightarrow> qchar \<Rightarrow> bool" where
  "in_range a b u \<longleftrightarrow> of_char a \<le> unat u \<and> unat u \<le> of_char b"

definition is_digit :: "qchar \<Rightarrow> bool" where
  "is_digit u \<longleftrightarrow> in_range CHR ''0'' CHR ''9'' u"

definition is_lower_hex :: "qchar \<Rightarrow> bool" where
  "is_lower_hex u \<longleftrightarrow> in_range CHR ''a'' CHR ''f'' u \<or> is_digit u"

definition is_alnum :: "qchar \<Rightarrow> bool" where
  "is_alnum u \<longleftrightarrow>
     in_range CHR ''a'' CHR ''z'' u \<or> in_range CHR ''A'' CHR ''Z'' u \<or> is_digit u"

lemma in_range_unit_of [simp]:
  "in_range a b (unit_of c) \<longleftrightarrow> (of_char a :: nat) \<le> of_char c \<and> (of_char c :: nat) \<le> of_char b"
  by (simp add: in_range_def unat_unit_of)

text \<open>Evaluation of text literals with integers rather than unary naturals.\<close>

lemma unit_of_code [code]: "unit_of c = word_of_int (of_char c)"
  by (simp add: unit_of_def of_char_def)

lemma byte_of_code [code]: "byte_of c = word_of_int (of_char c)"
  by (simp add: byte_of_def of_char_def)

lemma in_range_code [code]: "in_range a b u \<longleftrightarrow> unit_of a \<le> u \<and> u \<le> unit_of b"
  by (simp add: in_range_def word_le_nat_alt unat_unit_of)

text \<open>The pattern \<^verbatim>\<open>\A[a-f0-9]{64}\z\<close>, used for fingerprints, codes and tickets.\<close>

definition hex_token :: "qstring \<Rightarrow> bool" where
  "hex_token s \<longleftrightarrow> length s = 64 \<and> list_all is_lower_hex s"

section \<open>Printing\<close>

definition digit_char :: "int \<Rightarrow> char" where
  "digit_char i = ''0123456789'' ! nat i"

function digits :: "int \<Rightarrow> string" where
  "digits i = (if i < 10 then [digit_char i] else digits (i div 10) @ [digit_char (i mod 10)])"
  by pat_completeness auto
termination by (relation "measure nat") auto

declare digits.simps [simp del]

text \<open>\<open>QString::number\<close> of an integer.\<close>

definition number_text :: "int \<Rightarrow> qstring" where
  "number_text i = qs (if i < 0 then CHR ''-'' # digits (- i) else digits i)"

definition hex_digit :: "8 word \<Rightarrow> 8 word" where
  "hex_digit n = (if n < 10 then 48 + n else 87 + n)"

text \<open>\<open>QByteArray::toHex\<close>: two lower-case digits per byte.\<close>

definition to_hex :: "bytes \<Rightarrow> bytes" where
  "to_hex b = concat (map (\<lambda>x. [hex_digit (x div 16), hex_digit (x mod 16)]) b)"

lemma length_to_hex [simp]: "length (to_hex b) = 2 * length b"
  by (induction b) (simp_all add: to_hex_def)

section \<open>Tables\<close>

text \<open>
  A \<open>QHash\<close> is an association list with distinct keys; the list order is the order in
  which a loop over the hash visits it, which Qt leaves open. \<open>insert\<close> replaces the value
  of a key in place or adds the key, \<open>remove\<close> deletes it, \<open>value\<close> of a missing key is the
  default value of the type.
\<close>

type_synonym ('k, 'v) table = "('k \<times> 'v) list"

definition tget :: "('k, 'v) table \<Rightarrow> 'k \<Rightarrow> 'v option" where
  "tget t k = map_of t k"

definition tput :: "'k \<Rightarrow> 'v \<Rightarrow> ('k, 'v) table \<Rightarrow> ('k, 'v) table" where
  "tput k v t = AList.update k v t"

definition tdel :: "'k \<Rightarrow> ('k, 'v) table \<Rightarrow> ('k, 'v) table" where
  "tdel k t = AList.delete k t"

definition tkeys :: "('k, 'v) table \<Rightarrow> 'k list" where
  "tkeys t = map fst t"

definition has_key :: "('k, 'v) table \<Rightarrow> 'k \<Rightarrow> bool" where
  "has_key t k \<longleftrightarrow> tget t k \<noteq> None"

definition table_ok :: "('k, 'v) table \<Rightarrow> bool" where
  "table_ok t \<longleftrightarrow> distinct (tkeys t)"

lemma tget_Nil [simp, table_simps]: "tget [] k = None"
  by (simp add: tget_def)

lemma tget_Cons [table_simps]: "tget ((k', v) # t) k = (if k = k' then Some v else tget t k)"
  by (simp add: tget_def)

lemma tget_tput [simp, table_simps]: "tget (tput k v t) k' = (if k' = k then Some v else tget t k')"
  by (simp add: tget_def tput_def update_conv')

lemma tget_tdel [simp, table_simps]: "tget (tdel k t) k' = (if k' = k then None else tget t k')"
  by (simp add: tget_def tdel_def delete_conv')

lemma set_tkeys: "set (tkeys t) = {k. tget t k \<noteq> None}"
  by (auto simp: tkeys_def tget_def map_of_eq_None_iff image_iff)

lemma in_tkeys [table_simps]: "k \<in> set (tkeys t) \<longleftrightarrow> has_key t k"
  by (simp add: set_tkeys has_key_def)

lemma has_key_tput [simp, table_simps]: "has_key (tput k v t) k' \<longleftrightarrow> k' = k \<or> has_key t k'"
  by (simp add: has_key_def)

lemma has_key_tdel [simp, table_simps]: "has_key (tdel k t) k' \<longleftrightarrow> k' \<noteq> k \<and> has_key t k'"
  by (simp add: has_key_def)

lemma has_key_Nil [simp]: "\<not> has_key [] k"
  by (simp add: has_key_def)

lemma has_keyE: "has_key t k \<Longrightarrow> (\<And>v. tget t k = Some v \<Longrightarrow> P) \<Longrightarrow> P"
  by (auto simp: has_key_def)

lemma tget_has_key: "tget t k = Some v \<Longrightarrow> has_key t k"
  by (simp add: has_key_def)

lemma table_ok_Nil [simp]: "table_ok []"
  by (simp add: table_ok_def tkeys_def)

lemma table_ok_tput [simp, intro]: "table_ok t \<Longrightarrow> table_ok (tput k v t)"
  by (simp add: table_ok_def tkeys_def tput_def distinct_update)

lemma table_ok_tdel [simp, intro]: "table_ok t \<Longrightarrow> table_ok (tdel k t)"
  by (simp add: table_ok_def tkeys_def tdel_def distinct_delete)

lemma tkeys_tdel: "tkeys (tdel k t) = filter (\<lambda>k'. k' \<noteq> k) (tkeys t)"
  by (simp add: tkeys_def tdel_def delete_keys removeAll_filter_not_eq neq_commute)

lemma length_tdel_le: "length (tdel k t) \<le> length t"
  by (simp add: tdel_def length_delete_le)

lemma tput_present_keys: "has_key t k \<Longrightarrow> tkeys (tput k v t) = tkeys t"
  by (simp add: tkeys_def tput_def update_keys has_key_def tget_def map_of_eq_None_iff)

lemma length_tput: "length (tput k v t) = (if has_key t k then length t else Suc (length t))"
proof -
  have "length (tkeys (tput k v t)) = length (if has_key t k then tkeys t else tkeys t @ [k])"
    by (auto simp: tkeys_def tput_def update_keys has_key_def tget_def map_of_eq_None_iff)
  then show ?thesis by (simp add: tkeys_def split: if_splits)
qed

lemma tput_fresh: "\<not> has_key t k \<Longrightarrow> tput k v t = t @ [(k, v)]"
  by (induction t) (auto simp: tput_def has_key_def tget_def split: if_splits)

lemma tget_in_set: "table_ok t \<Longrightarrow> tget t k = Some v \<longleftrightarrow> (k, v) \<in> set t"
  by (simp add: table_ok_def tkeys_def tget_def)

lemma tget_Some_in_set: "tget t k = Some v \<Longrightarrow> (k, v) \<in> set t"
  by (simp add: tget_def map_of_SomeD)

lemma tdel_filter: "tdel k t = filter (\<lambda>e. fst e \<noteq> k) t"
  by (induction t) (auto simp: tdel_def)

lemma set_tdel: "set (tdel k t) = {e \<in> set t. fst e \<noteq> k}"
  by (auto simp: tdel_filter)

lemma set_tput:
  "table_ok t \<Longrightarrow> set (tput k v t) = insert (k, v) {e \<in> set t. fst e \<noteq> k}"
proof -
  assume ok: "table_ok t"
  have "(k', v') \<in> set (tput k v t) \<longleftrightarrow>
      (k', v') \<in> insert (k, v) {e \<in> set t. fst e \<noteq> k}" for k' v'
    by (auto simp: tget_in_set [OF table_ok_tput [OF ok], symmetric] tget_in_set [OF ok, symmetric])
  then show ?thesis by auto
qed

lemma length_filter_tput:
  "length (filter f (tput k v t)) \<le> length (filter f t) + (if f (k, v) then 1 else 0)"
  by (induction t) (auto simp: tput_def)

lemma length_filter_tdel_hit:
  "tget t k = Some v \<Longrightarrow> f (k, v) \<Longrightarrow> length (filter f (tdel k t)) < length (filter f t)"
proof (induction t)
  case (Cons e t)
  have "length (filter f (tdel k t)) \<le> length (filter f t)"
    by (induction t) (auto simp: tdel_def)
  with Cons show ?case by (cases e) (auto simp: tdel_def tget_def split: if_splits)
qed simp

lemma length_filter_tdel_le: "length (filter f (tdel k t)) \<le> length (filter f t)"
  by (induction t) (auto simp: tdel_def)

lemma length_filter_filter_le: "length (filter f (filter g t)) \<le> length (filter f t)"
  by (induction t) auto

lemma table_ok_filter: "table_ok t \<Longrightarrow> table_ok (filter f t)"
  by (simp add: table_ok_def tkeys_def distinct_map_filter)

lemma tget_filter:
  "table_ok t \<Longrightarrow> tget (filter f t) k
     = (case tget t k of Some v \<Rightarrow> if f (k, v) then Some v else None | None \<Rightarrow> None)"
proof (cases "tget t k")
  case None
  assume ok: "table_ok t"
  then have "(k, v) \<notin> set (filter f t)" for v
    using None by (auto simp: tget_in_set [OF ok, symmetric])
  then have "tget (filter f t) k = None"
    using tget_in_set [OF table_ok_filter [OF ok]] by (metis not_None_eq)
  with None show ?thesis by simp
next
  case (Some v)
  assume ok: "table_ok t"
  show ?thesis
  proof (cases "f (k, v)")
    case True
    then have "(k, v) \<in> set (filter f t)" using Some ok by (simp add: tget_in_set)
    then show ?thesis
      using True Some tget_in_set [OF table_ok_filter [OF ok]] by simp
  next
    case False
    then have "(k, w) \<notin> set (filter f t)" for w
      using Some by (auto simp: tget_in_set [OF ok, symmetric])
    then have "tget (filter f t) k = None"
      using tget_in_set [OF table_ok_filter [OF ok]] by (metis not_None_eq)
    with Some False show ?thesis by simp
  qed
qed

lemma tdel_absent: "tget t k = None \<Longrightarrow> tdel k t = t"
  by (auto simp: tdel_filter tget_def map_of_eq_None_iff filter_id_conv image_iff)

section \<open>Loops over snapshots\<close>

text \<open>
  The sources iterate over a copy of the keys and mutate the table in the body. Such a loop
  is \<open>fold body keys state\<close>; an invariant of the body is an invariant of the loop.
\<close>

lemma fold_keeps:
  assumes "P s" and "\<And>x s. x \<in> set xs \<Longrightarrow> P s \<Longrightarrow> P (f x s)"
  shows "P (fold f xs s)"
  using assms by (induction xs arbitrary: s) auto

lemma fold_frame:
  assumes "\<And>x s. x \<in> set xs \<Longrightarrow> g (f x s) = g s"
  shows "g (fold f xs s) = g s"
  using assms by (induction xs arbitrary: s) auto

section \<open>Sweeping a table\<close>

text \<open>
  The recurring loop of the sources is \<^verbatim>\<open>for (key : table.keys()) if (hit) { table.remove(key); ... }\<close>:
  it visits a snapshot of the keys and its body removes at most the visited key. The locale
  states that contract of a body over a state \<open>'s\<close> that holds the table; its lemmas say what
  the whole loop leaves and, for a body that also writes a log, what it writes.
\<close>

locale table_loop =
  fixes table_of :: "'s \<Rightarrow> ('k, 'v) table"
    and body :: "'k \<Rightarrow> 's \<Rightarrow> 's"
    and hit :: "'s \<Rightarrow> 'k \<Rightarrow> 'v \<Rightarrow> bool"
  assumes body_table: "table_of (body k s) =
      (case tget (table_of s) k of
         None \<Rightarrow> table_of s
       | Some v \<Rightarrow> if hit s k v then tdel k (table_of s) else table_of s)"
    and body_hit: "hit (body k s) = hit s"
begin

lemma loop_hit: "hit (fold body ks s) = hit s"
  by (induction ks arbitrary: s) (simp_all add: body_hit)

lemma body_filter:
  assumes "table_ok (table_of s)"
  shows "table_of (body k s) = filter (\<lambda>(k', v). \<not> (k' = k \<and> hit s k' v)) (table_of s)"
proof (cases "tget (table_of s) k")
  case None
  then have "(k, v) \<notin> set (table_of s)" for v
    by (simp add: tget_in_set [OF assms, symmetric])
  then have "filter (\<lambda>(k', v). \<not> (k' = k \<and> hit s k' v)) (table_of s) = table_of s"
    by (auto simp: filter_id_conv)
  then show ?thesis using None by (simp add: body_table)
next
  case (Some v)
  have only: "(k, v') \<in> set (table_of s) \<longleftrightarrow> v' = v" for v'
    using Some by (auto simp: tget_in_set [OF assms, symmetric])
  have "filter (\<lambda>(k', v'). \<not> (k' = k \<and> hit s k' v')) (table_of s)
      = filter (\<lambda>e. \<not> (fst e = k \<and> hit s k v)) (table_of s)"
    using only by (auto intro!: filter_cong)
  then show ?thesis using Some by (simp add: body_table tdel_filter)
qed

lemma table_ok_body: "table_ok (table_of s) \<Longrightarrow> table_ok (table_of (body k s))"
  by (auto simp: body_table split: option.split)

lemma table_ok_loop: "table_ok (table_of s) \<Longrightarrow> table_ok (table_of (fold body ks s))"
  by (rule fold_keeps) (auto intro: table_ok_body)

lemma loop_filter:
  "table_ok (table_of s) \<Longrightarrow>
     table_of (fold body ks s)
       = filter (\<lambda>(k, v). \<not> (k \<in> set ks \<and> hit s k v)) (table_of s)"
proof (induction ks arbitrary: s)
  case Nil
  then show ?case by simp
next
  case (Cons k ks)
  have "table_of (fold body ks (body k s))
      = filter (\<lambda>(k', v). \<not> (k' \<in> set ks \<and> hit s k' v)) (table_of (body k s))"
    using Cons.IH [OF table_ok_body [OF Cons.prems]] by (simp add: body_hit)
  then show ?case
    by (auto simp: body_filter [OF Cons.prems] intro!: filter_cong)
qed

lemma loop_table:
  "table_ok (table_of s) \<Longrightarrow>
     table_of (fold body (tkeys (table_of s)) s)
       = filter (\<lambda>(k, v). \<not> hit s k v) (table_of s)"
  by (subst loop_filter) (auto simp: tkeys_def image_iff intro!: filter_cong)

end

locale logged_loop = table_loop table_of body hit
  for table_of :: "'s \<Rightarrow> ('k, 'v) table" and body :: "'k \<Rightarrow> 's \<Rightarrow> 's"
    and hit :: "'s \<Rightarrow> 'k \<Rightarrow> 'v \<Rightarrow> bool" +
  fixes log_of :: "'s \<Rightarrow> 'o list"
    and outs :: "'s \<Rightarrow> 'k \<Rightarrow> 'v \<Rightarrow> 'o list"
  assumes body_log: "log_of (body k s) = log_of s @
      (case tget (table_of s) k of
         None \<Rightarrow> [] | Some v \<Rightarrow> if hit s k v then outs s k v else [])"
    and body_outs: "outs (body k s) = outs s"
begin

lemma loop_log_keys:
  "distinct ks \<Longrightarrow> log_of (fold body ks s) = log_of s @
     concat (map (\<lambda>k. case tget (table_of s) k of
        None \<Rightarrow> [] | Some v \<Rightarrow> if hit s k v then outs s k v else []) ks)"
proof (induction ks arbitrary: s)
  case Nil
  then show ?case by simp
next
  case (Cons k ks)
  let ?g = "\<lambda>t k. case tget t k of None \<Rightarrow> []
      | Some v \<Rightarrow> if hit s k v then outs s k v else []"
  have "tget (table_of (body k s)) k' = tget (table_of s) k'" if "k' \<in> set ks" for k'
    using that Cons.prems by (auto simp: body_table split: option.split)
  then have "map (?g (table_of (body k s))) ks = map (?g (table_of s)) ks" by simp
  moreover have "log_of (fold body ks (body k s)) = log_of (body k s)
      @ concat (map (?g (table_of (body k s))) ks)"
    using Cons.IH [of "body k s", unfolded body_hit body_outs] Cons.prems by simp
  ultimately have "log_of (fold body ks (body k s)) = log_of (body k s)
      @ concat (map (?g (table_of s)) ks)" by (simp only:)
  then show ?case by (simp add: body_log)
qed

lemma loop_log:
  assumes "table_ok (table_of s)"
  shows "log_of (fold body (tkeys (table_of s)) s) = log_of s @
    concat (map (\<lambda>(k, v). if hit s k v then outs s k v else []) (table_of s))"
proof -
  have "map (\<lambda>k. case tget (table_of s) k of
        None \<Rightarrow> [] | Some v \<Rightarrow> if hit s k v then outs s k v else []) (tkeys (table_of s))
      = map (\<lambda>(k, v). if hit s k v then outs s k v else []) (table_of s)"
    using tget_in_set [OF assms, THEN iffD2] by (auto simp: tkeys_def)
  moreover have "distinct (tkeys (table_of s))" using assms by (simp add: table_ok_def)
  ultimately show ?thesis by (simp add: loop_log_keys)
qed

end

lemma fold_append_log:
  assumes "\<And>x s. x \<in> set xs \<Longrightarrow> \<exists>l. g (f x s) = g s @ l"
  shows "\<exists>l. g (fold f xs s) = g s @ l"
  using assms
proof (induction xs arbitrary: s)
  case (Cons x xs)
  obtain l where "g (f x s) = g s @ l" using Cons.prems [of x s] by auto
  moreover obtain l' where "g (fold f xs (f x s)) = g (f x s) @ l'"
    using Cons.IH [of "f x s"] Cons.prems by auto
  ultimately show ?case by simp
qed simp

end
