(* ===== verification/Json.thy ===== *)
theory Json
  imports Prelude "HOL-Library.Finite_Map"
begin

text \<open>
  JSON values as the code reads and builds them through \<open>QJsonValue\<close>, \<open>QJsonObject\<close> and
  \<open>QJsonArray\<close>: an object is a finite map from text to values, a missing member reads as
  \<open>Undefined\<close>, a conversion of a value of another type gives the type's default, and
  inserting \<open>Undefined\<close> removes the member.
\<close>

named_theorems json_simps \<open>reading members back from objects built by the code\<close>

datatype json =
    JUndefined
  | JNull
  | JBool bool
  | JNum rat
  | JStr qstring
  | JArr "json list"
  | JObj "(qstring, json) fmap"

type_synonym jobject = "(qstring, json) fmap"

section \<open>Reading\<close>

text \<open>\<open>QJsonObject::value\<close>, \<open>contains\<close> and \<open>size\<close>.\<close>

definition jval :: "jobject \<Rightarrow> string \<Rightarrow> json" where
  "jval ob k = (case fmlookup ob (qs k) of None \<Rightarrow> JUndefined | Some v \<Rightarrow> v)"

definition contains :: "jobject \<Rightarrow> string \<Rightarrow> bool" where
  "contains ob k \<longleftrightarrow> fmlookup ob (qs k) \<noteq> None"

definition object_size :: "jobject \<Rightarrow> nat" where
  "object_size ob = fcard (fmdom ob)"

text \<open>\<open>QJsonValue::isString\<close>, \<open>isObject\<close>, \<open>isArray\<close>, \<open>toString\<close>, \<open>toObject\<close>,
  \<open>toArray\<close>, \<open>toBool\<close> and \<open>toInt\<close> with the defaults the code passes.\<close>

fun is_string :: "json \<Rightarrow> bool" where
  "is_string (JStr _) = True"
| "is_string _ = False"

fun is_object :: "json \<Rightarrow> bool" where
  "is_object (JObj _) = True"
| "is_object _ = False"

fun is_array :: "json \<Rightarrow> bool" where
  "is_array (JArr _) = True"
| "is_array _ = False"

fun string_or :: "qstring \<Rightarrow> json \<Rightarrow> qstring" where
  "string_or d (JStr s) = s"
| "string_or d _ = d"

definition to_string :: "json \<Rightarrow> qstring" where
  "to_string v = string_or [] v"

fun to_object :: "json \<Rightarrow> jobject" where
  "to_object (JObj ob) = ob"
| "to_object _ = fmempty"

fun to_array :: "json \<Rightarrow> json list" where
  "to_array (JArr xs) = xs"
| "to_array _ = []"

fun bool_or :: "bool \<Rightarrow> json \<Rightarrow> bool" where
  "bool_or d (JBool b) = b"
| "bool_or d _ = d"

definition to_bool :: "json \<Rightarrow> bool" where
  "to_bool v = bool_or False v"

text \<open>\<open>toInt(d)\<close> gives the number when it is an integer of the \<open>int\<close> range, else \<open>d\<close>.\<close>

fun int_or :: "int \<Rightarrow> json \<Rightarrow> int" where
  "int_or d (JNum r) =
     (if of_int \<lfloor>r\<rfloor> = r \<and> - (2 ^ 31) \<le> \<lfloor>r\<rfloor> \<and> \<lfloor>r\<rfloor> < 2 ^ 31 then \<lfloor>r\<rfloor> else d)"
| "int_or d _ = d"

fun to_double :: "json \<Rightarrow> rat" where
  "to_double (JNum r) = r"
| "to_double _ = 0"

text \<open>The comparison \<^verbatim>\<open>m.value(k) == 1\<close> of a value with the number one.\<close>

fun is_one :: "json \<Rightarrow> bool" where
  "is_one (JNum r) = (r = 1)"
| "is_one _ = False"

section \<open>Building\<close>

definition jinsert :: "qstring \<Rightarrow> json \<Rightarrow> jobject \<Rightarrow> jobject" where
  "jinsert k v ob = (case v of JUndefined \<Rightarrow> fmdrop k ob | _ \<Rightarrow> fmupd k v ob)"

text \<open>An object written as an initializer list; a later pair overrides an earlier one.\<close>

fun jobj_onto :: "jobject \<Rightarrow> (string \<times> json) list \<Rightarrow> jobject" where
  "jobj_onto ob [] = ob"
| "jobj_onto ob ((k, v) # kvs) = jobj_onto (jinsert (qs k) v ob) kvs"

definition jobj :: "(string \<times> json) list \<Rightarrow> jobject" where
  "jobj kvs = jobj_onto fmempty kvs"

abbreviation jtext :: "string \<Rightarrow> json" where
  "jtext s \<equiv> JStr (qs s)"

section \<open>Reading back what was built\<close>

lemma jval_jinsert [simp, json_simps]:
  "jval (jinsert (qs k) v ob) k' = (if k' = k then v else jval ob k')"
  by (cases v) (auto simp: jval_def jinsert_def)

lemma jval_fmempty [simp, json_simps]: "jval fmempty k = JUndefined"
  by (simp add: jval_def)

lemma jval_jobj_onto [json_simps]:
  "jval (jobj_onto ob kvs) k =
     (case map_of (rev kvs) k of Some v \<Rightarrow> v | None \<Rightarrow> jval ob k)"
  by (induction ob kvs rule: jobj_onto.induct)
    (auto simp: map_add_def split: option.splits)

lemma jval_jobj [simp, json_simps]:
  "jval (jobj kvs) k = (case map_of (rev kvs) k of Some v \<Rightarrow> v | None \<Rightarrow> JUndefined)"
  by (simp add: jobj_def jval_jobj_onto split: option.split)

lemma to_string_simps [simp, json_simps]:
  "to_string (JStr s) = s" "to_string JUndefined = []" "to_string JNull = []"
  "to_string (JBool b) = []" "to_string (JNum r) = []" "to_string (JArr xs) = []"
  "to_string (JObj ob) = []"
  by (simp_all add: to_string_def)

lemma to_bool_simps [simp, json_simps]:
  "to_bool (JBool b) = b" "to_bool JUndefined = False" "to_bool JNull = False"
  "to_bool (JStr s) = False" "to_bool (JNum r) = False" "to_bool (JArr xs) = False"
  "to_bool (JObj ob) = False"
  by (simp_all add: to_bool_def)

lemma is_objectD: "is_object v \<Longrightarrow> v = JObj (to_object v)"
  by (cases v) auto

lemma is_stringD: "is_string v \<Longrightarrow> v = JStr (to_string v)"
  by (cases v) auto

lemma to_string_nonempty: "to_string v \<noteq> [] \<Longrightarrow> v = JStr (to_string v)"
  by (cases v) auto

lemma contains_jinsert: "v \<noteq> JUndefined \<Longrightarrow>
    contains (jinsert (qs k) v ob) k' \<longleftrightarrow> k' = k \<or> contains ob k'"
  by (cases v) (auto simp: contains_def jinsert_def)

lemma fmlookup_jinsert_same: "fmlookup ob k = Some v \<Longrightarrow> v \<noteq> JUndefined \<Longrightarrow> jinsert k v ob = ob"
  by (cases v) (auto simp: jinsert_def intro!: fmap_ext)

lemma jinsert_undo:
  "fmlookup ob k = Some v \<Longrightarrow> v \<noteq> JUndefined \<Longrightarrow> jinsert k v (jinsert k w ob) = ob"
  by (cases v; cases w) (auto simp: jinsert_def intro!: fmap_ext)

text \<open>An object with a member that reads as a value is not empty.\<close>

lemma jval_nonempty: "jval ob k \<noteq> JUndefined \<Longrightarrow> ob \<noteq> fmempty"
  by auto

end
