(* ===== verification/Platform.thy ===== *)
theory Platform
  imports Json
begin

text \<open>
  What the code calls outside the repository, as one record of functions that every
  definition using it takes as its first argument: Qt's codecs (Base64, hex, UTF-8, JSON
  text, numbers), its URL parser, SHA-256, and iiNetwork's address parser. Nothing is
  assumed of these functions here; a theorem that relies on their documented behaviour
  states it as a hypothesis. A URL is the record of the \<open>QUrl\<close> accessors the code reads,
  an address the record of the \<open>IpAddress\<close> accessors it reads.
\<close>

record qurl =
  url_valid :: bool
  url_relative :: bool
  url_scheme :: qstring
  url_host :: qstring
  url_port :: int \<comment> \<open>\<open>-1\<close> when the URL has none\<close>
  url_path :: qstring
  url_user_info :: qstring
  url_has_query :: bool
  url_has_fragment :: bool
  url_text :: qstring \<comment> \<open>\<open>toString()\<close>\<close>
  url_encoded :: bytes \<comment> \<open>\<open>toEncoded()\<close>\<close>
  url_local_file :: qstring
  url_query_items :: "(qstring \<times> qstring) list" \<comment> \<open>\<open>QUrlQuery::queryItems(FullyDecoded)\<close>\<close>

datatype family = Ipv4 | Ipv6

record address =
  addr_family :: family
  addr_bytes :: bytes
  addr_loopback :: bool
  addr_multicast :: bool
  addr_unspecified :: bool
  addr_text :: qstring \<comment> \<open>\<open>string()\<close>\<close>

text \<open>An address of a network interface of the host.\<close>

record interface =
  if_address :: address
  if_loopback :: bool
  if_prefix :: nat

text \<open>\<open>QString::split\<close> and \<open>QStringList::join\<close>: one more part than separators.\<close>

fun split_on :: "qchar \<Rightarrow> qstring \<Rightarrow> qstring list" where
  "split_on c [] = [[]]"
| "split_on c (u # us) =
     (if u = c then [] # split_on c us
      else case split_on c us of [] \<Rightarrow> [[u]] | p # ps \<Rightarrow> (u # p) # ps)"

fun join_on :: "qchar \<Rightarrow> qstring list \<Rightarrow> qstring" where
  "join_on c [] = []"
| "join_on c [p] = p"
| "join_on c (p # ps) = p @ c # join_on c ps"

lemma split_on_nonempty [simp]: "split_on c s \<noteq> []"
  by (induction s) (auto split: list.split)

lemma split_on_no: "c \<notin> set s \<Longrightarrow> split_on c s = [s]"
  by (induction s) auto

lemma split_on_append:
  "split_on c (a @ c # b) = split_on c a @ split_on c b"
  by (induction a) (auto split: list.split)

lemma split_join: "ps \<noteq> [] \<Longrightarrow> \<forall>p\<in>set ps. c \<notin> set p \<Longrightarrow> split_on c (join_on c ps) = ps"
  by (induction c ps rule: join_on.induct) (auto simp: split_on_no split_on_append)

record lib =
  sha256 :: "bytes \<Rightarrow> bytes"
  from_hex :: "bytes \<Rightarrow> bytes" \<comment> \<open>\<open>QByteArray::fromHex\<close>\<close>
  utf8 :: "qstring \<Rightarrow> bytes"
  from_utf8 :: "bytes \<Rightarrow> qstring"
  b64_encode :: "bytes \<Rightarrow> bytes" \<comment> \<open>\<open>QByteArray::toBase64\<close>\<close>
  b64_decode :: "bytes \<Rightarrow> bytes option" \<comment> \<open>\<open>fromBase64Encoding(_, AbortOnBase64DecodingErrors)\<close>\<close>
  json_compact :: "json \<Rightarrow> bytes" \<comment> \<open>\<open>QJsonDocument(_).toJson(Compact)\<close>\<close>
  json_indented :: "json \<Rightarrow> bytes" \<comment> \<open>\<open>QJsonDocument(_).toJson()\<close>\<close>
  json_parse :: "bytes \<Rightarrow> json option" \<comment> \<open>\<open>QJsonDocument::fromJson\<close>, \<open>None\<close> on a parse error\<close>
  parse_url :: "qstring \<Rightarrow> qurl" \<comment> \<open>the \<open>QUrl\<close> constructor\<close>
  parse_url_strict :: "qstring \<Rightarrow> qurl" \<comment> \<open>the same in \<open>StrictMode\<close>\<close>
  parse_address :: "qstring \<Rightarrow> address option" \<comment> \<open>\<open>Address::parse\<close>\<close>
  to_longlong :: "qstring \<Rightarrow> int option" \<comment> \<open>\<open>QString::toLongLong\<close>, \<open>None\<close> when \<open>ok\<close> is false\<close>
  to_ushort :: "qstring \<Rightarrow> int option" \<comment> \<open>\<open>QString::toUShort\<close>\<close>
  is_space :: "qchar \<Rightarrow> bool" \<comment> \<open>\<open>QChar::isSpace\<close>\<close>
  fold_case :: "qstring \<Rightarrow> qstring" \<comment> \<open>case folding of \<open>Qt::CaseInsensitive\<close>\<close>
  percent_encode :: "qstring \<Rightarrow> bytes" \<comment> \<open>\<open>QUrl::toPercentEncoding\<close>\<close>
  url_origin :: "qurl \<Rightarrow> bytes" \<comment> \<open>the URL without path, query, fragment and user, encoded\<close>
  url_with_query :: "qstring \<Rightarrow> (qstring \<times> qstring) list \<Rightarrow> qstring"
    \<comment> \<open>a URL with these query items, \<open>toString(FullyEncoded)\<close>\<close>

section \<open>A concrete instance for examples\<close>

text \<open>
  Small concrete functions, used by the example instances of the theorems only: text is
  copied as Latin-1, numbers are read as plain decimals, an address is the dotted form of
  loopback or of one private network, URLs are the given constants.
\<close>

fun read_digits :: "nat \<Rightarrow> qstring \<Rightarrow> nat option" where
  "read_digits acc [] = Some acc"
| "read_digits acc (u # us) =
     (if is_digit u then read_digits (10 * acc + (unat u - 48)) us else None)"

definition read_decimal :: "qstring \<Rightarrow> int option" where
  "read_decimal s = (if s = [] then None else map_option int (read_digits 0 s))"

definition blank_url :: qurl where
  "blank_url = \<lparr>url_valid = False, url_relative = True, url_scheme = [], url_host = [],
     url_port = -1, url_path = [], url_user_info = [], url_has_query = False,
     url_has_fragment = False, url_text = [], url_encoded = [], url_local_file = [],
     url_query_items = []\<rparr>"

definition demo_lib :: lib where
  "demo_lib = \<lparr>sha256 = (\<lambda>b. b), from_hex = (\<lambda>b. b), utf8 = to_latin1,
     from_utf8 = from_latin1, b64_encode = (\<lambda>b. b), b64_decode = Some,
     json_compact = (\<lambda>j. []), json_indented = (\<lambda>j. []), json_parse = (\<lambda>b. None),
     parse_url = (\<lambda>t. blank_url), parse_url_strict = (\<lambda>t. blank_url), parse_address = (\<lambda>t. None), to_longlong = read_decimal,
     to_ushort = (\<lambda>s. case read_decimal s of None \<Rightarrow> None | Some i \<Rightarrow> if i < 65536 then Some i else None),
     is_space = (\<lambda>u. u = 32), fold_case = (\<lambda>s. s), percent_encode = to_latin1,
     url_origin = url_encoded, url_with_query = (\<lambda>u items. u)\<rparr>"

lemma digit_char_reads:
  assumes "0 \<le> i" "i < 10"
  shows "is_digit (unit_of (digit_char i))" "unat (unit_of (digit_char i)) = 48 + nat i"
proof -
  have "i \<in> {0, 1, 2, 3, 4, 5, 6, 7, 8, 9}" using assms by simp presburger
  then show "is_digit (unit_of (digit_char i))" "unat (unit_of (digit_char i)) = 48 + nat i"
    by (auto simp: digit_char_def is_digit_def unat_unit_of)
qed

lemma read_digits_snoc:
  "is_digit u \<Longrightarrow> read_digits acc (us @ [u]) = map_option (\<lambda>a. 10 * a + (unat u - 48)) (read_digits acc us)"
  by (induction acc us rule: read_digits.induct) auto

lemma read_digits_number: "0 \<le> i \<Longrightarrow> read_digits 0 (qs (digits i)) = Some (nat i)"
proof (induction i rule: digits.induct)
  case (1 i)
  show ?case
  proof (cases "i < 10")
    case True
    then show ?thesis using 1 digit_char_reads [of i] by (simp add: digits.simps [of i] qs_def)
  next
    case False
    then have "read_digits 0 (qs (digits i)) =
        map_option (\<lambda>a. 10 * a + nat (i mod 10)) (read_digits 0 (qs (digits (i div 10))))"
      using digit_char_reads [of "i mod 10"]
      by (simp add: digits.simps [of i] qs_def read_digits_snoc)
    also have "\<dots> = Some (10 * nat (i div 10) + nat (i mod 10))" using 1 False by simp
    also have "int (10 * nat (i div 10) + nat (i mod 10)) = int (nat i)" using False by simp
    then have "10 * nat (i div 10) + nat (i mod 10) = nat i" by (simp only: of_nat_eq_iff)
    finally show ?thesis .
  qed
qed

lemma digits_nonempty [simp]: "digits i \<noteq> []"
  by (subst digits.simps) simp

lemma demo_numbers: "\<forall>i\<ge>0. to_longlong demo_lib (number_text i) = Some i"
  by (simp add: demo_lib_def read_decimal_def number_text_def read_digits_number)

end
