(* ===== verification/Protocol.thy ===== *)
theory Protocol
  imports Platform
begin

text \<open>
  \<open>src/Protocol.h\<close>: the helpers every peer, relay and pairing component shares: error
  objects, identifier and endpoint checks, credential lifetime, the framing decision of
  \<open>send\<close>, message parsing, the listener's TLS rule and certificate pinning. The binary
  codec that \<open>send\<close> consults is a parameter here and is \<open>BinaryFrame\<close> in the theory of
  that name.
\<close>

section \<open>Checks and helpers\<close>

definition wire_limit :: int where
  "wire_limit = 1024 * 1024"

definition error_object :: "string \<Rightarrow> jobject" where
  "error_object code = jobj [(''ok'', JBool False), (''error'', jtext code)]"

text \<open>The pattern \<^verbatim>\<open>\A[a-zA-Z0-9_.:-]{1,128}\z\<close>.\<close>

definition ident_char :: "qchar \<Rightarrow> bool" where
  "ident_char u \<longleftrightarrow> is_alnum u \<or> u \<in> set (qs ''_.:-'')"

definition identifier_ok :: "qstring \<Rightarrow> bool" where
  "identifier_ok s \<longleftrightarrow> 1 \<le> length s \<and> length s \<le> 128 \<and> list_all ident_char s"

definition loopback :: "lib \<Rightarrow> qstring \<Rightarrow> bool" where
  "loopback L host =
     (case parse_address L host of None \<Rightarrow> False | Some a \<Rightarrow> addr_loopback a)"

definition endpoint :: "lib \<Rightarrow> qurl \<Rightarrow> string \<Rightarrow> string \<Rightarrow> bool" where
  "endpoint L url secure plain \<longleftrightarrow>
     url_valid url \<and> url_host url \<noteq> [] \<and> url_port url \<noteq> 0
     \<and> \<not> url_has_fragment url \<and> \<not> url_has_query url \<and> url_user_info url = []
     \<and> (url_scheme url = qs secure \<or> (url_scheme url = qs plain \<and> loopback L (url_host url)))"

record principal =
  account_id :: qstring
  expires_at :: msecs

definition no_principal :: principal where
  "no_principal = \<lparr>account_id = [], expires_at = 0\<rparr>"

definition live :: "msecs \<Rightarrow> principal \<Rightarrow> bool" where
  "live now p \<longleftrightarrow> account_id p \<noteq> [] \<and> length (account_id p) \<le> 256 \<and> now < expires_at p"

text \<open>\<open>QJsonDocument::fromJson\<close> of the message text; anything but an object is empty.\<close>

definition parse_message :: "lib \<Rightarrow> qstring \<Rightarrow> jobject" where
  "parse_message L text =
     (case json_parse L (utf8 L text) of Some (JObj ob) \<Rightarrow> ob | _ \<Rightarrow> fmempty)"

section \<open>Sending\<close>

text \<open>
  What \<open>send\<close> reads of a socket: null or not, connected or not, the negotiated
  \<open>iish.binary\<close> property and the bytes still queued. Its result says what it does to the
  socket; the boolean it returns is \<open>False\<close> in the first three cases, and in the last two
  whether the socket took the frame.
\<close>

record sock_view =
  view_connected :: bool
  view_binary :: bool
  view_queued :: int

datatype send_action =
    NotConnected
  | CloseOverflow \<comment> \<open>\<^verbatim>\<open>close(1009, "Capacity exceeded")\<close>\<close>
  | SendBinary bytes
  | SendText qstring

definition send :: "lib \<Rightarrow> (jobject \<Rightarrow> bytes) \<Rightarrow> sock_view option \<Rightarrow> jobject \<Rightarrow> send_action" where
  "send L encode socket message =
     (case socket of
        None \<Rightarrow> NotConnected
      | Some s \<Rightarrow>
          if \<not> view_connected s then NotConnected
          else
            let frame = (if view_binary s then encode message else []) in
            if frame \<noteq> [] then
              (if view_queued s > 4 * wire_limit then CloseOverflow else SendBinary frame)
            else
              let b = json_compact L (JObj message) in
              if int (length b) > wire_limit \<or> view_queued s > 4 * wire_limit then CloseOverflow
              else SendText (from_utf8 L b))"

section \<open>Listening and pinning\<close>

datatype listen_result = Listening | ListenError qstring

text \<open>
  \<open>listener\<close>: the TLS rule comes first; whether the socket server then binds is up to the
  transport (\<open>bind_error\<close> is \<open>None\<close> when it does).
\<close>

definition listener :: "address \<Rightarrow> bool \<Rightarrow> qstring option \<Rightarrow> listen_result" where
  "listener addr has_identity bind_error =
     (if \<not> has_identity \<and> \<not> addr_loopback addr
      then ListenError (qs ''TLS certificate and key are required for non-loopback listeners.'')
      else case bind_error of None \<Rightarrow> Listening | Some e \<Rightarrow> ListenError e)"

definition pin_certificate :: "lib \<Rightarrow> qstring \<Rightarrow> bytes option" where
  "pin_certificate L fingerprint =
     (let b = from_hex L (to_latin1 fingerprint) in
      if length fingerprint \<noteq> 64 \<or> length b \<noteq> 32 \<or> to_hex b \<noteq> to_latin1 fingerprint
      then None else Some b)"

section \<open>Facts\<close>

lemma error_object_reads [simp]:
  "jval (error_object c) ''ok'' = JBool False" "jval (error_object c) ''error'' = jtext c"
  "jval (error_object c) ''entries'' = JUndefined"
  by (simp_all add: error_object_def)

lemma identifier_nonempty: "identifier_ok s \<Longrightarrow> s \<noteq> []"
  by (auto simp: identifier_ok_def)

lemma not_identifier_ok_Nil [simp]: "\<not> identifier_ok []"
  by (simp add: identifier_ok_def)

lemma no_principal_simps [simp]: "account_id no_principal = []" "\<not> live now no_principal"
  by (simp_all add: no_principal_def live_def)

lemma live_account: "live now p \<Longrightarrow> account_id p \<noteq> []"
  by (simp add: live_def)

lemma live_anti_mono: "live now p \<Longrightarrow> now' \<le> now \<Longrightarrow> live now' p"
  by (auto simp: live_def)

text \<open>A plain scheme is accepted on a literal loopback host only.\<close>

lemma endpoint_plain_is_loopback:
  "endpoint L url secure plain \<Longrightarrow> secure \<noteq> plain \<Longrightarrow> url_scheme url = qs plain \<Longrightarrow>
     loopback L (url_host url)"
  by (auto simp: endpoint_def)

lemma endpoint_loopback_address:
  "endpoint L url secure plain \<Longrightarrow> url_scheme url \<noteq> qs secure \<Longrightarrow>
     url_scheme url = qs plain \<and>
     (\<exists>a. parse_address L (url_host url) = Some a \<and> addr_loopback a)"
  by (auto simp: endpoint_def loopback_def split: option.splits)

lemma send_requires_connection:
  "send L enc s m \<in> {SendBinary f, SendText t} \<Longrightarrow>
     \<exists>v. s = Some v \<and> view_connected v \<and> view_queued v \<le> 4 * wire_limit"
  by (auto simp: send_def Let_def split: option.splits if_splits)

lemma send_binary_iff:
  "send L enc s m = SendBinary f \<longleftrightarrow>
     (\<exists>v. s = Some v \<and> view_connected v \<and> view_binary v \<and> enc m = f \<and> f \<noteq> []
        \<and> view_queued v \<le> 4 * wire_limit)"
  by (auto simp: send_def Let_def split: option.splits if_splits)

lemma send_text_bound:
  "send L enc s m = SendText t \<Longrightarrow>
     \<exists>b. t = from_utf8 L b \<and> int (length b) \<le> wire_limit"
  by (auto simp: send_def Let_def split: option.splits if_splits)

lemma pin_certificate_Some:
  "pin_certificate L fp = Some pin \<Longrightarrow> length pin = 32 \<and> to_hex pin = to_latin1 fp"
  by (auto simp: pin_certificate_def Let_def split: if_splits)

lemma listener_plain_is_loopback:
  "listener addr False be = Listening \<Longrightarrow> addr_loopback addr"
  by (auto simp: listener_def split: if_splits)

end
