(* ===== verification/Relay.thy ===== *)
theory Relay
  imports Protocol
begin

text \<open>
  \<open>src/RelayServer.cpp\<close>: the account relay. The state is the record \<open>relay\<close> with the four
  hashes of \<open>RelayServer::Private\<close> (sessions, routes, offers, pairs) and a log of everything
  the relay does to the outside, in order: messages sent, sockets closed, pings, and calls of
  the account authenticator, whose completion comes back as its own operation. Every slot
  and method is one definition from state to state. The clock reading, the fresh identifier
  and the 32 random bytes of one event are its \<open>env\<close>; a handler that reads the clock more
  than once reads the same instant. A \<open>QPointer\<close> to a socket is the socket's number, and is
  null when the socket's object is gone: the relay deletes the object exactly when it has
  removed the socket's session.
\<close>

named_theorems relay_defs \<open>definitions of the relay's operations\<close>

section \<open>State\<close>

record session =
  s_principal :: principal
  s_id :: qstring
  s_service :: qstring
  s_name :: qstring
  s_descriptor :: jobject
  s_authenticating :: bool
  s_connected :: msecs
  s_window :: "msecs option" \<comment> \<open>\<open>pairingWindow\<close>, \<open>None\<close> while invalid\<close>
  s_attempts :: nat

record route =
  r_client :: sock
  r_host :: sock
  r_id :: qstring
  r_expires :: msecs

record offer =
  o_host :: sock
  o_request :: qstring
  o_expires :: msecs

record pair_entry =
  p_host :: sock
  p_client :: sock
  p_host_request :: qstring
  p_client_request :: qstring
  p_expires :: msecs

datatype relay_out =
    Send sock jobject
  | Close sock int string
  | Ping sock
  | Verify sock bytes \<comment> \<open>a call of the authenticator with the credential of this socket\<close>

record relay =
  sessions :: "(sock, session) table"
  routes :: "(qstring, route) table"
  offers :: "(bytes, offer) table" \<comment> \<open>keyed by the SHA-256 of the code\<close>
  pairs :: "(qstring, pair_entry) table"
  has_auth :: bool
  serving :: bool
  relay_error :: qstring
  log :: "relay_out list"

record env =
  now :: msecs
  fresh :: qstring \<comment> \<open>\<open>uuid()\<close>\<close>
  random :: bytes \<comment> \<open>32 bytes of the system generator\<close>

definition new_session :: "msecs \<Rightarrow> session" where
  "new_session t = \<lparr>s_principal = no_principal, s_id = [], s_service = [], s_name = [],
     s_descriptor = fmempty, s_authenticating = False, s_connected = t, s_window = None,
     s_attempts = 0\<rparr>"

definition new_relay :: "bool \<Rightarrow> relay" where
  "new_relay auth = \<lparr>sessions = [], routes = [], offers = [], pairs = [], has_auth = auth,
     serving = False, relay_error = [], log = []\<rparr>"

section \<open>Helpers\<close>

definition emit :: "relay_out \<Rightarrow> relay \<Rightarrow> relay" where
  "emit ev st = st\<lparr>log := log st @ [ev]\<rparr>"

definition send_to :: "sock \<Rightarrow> (string \<times> json) list \<Rightarrow> relay \<Rightarrow> relay" where
  "send_to s kvs st = emit (Send s (jobj kvs)) st"

text \<open>\<open>sessions.value(s)\<close>: the default session when there is none.\<close>

definition session_of :: "relay \<Rightarrow> sock \<Rightarrow> session" where
  "session_of st s = (case tget (sessions st) s of Some x \<Rightarrow> x | None \<Rightarrow> new_session 0)"

definition pointer_live :: "relay \<Rightarrow> sock \<Rightarrow> bool" where
  "pointer_live st s \<longleftrightarrow> has_key (sessions st) s"

definition set_session :: "sock \<Rightarrow> session \<Rightarrow> relay \<Rightarrow> relay" where
  "set_session s x st = st\<lparr>sessions := tput s x (sessions st)\<rparr>"

definition active :: "msecs \<Rightarrow> relay \<Rightarrow> sock \<Rightarrow> bool" where
  "active t st s \<longleftrightarrow> has_key (sessions st) s \<and> live t (s_principal (session_of st s))"

text \<open>\<open>target\<close>: the host of that name within the caller's account and service.\<close>

definition reachable_host :: "msecs \<Rightarrow> session \<Rightarrow> session \<Rightarrow> bool" where
  "reachable_host t caller x \<longleftrightarrow>
     live t (s_principal x) \<and> s_descriptor x \<noteq> fmempty
     \<and> account_id (s_principal x) = account_id (s_principal caller)
     \<and> s_service x = s_service caller"

definition target :: "msecs \<Rightarrow> relay \<Rightarrow> sock \<Rightarrow> qstring \<Rightarrow> sock option" where
  "target t st source name =
     map_option fst (find (\<lambda>(k, x). k \<noteq> source \<and> s_id x = name
       \<and> reachable_host t (session_of st source) x) (sessions st))"

section \<open>Pairing\<close>

definition pairing :: "sock \<Rightarrow> qstring \<Rightarrow> string \<Rightarrow> (string \<times> json) list \<Rightarrow> relay \<Rightarrow> relay" where
  "pairing s rid status data st =
     send_to s (data @ [(''type'', jtext ''pairing''), (''id'', JStr rid),
       (''status'', jtext status)]) st"

definition peer_fields :: "qstring \<Rightarrow> session \<Rightarrow> (string \<times> json) list" where
  "peer_fields key x =
     [(''pairingId'', JStr key), (''peerId'', JStr (s_id x)), (''name'', JStr (s_name x))]"

definition finish_pair :: "string \<Rightarrow> qstring \<Rightarrow> relay \<Rightarrow> relay" where
  "finish_pair status rid st =
     (case tget (pairs st) rid of
        None \<Rightarrow> st
      | Some p \<Rightarrow>
          let st1 = st\<lparr>pairs := tdel rid (pairs st)\<rparr>;
              st2 = (if pointer_live st1 (p_host p)
                then pairing (p_host p) (p_host_request p) status
                  (peer_fields rid (session_of st1 (p_client p))) st1
                else st1)
          in if pointer_live st2 (p_client p)
             then pairing (p_client p) (p_client_request p) status
               (peer_fields rid (session_of st2 (p_host p))) st2
             else st2)"

text \<open>\<open>cancelPairing\<close>: an empty request stands for every request of the socket.\<close>

definition offer_hit :: "sock \<Rightarrow> qstring \<Rightarrow> offer \<Rightarrow> bool" where
  "offer_hit s request off \<longleftrightarrow> o_host off = s \<and> (request = [] \<or> o_request off = request)"

definition cancel_offer :: "sock \<Rightarrow> qstring \<Rightarrow> bytes \<Rightarrow> relay \<Rightarrow> relay" where
  "cancel_offer s request hash st =
     (case tget (offers st) hash of
        None \<Rightarrow> st
      | Some off \<Rightarrow>
          if offer_hit s request off
          then pairing s (o_request off) ''cancelled'' [] (st\<lparr>offers := tdel hash (offers st)\<rparr>)
          else st)"

definition pair_hit :: "sock \<Rightarrow> qstring \<Rightarrow> pair_entry \<Rightarrow> bool" where
  "pair_hit s request p \<longleftrightarrow>
     (p_host p = s \<and> (request = [] \<or> p_host_request p = request))
     \<or> (p_client p = s \<and> (request = [] \<or> p_client_request p = request))"

definition cancel_pair :: "sock \<Rightarrow> qstring \<Rightarrow> qstring \<Rightarrow> relay \<Rightarrow> relay" where
  "cancel_pair s request rid st =
     (case tget (pairs st) rid of
        None \<Rightarrow> st
      | Some p \<Rightarrow> if pair_hit s request p then finish_pair ''cancelled'' rid st else st)"

definition cancel_offers :: "sock \<Rightarrow> qstring \<Rightarrow> relay \<Rightarrow> relay" where
  "cancel_offers s request st = fold (cancel_offer s request) (tkeys (offers st)) st"

definition cancel_pairs :: "sock \<Rightarrow> qstring \<Rightarrow> relay \<Rightarrow> relay" where
  "cancel_pairs s request st = fold (cancel_pair s request) (tkeys (pairs st)) st"

definition cancel_pairing :: "sock \<Rightarrow> qstring \<Rightarrow> relay \<Rightarrow> relay" where
  "cancel_pairing s request st = cancel_pairs s request (cancel_offers s request st)"

definition pair_confirm :: "env \<Rightarrow> sock \<Rightarrow> jobject \<Rightarrow> relay \<Rightarrow> relay" where
  "pair_confirm e s m st =
     (let key = to_string (jval m ''pairingId'') in
      case tget (pairs st) key of
        None \<Rightarrow> st
      | Some p \<Rightarrow>
          if p_client p \<noteq> s then st
          else if p_expires p \<le> now e \<or> \<not> active (now e) st (p_host p)
             \<or> \<not> active (now e) st (p_client p)
             \<or> target (now e) st s (s_id (session_of st (p_host p))) \<noteq> Some (p_host p)
          then finish_pair ''expired'' key st
          else finish_pair ''paired'' key st)"

definition count_attempt :: "msecs \<Rightarrow> session \<Rightarrow> session" where
  "count_attempt t x =
     (let x1 = (case s_window x of
          None \<Rightarrow> x\<lparr>s_window := Some t, s_attempts := 0\<rparr>
        | Some w \<Rightarrow> if t - w \<ge> 30000 then x\<lparr>s_window := Some t, s_attempts := 0\<rparr> else x)
      in x1\<lparr>s_attempts := Suc (s_attempts x1)\<rparr>)"

definition pair_offer :: "lib \<Rightarrow> env \<Rightarrow> sock \<Rightarrow> qstring \<Rightarrow> relay \<Rightarrow> relay" where
  "pair_offer L e s rid st =
     (let caller = session_of st s in
      if s_descriptor caller = fmempty
      then pairing s rid ''error'' [(''error'', jtext ''host_required'')] st
      else
        let st1 = cancel_pairing s [] st;
            code = to_hex (random e);
            expires = min (now e + 60000) (expires_at (s_principal caller));
            st2 = st1\<lparr>offers := tput (sha256 L code)
              \<lparr>o_host = s, o_request = rid, o_expires = expires\<rparr> (offers st1)\<rparr>
        in pairing s rid ''offered''
             [(''code'', JStr (from_latin1 code)), (''peerId'', JStr (s_id caller)),
              (''name'', JStr (s_name caller)), (''expires'', JStr (number_text expires))] st2)"

definition claimed_fields :: "qstring \<Rightarrow> session \<Rightarrow> msecs \<Rightarrow> (string \<times> json) list" where
  "claimed_fields key x expires =
     peer_fields key x @ [(''expires'', JStr (number_text expires))]"

definition pair_claim :: "lib \<Rightarrow> env \<Rightarrow> sock \<Rightarrow> qstring \<Rightarrow> jobject \<Rightarrow> relay \<Rightarrow> relay" where
  "pair_claim L e s rid m st =
     (let caller = session_of st s;
          code = to_string (jval m ''code'');
          hash = sha256 L (to_latin1 code);
          name = to_string (jval m ''host'');
          refused = pairing s rid ''error'' [(''error'', jtext ''pairing_invalid_or_expired'')] st
      in case tget (offers st) hash of
           None \<Rightarrow> refused
         | Some off \<Rightarrow>
             if length code \<noteq> 64 \<or> o_expires off \<le> now e \<or> \<not> active (now e) st (o_host off)
                \<or> s_descriptor caller \<noteq> fmempty \<or> s_id (session_of st (o_host off)) \<noteq> name
                \<or> target (now e) st s name \<noteq> Some (o_host off)
             then refused
             else
               let st1 = cancel_pairing s [] st;
                   st2 = st1\<lparr>offers := tdel hash (offers st1)\<rparr>;
                   key = fresh e;
                   expires = min (now e + 15000) (o_expires off);
                   st3 = st2\<lparr>pairs := tput key \<lparr>p_host = o_host off, p_client = s,
                     p_host_request = o_request off, p_client_request = rid,
                     p_expires = expires\<rparr> (pairs st2)\<rparr>;
                   st4 = pairing (o_host off) (o_request off) ''claimed''
                     (claimed_fields key caller expires) st3
               in pairing s rid ''claimed''
                    (claimed_fields key (session_of st4 (o_host off)) expires) st4)"

text \<open>\<open>pairMessage\<close>: \<open>None\<close> when it returns false, the state is then unchanged.\<close>

definition starts_with :: "string \<Rightarrow> qstring \<Rightarrow> bool" where
  "starts_with p s \<longleftrightarrow> take (length p) s = qs p"

definition pair_message :: "lib \<Rightarrow> env \<Rightarrow> sock \<Rightarrow> jobject \<Rightarrow> relay \<Rightarrow> relay option" where
  "pair_message L e s m st =
     (let type = to_string (jval m ''type''); rid = to_string (jval m ''id'') in
      if \<not> starts_with ''pair-'' type then None
      else if type = qs ''pair-confirm'' then Some (pair_confirm e s m st)
      else if \<not> identifier_ok rid then Some (emit (Close s 1000 '''') st)
      else if type = qs ''pair-cancel'' then Some (cancel_pairing s rid st)
      else
        let caller = count_attempt (now e) (session_of st s);
            st1 = set_session s caller st
        in if s_attempts caller > 6
           then Some (pairing s rid ''error'' [(''error'', jtext ''pairing_rate_limited'')] st1)
           else if type = qs ''pair-offer'' then Some (pair_offer L e s rid st1)
           else if type = qs ''pair-claim'' then Some (pair_claim L e s rid m st1)
           else Some (emit (Close s 1000 '''') st1))"

section \<open>Directory and disconnection\<close>

definition directory :: "msecs \<Rightarrow> sock \<Rightarrow> relay \<Rightarrow> relay" where
  "directory t s st =
     (if \<not> active t st s \<or> s_id (session_of st s) = [] then st
      else send_to s [(''type'', jtext ''peers''),
        (''peers'', JArr (map (\<lambda>(k, x). JObj (s_descriptor x))
           (filter (\<lambda>(k, x). k \<noteq> s \<and> reachable_host t (session_of st s) x) (sessions st))))] st)"

definition changed :: "msecs \<Rightarrow> relay \<Rightarrow> relay" where
  "changed t st = fold (directory t) (tkeys (sessions st)) st"

definition error_response :: "qstring \<Rightarrow> string \<Rightarrow> (string \<times> json) list" where
  "error_response rid code =
     [(''type'', jtext ''response''), (''id'', JStr rid), (''result'', JObj (error_object code))]"

definition drop_route :: "sock \<Rightarrow> qstring \<Rightarrow> relay \<Rightarrow> relay" where
  "drop_route s key st =
     (case tget (routes st) key of
        None \<Rightarrow> st
      | Some r \<Rightarrow>
          if r_client r = s \<or> r_host r = s then
            let st1 = st\<lparr>routes := tdel key (routes st)\<rparr> in
            if pointer_live st1 (r_client r) \<and> r_client r \<noteq> s
            then send_to (r_client r) (error_response (r_id r) ''host_offline'') st1
            else st1
          else st)"

definition relay_remove :: "msecs \<Rightarrow> sock \<Rightarrow> relay \<Rightarrow> relay" where
  "relay_remove t s st =
     (let st1 = cancel_pairing s [] st;
          st2 = st1\<lparr>sessions := tdel s (sessions st1)\<rparr>;
          st3 = fold (drop_route s) (tkeys (routes st2)) st2
      in changed t st3)"

section \<open>The half-second sweep\<close>

definition sweep_offer :: "msecs \<Rightarrow> bytes \<Rightarrow> relay \<Rightarrow> relay" where
  "sweep_offer t hash st =
     (case tget (offers st) hash of
        None \<Rightarrow> st
      | Some off \<Rightarrow>
          if o_expires off \<le> t \<or> \<not> active t st (o_host off) then
            let st1 = st\<lparr>offers := tdel hash (offers st)\<rparr> in
            if pointer_live st1 (o_host off) then pairing (o_host off) (o_request off) ''expired'' [] st1
            else st1
          else st)"

definition sweep_pair :: "msecs \<Rightarrow> qstring \<Rightarrow> relay \<Rightarrow> relay" where
  "sweep_pair t rid st =
     (case tget (pairs st) rid of
        None \<Rightarrow> st
      | Some p \<Rightarrow>
          if p_expires p \<le> t \<or> \<not> active t st (p_host p) \<or> \<not> active t st (p_client p)
          then finish_pair ''expired'' rid st else st)"

definition sweep_session :: "msecs \<Rightarrow> sock \<Rightarrow> relay \<Rightarrow> relay" where
  "sweep_session t s st =
     (let x = session_of st s; a = account_id (s_principal x) in
      if (a \<noteq> [] \<and> \<not> live t (s_principal x)) \<or> (a = [] \<and> t - s_connected x > 7000)
      then emit (Close s 1008 ''Authentication expired'') st
      else emit (Ping s) st)"

definition sweep_route :: "msecs \<Rightarrow> qstring \<Rightarrow> relay \<Rightarrow> relay" where
  "sweep_route t key st =
     (case tget (routes st) key of
        None \<Rightarrow> st
      | Some r \<Rightarrow>
          if r_expires r < t then
            let st1 = st\<lparr>routes := tdel key (routes st)\<rparr> in
            if pointer_live st1 (r_client r)
            then send_to (r_client r) (error_response (r_id r) ''timeout'') st1
            else st1
          else st)"

definition relay_sweep :: "msecs \<Rightarrow> relay \<Rightarrow> relay" where
  "relay_sweep t st =
     (let st1 = fold (sweep_offer t) (tkeys (offers st)) st;
          st2 = fold (sweep_pair t) (tkeys (pairs st1)) st1;
          st3 = fold (sweep_session t) (tkeys (sessions st2)) st2
      in fold (sweep_route t) (tkeys (routes st3)) st3)"

section \<open>Messages\<close>

definition auth_message :: "lib \<Rightarrow> sock \<Rightarrow> jobject \<Rightarrow> relay \<Rightarrow> relay" where
  "auth_message L s m st =
     (let x = session_of st s;
          credential = utf8 L (to_string (jval m ''credential''))
      in if s_authenticating x \<or> credential = [] \<or> length credential > 16384 \<or> \<not> has_auth st
         then emit (Close s 1000 '''') st
         else emit (Verify s credential) (set_session s (x\<lparr>s_authenticating := True\<rparr>) st))"

text \<open>The completion the relay hands to the authenticator.\<close>

definition auth_done :: "msecs \<Rightarrow> sock \<Rightarrow> principal \<Rightarrow> relay \<Rightarrow> relay" where
  "auth_done t s p st =
     (if \<not> has_key (sessions st) s then st
      else
        let x = (session_of st s)\<lparr>s_authenticating := False\<rparr>;
            old = account_id (s_principal x);
            st1 = set_session s x st
        in if \<not> live t p \<or> (old \<noteq> [] \<and> account_id p \<noteq> old) then
             let st2 = cancel_pairing s [] st1;
                 st3 = set_session s ((session_of st2 s)\<lparr>s_principal := no_principal\<rparr>) st2
             in emit (Close s 1000 '''')
                  (send_to s [(''type'', jtext ''error''), (''error'', jtext ''unauthenticated'')] st3)
           else
             let p' = p\<lparr>expires_at := min (expires_at p) (t + 60000)\<rparr>
             in send_to s [(''type'', jtext ''authenticated''), (''accountId'', JStr (account_id p'))]
                  (set_session s (x\<lparr>s_principal := p'\<rparr>) st1))"

fun accepted_urls :: "lib \<Rightarrow> qstring \<Rightarrow> json list \<Rightarrow> json list \<Rightarrow> json list" where
  "accepted_urls L fp acc [] = acc"
| "accepted_urls L fp acc (v # vs) =
     (let url = parse_url L (to_string v) in
      accepted_urls L fp
        (if length acc < 16 \<and> endpoint L url ''wss'' ''ws''
            \<and> parse_address L (url_host url) \<noteq> None
            \<and> (url_scheme url = qs ''ws'' \<or> hex_token fp)
         then acc @ [JStr (url_text url)] else acc) vs)"

definition host_descriptor :: "lib \<Rightarrow> jobject \<Rightarrow> jobject" where
  "host_descriptor L m =
     (if to_bool (jval m ''host'') then
        jobj [(''peerId'', JStr (to_string (jval m ''peerId''))), (''name'', jval m ''name''),
          (''service'', JStr (to_string (jval m ''service''))), (''metadata'', jval m ''metadata''),
          (''localUrls'', JArr (accepted_urls L (to_string (jval m ''fingerprint'')) []
             (to_array (jval m ''localUrls'')))),
          (''fingerprint'', JStr (to_string (jval m ''fingerprint'')))]
      else fmempty)"

definition duplicate_peer :: "relay \<Rightarrow> sock \<Rightarrow> qstring \<Rightarrow> qstring \<Rightarrow> bool" where
  "duplicate_peer st s rid service \<longleftrightarrow>
     list_ex (\<lambda>(k, x). k \<noteq> s
       \<and> account_id (s_principal x) = account_id (s_principal (session_of st s))
       \<and> s_id x = rid \<and> s_service x = service) (sessions st)"

definition register_message :: "lib \<Rightarrow> env \<Rightarrow> sock \<Rightarrow> jobject \<Rightarrow> relay \<Rightarrow> relay" where
  "register_message L e s m st =
     (let rid = to_string (jval m ''peerId''); service = to_string (jval m ''service'') in
      if \<not> identifier_ok rid \<or> \<not> identifier_ok service
         \<or> length (to_string (jval m ''name'')) > 128
         \<or> length (json_indented L (JObj (to_object (jval m ''metadata'')))) > 8192
      then emit (Close s 1000 '''') st
      else if duplicate_peer st s rid service
      then emit (Close s 1000 '''')
        (send_to s [(''type'', jtext ''error''), (''error'', jtext ''duplicate_peer'')] st)
      else
        let x = session_of st s in
        if (s_id x \<noteq> [] \<and> s_id x \<noteq> rid) \<or> (s_service x \<noteq> [] \<and> s_service x \<noteq> service)
        then emit (Close s 1000 '''') st
        else
          let x1 = x\<lparr>s_id := rid, s_service := service, s_name := to_string (jval m ''name''),
                s_descriptor := host_descriptor L m\<rparr>;
              st1 = set_session s x1 st;
              st2 = (if s_descriptor x \<noteq> fmempty \<and> s_descriptor x1 = fmempty
                then cancel_pairing s [] st1 else st1)
          in changed (now e) (send_to s [(''type'', jtext ''registered'')] st2))"

definition connect_message :: "env \<Rightarrow> sock \<Rightarrow> jobject \<Rightarrow> relay \<Rightarrow> relay" where
  "connect_message e s m st =
     (let rid = to_string (jval m ''peerId'') in
      case target (now e) st s rid of
        None \<Rightarrow> send_to s [(''type'', jtext ''connect''), (''peerId'', JStr rid),
          (''error'', jtext ''host_unavailable'')] st
      | Some host \<Rightarrow>
          let ticket = from_latin1 (to_hex (random e));
              expiry = min (expires_at (s_principal (session_of st s)))
                (expires_at (s_principal (session_of st host)));
              st1 = send_to host [(''type'', jtext ''ticket''), (''ticket'', JStr ticket),
                (''peerId'', JStr (s_id (session_of st s))), (''expires'', JStr (number_text expiry))] st
          in send_to s [(''type'', jtext ''connect''), (''peerId'', JStr rid),
               (''ticket'', JStr ticket), (''descriptor'', JObj (s_descriptor (session_of st host))),
               (''expires'', JStr (number_text expiry))] st1)"

definition client_routes :: "relay \<Rightarrow> sock \<Rightarrow> nat" where
  "client_routes st s = length (filter (\<lambda>(k, r). r_client r = s) (routes st))"

definition request_message :: "env \<Rightarrow> sock \<Rightarrow> jobject \<Rightarrow> relay \<Rightarrow> relay" where
  "request_message e s m st =
     (let rid = to_string (jval m ''id'');
          host = target (now e) st s (to_string (jval m ''peerId''))
      in if \<not> identifier_ok rid \<or> \<not> is_object (jval m ''payload'') then emit (Close s 1000 '''') st
         else case host of
             None \<Rightarrow> send_to s (error_response rid ''host_unavailable'') st
           | Some h \<Rightarrow>
               if client_routes st s \<ge> 32 \<or> length (routes st) \<ge> 1024
               then send_to s (error_response rid ''busy'') st
               else
                 let key = fresh e;
                     st1 = st\<lparr>routes := tput key \<lparr>r_client = s, r_host = h, r_id = rid,
                       r_expires = now e + 15000\<rparr> (routes st)\<rparr>
                 in send_to h [(''type'', jtext ''request''), (''id'', JStr key),
                      (''peerId'', JStr (s_id (session_of st1 s))),
                      (''payload'', jval m ''payload'')] st1)"

definition response_message :: "env \<Rightarrow> sock \<Rightarrow> jobject \<Rightarrow> relay \<Rightarrow> relay" where
  "response_message e s m st =
     (let key = to_string (jval m ''id'') in
      case tget (routes st) key of
        None \<Rightarrow> st
      | Some r \<Rightarrow>
          if r_host r \<noteq> s then st
          else
            let st1 = st\<lparr>routes := tdel key (routes st)\<rparr> in
            if pointer_live st1 (r_client r) \<and> active (now e) st1 (r_client r)
            then send_to (r_client r) [(''type'', jtext ''response''), (''id'', JStr (r_id r)),
              (''result'', jval m ''result'')] st1
            else st1)"

definition relay_message :: "lib \<Rightarrow> env \<Rightarrow> sock \<Rightarrow> jobject \<Rightarrow> relay \<Rightarrow> relay" where
  "relay_message L e s m st =
     (if \<not> has_key (sessions st) s then st
      else
        let type = to_string (jval m ''type'') in
        if type = qs ''auth'' then auth_message L s m st
        else if \<not> active (now e) st s then emit (Close s 1008 ''Authentication required'') st
        else if type = qs ''register'' then register_message L e s m st
        else if s_id (session_of st s) = [] then emit (Close s 1000 '''') st
        else case pair_message L e s m st of
            Some st' \<Rightarrow> st'
          | None \<Rightarrow>
              if type = qs ''list'' then directory (now e) s st
              else if type = qs ''connect'' then connect_message e s m st
              else if type = qs ''request'' then request_message e s m st
              else if type = qs ''response'' then response_message e s m st
              else emit (Close s 1002 ''Invalid message'') st)"

section \<open>Listening, accepting, stopping\<close>

definition relay_accept :: "msecs \<Rightarrow> sock \<Rightarrow> relay \<Rightarrow> relay" where
  "relay_accept t s st =
     (if length (sessions st) \<ge> 128 then emit (Close s 1000 '''') st
      else set_session s (new_session t) st)"

definition relay_stop :: "relay \<Rightarrow> relay" where
  "relay_stop st = st\<lparr>serving := False, sessions := [], routes := [], offers := [], pairs := []\<rparr>"

definition relay_listen :: "address \<Rightarrow> bool \<Rightarrow> qstring option \<Rightarrow> relay \<Rightarrow> bool \<times> relay" where
  "relay_listen addr has_identity bind_error st =
     (let st1 = (relay_stop st)\<lparr>relay_error := []\<rparr> in
      if \<not> has_auth st1
      then (False, st1\<lparr>relay_error := qs ''An account authenticator is required.''\<rparr>)
      else case listener addr has_identity bind_error of
          Listening \<Rightarrow> (True, st1\<lparr>serving := True\<rparr>)
        | ListenError err \<Rightarrow> (False, st1\<lparr>relay_error := err\<rparr>))"

section \<open>Events and reachable states\<close>

text \<open>
  What can happen to a relay: a connection is accepted (its socket is a new object), a text
  or binary frame arrives, the authenticator answers, a socket disconnects, the timer fires,
  or the owner listens or stops.
\<close>

datatype relay_event =
    Accepted sock
  | TextFrame sock jobject
  | BinaryFrameIn sock
  | AuthAnswer sock principal
  | Disconnected sock
  | Tick
  | Listen address bool "qstring option"
  | Stop

fun relay_step :: "lib \<Rightarrow> env \<Rightarrow> relay_event \<Rightarrow> relay \<Rightarrow> relay" where
  "relay_step L e (Accepted s) st = relay_accept (now e) s st"
| "relay_step L e (TextFrame s m) st = relay_message L e s m st"
| "relay_step L e (BinaryFrameIn s) st = emit (Close s 1000 '''') st"
| "relay_step L e (AuthAnswer s p) st = auth_done (now e) s p st"
| "relay_step L e (Disconnected s) st = relay_remove (now e) s st"
| "relay_step L e Tick st = relay_sweep (now e) st"
| "relay_step L e (Listen a i be) st = snd (relay_listen a i be st)"
| "relay_step L e Stop st = relay_stop st"

definition closed :: "relay \<Rightarrow> sock \<Rightarrow> bool" where
  "closed st s \<longleftrightarrow> (\<exists>c r. Close s c r \<in> set (log st))"

fun event_ok :: "relay_event \<Rightarrow> relay \<Rightarrow> bool" where
  "event_ok (Accepted s) st = (\<not> has_key (sessions st) s \<and> \<not> closed st s)"
| "event_ok _ st = True"

inductive relay_reach :: "lib \<Rightarrow> relay \<Rightarrow> bool" for L where
  relay_start: "relay_reach L (new_relay auth)"
| relay_next: "relay_reach L st \<Longrightarrow> event_ok ev st \<Longrightarrow> relay_reach L (relay_step L e ev st)"

text \<open>A run of events, each with its clock, identifier and random bytes.\<close>

fun relay_run :: "lib \<Rightarrow> (env \<times> relay_event) list \<Rightarrow> relay \<Rightarrow> relay" where
  "relay_run L [] st = st"
| "relay_run L ((e, ev) # tr) st = relay_run L tr (relay_step L e ev st)"

fun run_ok :: "lib \<Rightarrow> (env \<times> relay_event) list \<Rightarrow> relay \<Rightarrow> bool" where
  "run_ok L [] st = True"
| "run_ok L ((e, ev) # tr) st = (event_ok ev st \<and> run_ok L tr (relay_step L e ev st))"

lemma reach_run: "relay_reach L st \<Longrightarrow> run_ok L tr st \<Longrightarrow> relay_reach L (relay_run L tr st)"
proof (induction tr arbitrary: st)
  case (Cons step tr)
  then show ?case by (cases step) (auto intro: Cons.IH relay_next)
qed simp

lemma closed_code [code]:
  "closed st s \<longleftrightarrow> list_ex (\<lambda>ev. case ev of Close a c r \<Rightarrow> a = s | _ \<Rightarrow> False) (log st)"
proof -
  have "(case ev of Close a c r \<Rightarrow> a = s | _ \<Rightarrow> False) \<longleftrightarrow> (\<exists>c r. ev = Close s c r)" for ev
    by (cases ev) auto
  then show ?thesis by (auto simp: closed_def list_ex_iff)
qed

end
