(* ===== verification/RelayFrame.thy ===== *)
theory RelayFrame
  imports Relay
begin

text \<open>
  What the relay's helpers leave alone and what its loops amount to. Every loop over a
  snapshot of keys is an instance of the sweep contract of the prelude, so cancelling,
  dropping the routes of a socket and the three table sweeps have closed forms: a filtered
  table and a list of messages. The directory broadcast only writes messages.
\<close>

named_theorems relay_frame \<open>what an operation leaves unchanged\<close>
named_theorems relay_closed \<open>closed forms of the relay's loops\<close>

section \<open>Frame of the helpers\<close>

lemma emit_fields [simp, relay_frame]:
  "sessions (emit ev st) = sessions st" "routes (emit ev st) = routes st"
  "offers (emit ev st) = offers st" "pairs (emit ev st) = pairs st"
  "has_auth (emit ev st) = has_auth st" "serving (emit ev st) = serving st"
  "relay_error (emit ev st) = relay_error st" "log (emit ev st) = log st @ [ev]"
  by (simp_all add: emit_def)

lemma send_to_fields [simp, relay_frame]:
  "sessions (send_to s kvs st) = sessions st" "routes (send_to s kvs st) = routes st"
  "offers (send_to s kvs st) = offers st" "pairs (send_to s kvs st) = pairs st"
  "has_auth (send_to s kvs st) = has_auth st" "serving (send_to s kvs st) = serving st"
  "log (send_to s kvs st) = log st @ [Send s (jobj kvs)]"
  by (simp_all add: send_to_def)

definition pairing_object ::
  "qstring \<Rightarrow> string \<Rightarrow> (string \<times> json) list \<Rightarrow> jobject" where
  "pairing_object rid status data =
     jobj (data @ [(''type'', jtext ''pairing''), (''id'', JStr rid), (''status'', jtext status)])"

lemma pairing_emit: "pairing s rid status data = emit (Send s (pairing_object rid status data))"
  by (rule ext) (simp add: pairing_def send_to_def pairing_object_def)

lemma pairing_fields [simp, relay_frame]:
  "sessions (pairing s rid status d st) = sessions st"
  "routes (pairing s rid status d st) = routes st"
  "offers (pairing s rid status d st) = offers st"
  "pairs (pairing s rid status d st) = pairs st"
  "has_auth (pairing s rid status d st) = has_auth st"
  "serving (pairing s rid status d st) = serving st"
  "log (pairing s rid status d st) = log st @ [Send s (pairing_object rid status d)]"
  by (simp_all add: pairing_emit)

lemma set_session_fields [simp, relay_frame]:
  "sessions (set_session s x st) = tput s x (sessions st)"
  "routes (set_session s x st) = routes st" "offers (set_session s x st) = offers st"
  "pairs (set_session s x st) = pairs st" "has_auth (set_session s x st) = has_auth st"
  "log (set_session s x st) = log st"
  by (simp_all add: set_session_def)

lemma session_of_cong: "sessions st = sessions st' \<Longrightarrow> session_of st = session_of st'"
  by (rule ext) (simp add: session_of_def)

lemma active_cong: "sessions st = sessions st' \<Longrightarrow> active t st s = active t st' s"
  by (simp add: active_def session_of_def)

lemma target_cong: "sessions st = sessions st' \<Longrightarrow> target t st s name = target t st' s name"
  by (simp add: target_def session_of_def)

lemma pointer_live_iff [simp]: "pointer_live st s \<longleftrightarrow> has_key (sessions st) s"
  by (simp add: pointer_live_def)

lemma session_of_frame [simp, relay_frame]:
  "session_of (emit ev st) = session_of st"
  "session_of (send_to s kvs st) = session_of st"
  "session_of (pairing s rid status d st) = session_of st"
  "session_of (st\<lparr>offers := x\<rparr>) = session_of st"
  "session_of (st\<lparr>pairs := y\<rparr>) = session_of st"
  "session_of (st\<lparr>routes := z\<rparr>) = session_of st"
  "session_of (st\<lparr>log := l\<rparr>) = session_of st"
  by (auto intro: session_of_cong)

lemma active_frame [simp, relay_frame]:
  "active t (emit ev st) s = active t st s"
  "active t (send_to a kvs st) s = active t st s"
  "active t (pairing a rid status d st) s = active t st s"
  "active t (st\<lparr>offers := x\<rparr>) s = active t st s"
  "active t (st\<lparr>pairs := y\<rparr>) s = active t st s"
  "active t (st\<lparr>routes := z\<rparr>) s = active t st s"
  "active t (st\<lparr>log := l\<rparr>) s = active t st s"
  by (auto intro!: active_cong)

lemma target_frame [simp, relay_frame]:
  "target t (emit ev st) s name = target t st s name"
  "target t (send_to a kvs st) s name = target t st s name"
  "target t (pairing a rid status d st) s name = target t st s name"
  "target t (st\<lparr>offers := x\<rparr>) s name = target t st s name"
  "target t (st\<lparr>pairs := y\<rparr>) s name = target t st s name"
  "target t (st\<lparr>routes := z\<rparr>) s name = target t st s name"
  "target t (st\<lparr>log := l\<rparr>) s name = target t st s name"
  by (auto intro!: target_cong)

lemma session_of_set [simp]:
  "session_of (set_session s x st) a = (if a = s then x else session_of st a)"
  by (simp add: session_of_def)

lemma session_of_in_set:
  "table_ok (sessions st) \<Longrightarrow> (s, x) \<in> set (sessions st) \<Longrightarrow> session_of st s = x"
  by (simp add: session_of_def tget_in_set [symmetric])

lemma session_of_member:
  "has_key (sessions st) s \<Longrightarrow> (s, session_of st s) \<in> set (sessions st)"
  by (auto simp: session_of_def has_key_def tget_Some_in_set)

lemma session_of_missing: "\<not> has_key (sessions st) s \<Longrightarrow> session_of st s = new_session 0"
  by (simp add: session_of_def has_key_def)

lemma target_Some:
  assumes "target t st source name = Some h"
  obtains x where "(h, x) \<in> set (sessions st)" "h \<noteq> source" "s_id x = name"
    "reachable_host t (session_of st source) x"
  using assms by (auto simp: target_def find_Some_iff dest: nth_mem)

section \<open>Messages written by the loops\<close>

definition finish_outs :: "string \<Rightarrow> qstring \<Rightarrow> relay \<Rightarrow> pair_entry \<Rightarrow> relay_out list" where
  "finish_outs status rid st p =
     (if has_key (sessions st) (p_host p)
      then [Send (p_host p) (pairing_object (p_host_request p) status
              (peer_fields rid (session_of st (p_client p))))] else [])
     @ (if has_key (sessions st) (p_client p)
        then [Send (p_client p) (pairing_object (p_client_request p) status
              (peer_fields rid (session_of st (p_host p))))] else [])"

lemma finish_pair_closed:
  "finish_pair status rid st = st\<lparr>pairs := tdel rid (pairs st),
     log := log st @ (case tget (pairs st) rid of
       None \<Rightarrow> [] | Some p \<Rightarrow> finish_outs status rid st p)\<rparr>"
proof (cases "tget (pairs st) rid")
  case None
  then show ?thesis by (simp add: finish_pair_def tdel_absent)
next
  case (Some p)
  then show ?thesis
    by (simp add: finish_pair_def finish_outs_def Let_def pairing_emit emit_def session_of_def)
qed

lemma finish_outs_cong:
  "sessions st = sessions st' \<Longrightarrow> finish_outs status rid st p = finish_outs status rid st' p"
  by (simp add: finish_outs_def session_of_def)

lemma finish_pair_fields [simp, relay_frame]:
  "sessions (finish_pair status rid st) = sessions st"
  "routes (finish_pair status rid st) = routes st"
  "offers (finish_pair status rid st) = offers st"
  "pairs (finish_pair status rid st) = tdel rid (pairs st)"
  "has_auth (finish_pair status rid st) = has_auth st"
  by (simp_all add: finish_pair_closed)

section \<open>The loops as sweeps\<close>

text \<open>
  Each body removes at most the visited key and its test reads only the sessions, which the
  loop leaves alone.
\<close>

lemma cancel_offer_closed:
  "cancel_offer s request k st = (case tget (offers st) k of
     None \<Rightarrow> st
   | Some off \<Rightarrow> if offer_hit s request off
       then st\<lparr>offers := tdel k (offers st),
         log := log st @ [Send s (pairing_object (o_request off) ''cancelled'' [])]\<rparr> else st)"
  by (simp add: cancel_offer_def pairing_emit emit_def split: option.split)

interpretation offer_cancel: logged_loop offers "cancel_offer s request"
    "\<lambda>st k off. offer_hit s request off" log
    "\<lambda>st k off. [Send s (pairing_object (o_request off) ''cancelled'' [])]"
  for s request
  by unfold_locales (auto simp: cancel_offer_closed split: option.split)

definition drop_outs :: "sock \<Rightarrow> relay \<Rightarrow> qstring \<Rightarrow> route \<Rightarrow> relay_out list" where
  "drop_outs s st key r =
     (if has_key (sessions st) (r_client r) \<and> r_client r \<noteq> s
      then [Send (r_client r) (jobj (error_response (r_id r) ''host_offline''))] else [])"

lemma drop_route_closed:
  "drop_route s k st = (case tget (routes st) k of
     None \<Rightarrow> st
   | Some r \<Rightarrow> if r_client r = s \<or> r_host r = s
       then st\<lparr>routes := tdel k (routes st), log := log st @ drop_outs s st k r\<rparr> else st)"
  by (auto simp: drop_route_def drop_outs_def send_to_def emit_def Let_def split: option.split)

interpretation route_drop: logged_loop routes "drop_route s"
    "\<lambda>st k r. r_client r = s \<or> r_host r = s" log "drop_outs s"
  for s
  by unfold_locales (auto simp: drop_route_closed drop_outs_def fun_eq_iff split: option.split)

definition expired_outs :: "relay \<Rightarrow> bytes \<Rightarrow> offer \<Rightarrow> relay_out list" where
  "expired_outs st k off =
     (if has_key (sessions st) (o_host off)
      then [Send (o_host off) (pairing_object (o_request off) ''expired'' [])] else [])"

lemma sweep_offer_closed:
  "sweep_offer t k st = (case tget (offers st) k of
     None \<Rightarrow> st
   | Some off \<Rightarrow> if o_expires off \<le> t \<or> \<not> active t st (o_host off)
       then st\<lparr>offers := tdel k (offers st), log := log st @ expired_outs st k off\<rparr> else st)"
  by (auto simp: sweep_offer_def expired_outs_def pairing_emit emit_def Let_def split: option.split)

lemma active_fields_cong:
  "active t (st\<lparr>offers := x, log := l\<rparr>) s = active t st s"
  "active t (st\<lparr>pairs := y, log := l\<rparr>) s = active t st s"
  by (simp_all add: active_def session_of_def)

interpretation offer_sweep: logged_loop offers "sweep_offer t"
    "\<lambda>st k off. o_expires off \<le> t \<or> \<not> active t st (o_host off)" log expired_outs
  for t
  by unfold_locales
    (auto simp: sweep_offer_closed expired_outs_def active_fields_cong fun_eq_iff split: option.split)

lemma finish_pair_active [simp]:
  "active t (finish_pair status k st) s = active t st s"
  by (rule active_cong) simp

lemma finish_outs_finish [simp]:
  "finish_outs a k (finish_pair status k' st) = finish_outs a k st"
  by (rule ext) (rule finish_outs_cong, simp)

lemma finish_pair_log:
  "tget (pairs st) k = Some p \<Longrightarrow>
     log (finish_pair status k st) = log st @ finish_outs status k st p"
  by (simp add: finish_pair_closed)

interpretation pair_cancel: logged_loop pairs "cancel_pair s request"
    "\<lambda>st k p. pair_hit s request p" log "\<lambda>st k p. finish_outs ''cancelled'' k st p"
  for s request
  by unfold_locales
    (auto simp: cancel_pair_def finish_pair_log fun_eq_iff split: option.split)

interpretation pair_sweep: logged_loop pairs "sweep_pair t"
    "\<lambda>st k p. p_expires p \<le> t \<or> \<not> active t st (p_host p) \<or> \<not> active t st (p_client p)"
    log "\<lambda>st k p. finish_outs ''expired'' k st p"
  for t
  by unfold_locales
    (auto simp: sweep_pair_def finish_pair_log fun_eq_iff split: option.split)

definition timeout_outs :: "relay \<Rightarrow> qstring \<Rightarrow> route \<Rightarrow> relay_out list" where
  "timeout_outs st k r =
     (if has_key (sessions st) (r_client r)
      then [Send (r_client r) (jobj (error_response (r_id r) ''timeout''))] else [])"

lemma sweep_route_closed:
  "sweep_route t k st = (case tget (routes st) k of
     None \<Rightarrow> st
   | Some r \<Rightarrow> if r_expires r < t
       then st\<lparr>routes := tdel k (routes st), log := log st @ timeout_outs st k r\<rparr> else st)"
  by (auto simp: sweep_route_def timeout_outs_def send_to_def emit_def Let_def split: option.split)

interpretation route_sweep: logged_loop routes "sweep_route t"
    "\<lambda>st k r. r_expires r < t" log timeout_outs
  for t
  by unfold_locales (auto simp: sweep_route_closed timeout_outs_def fun_eq_iff split: option.split)


section \<open>Closed forms\<close>

text \<open>A state and what is left when only some tables and the log may differ.\<close>

lemma relay_eqI:
  assumes "sessions a = sessions b" "routes a = routes b" "offers a = offers b"
    "pairs a = pairs b" "has_auth a = has_auth b" "serving a = serving b"
    "relay_error a = relay_error b" "log a = log b"
  shows "a = (b::relay)"
  using assms by (cases a, cases b) simp

lemma cancel_offer_frame:
  "sessions (cancel_offer s q k st) = sessions st" "routes (cancel_offer s q k st) = routes st"
  "pairs (cancel_offer s q k st) = pairs st" "has_auth (cancel_offer s q k st) = has_auth st"
  by (simp_all add: cancel_offer_closed split: option.split)

lemma cancel_offers_fields [simp, relay_frame]:
  "sessions (cancel_offers s q st) = sessions st" "routes (cancel_offers s q st) = routes st"
  "pairs (cancel_offers s q st) = pairs st" "has_auth (cancel_offers s q st) = has_auth st"
  by (simp_all add: cancel_offers_def cancel_offer_frame fold_frame)

lemma cancel_pair_frame:
  "sessions (cancel_pair s q k st) = sessions st" "routes (cancel_pair s q k st) = routes st"
  "offers (cancel_pair s q k st) = offers st" "has_auth (cancel_pair s q k st) = has_auth st"
  by (simp_all add: cancel_pair_def split: option.split)

lemma cancel_pairs_fields [simp, relay_frame]:
  "sessions (cancel_pairs s q st) = sessions st" "routes (cancel_pairs s q st) = routes st"
  "offers (cancel_pairs s q st) = offers st" "has_auth (cancel_pairs s q st) = has_auth st"
  by (simp_all add: cancel_pairs_def cancel_pair_frame fold_frame)

lemma cancel_pairing_fields [simp, relay_frame]:
  "sessions (cancel_pairing s q st) = sessions st" "routes (cancel_pairing s q st) = routes st"
  "has_auth (cancel_pairing s q st) = has_auth st"
  by (simp_all add: cancel_pairing_def)

lemma session_of_cancel [simp, relay_frame]:
  "session_of (cancel_pairing s q st) = session_of st"
  by (rule session_of_cong) simp

lemma active_cancel [simp, relay_frame]: "active t (cancel_pairing s q st) a = active t st a"
  by (rule active_cong) simp

lemma cancel_pairing_offers [relay_closed]:
  "table_ok (offers st) \<Longrightarrow>
     offers (cancel_pairing s q st) = filter (\<lambda>(k, off). \<not> offer_hit s q off) (offers st)"
  by (simp add: cancel_pairing_def) (simp add: cancel_offers_def offer_cancel.loop_table)

lemma cancel_pairing_pairs [relay_closed]:
  "table_ok (pairs st) \<Longrightarrow>
     pairs (cancel_pairing s q st) = filter (\<lambda>(k, p). \<not> pair_hit s q p) (pairs st)"
  using pair_cancel.loop_table [of "cancel_offers s q st" s q]
  by (simp add: cancel_pairing_def cancel_pairs_def)

definition cancel_outs :: "sock \<Rightarrow> qstring \<Rightarrow> relay \<Rightarrow> relay_out list" where
  "cancel_outs s q st =
     concat (map (\<lambda>(k, off). if offer_hit s q off
       then [Send s (pairing_object (o_request off) ''cancelled'' [])] else []) (offers st))
     @ concat (map (\<lambda>(k, p). if pair_hit s q p
       then finish_outs ''cancelled'' k st p else []) (pairs st))"

lemma cancel_pairing_log [relay_closed]:
  assumes "table_ok (offers st)" "table_ok (pairs st)"
  shows "log (cancel_pairing s q st) = log st @ cancel_outs s q st"
proof -
  have "finish_outs ''cancelled'' k (cancel_offers s q st) p = finish_outs ''cancelled'' k st p"
    for k p by (rule finish_outs_cong) simp
  moreover have "log (cancel_offers s q st) = log st @
      concat (map (\<lambda>(k, off). if offer_hit s q off
       then [Send s (pairing_object (o_request off) ''cancelled'' [])] else []) (offers st))"
    using offer_cancel.loop_log [of st s q] assms by (simp add: cancel_offers_def)
  ultimately show ?thesis
    using pair_cancel.loop_log [of "cancel_offers s q st" s q] assms
    by (simp add: cancel_pairing_def cancel_pairs_def cancel_outs_def cong: if_cong)
qed

lemma drop_route_frame:
  "sessions (drop_route s k st) = sessions st" "offers (drop_route s k st) = offers st"
  "pairs (drop_route s k st) = pairs st" "has_auth (drop_route s k st) = has_auth st"
  by (simp_all add: drop_route_closed split: option.split)

lemma drop_routes_fields [simp, relay_frame]:
  "sessions (fold (drop_route s) ks st) = sessions st"
  "offers (fold (drop_route s) ks st) = offers st"
  "pairs (fold (drop_route s) ks st) = pairs st"
  "has_auth (fold (drop_route s) ks st) = has_auth st"
  by (simp_all add: drop_route_frame fold_frame)

text \<open>The broadcast of the directory.\<close>

definition peers_out :: "msecs \<Rightarrow> relay \<Rightarrow> sock \<Rightarrow> relay_out list" where
  "peers_out t st s =
     (if \<not> active t st s \<or> s_id (session_of st s) = [] then []
      else [Send s (jobj [(''type'', jtext ''peers''),
        (''peers'', JArr (map (\<lambda>(k, x). JObj (s_descriptor x))
           (filter (\<lambda>(k, x). k \<noteq> s \<and> reachable_host t (session_of st s) x) (sessions st))))])])"

lemma directory_closed: "directory t s st = st\<lparr>log := log st @ peers_out t st s\<rparr>"
  by (simp add: directory_def peers_out_def send_to_def emit_def)

lemma peers_out_log [simp]: "peers_out t (st\<lparr>log := l\<rparr>) = peers_out t st"
  by (rule ext) (simp add: peers_out_def)

lemma changed_fold:
  "fold (directory t) ss st = st\<lparr>log := log st @ concat (map (peers_out t st) ss)\<rparr>"
  by (induction ss arbitrary: st) (simp_all add: directory_closed)

lemma changed_closed:
  "changed t st = st\<lparr>log := log st @ concat (map (peers_out t st) (tkeys (sessions st)))\<rparr>"
  by (simp add: changed_def changed_fold)

lemma changed_fields [simp, relay_frame]:
  "sessions (changed t st) = sessions st" "routes (changed t st) = routes st"
  "offers (changed t st) = offers st" "pairs (changed t st) = pairs st"
  "has_auth (changed t st) = has_auth st" "serving (changed t st) = serving st"
  by (simp_all add: changed_closed)

lemma directory_fields [simp, relay_frame]:
  "sessions (directory t s st) = sessions st" "routes (directory t s st) = routes st"
  "offers (directory t s st) = offers st" "pairs (directory t s st) = pairs st"
  "has_auth (directory t s st) = has_auth st"
  by (simp_all add: directory_closed)

section \<open>The sweep as a whole\<close>

lemma sweep_frames:
  "sessions (sweep_offer t k st) = sessions st" "routes (sweep_offer t k st) = routes st"
  "pairs (sweep_offer t k st) = pairs st"
  "sessions (sweep_pair t i st) = sessions st" "routes (sweep_pair t i st) = routes st"
  "offers (sweep_pair t i st) = offers st"
  "sessions (sweep_session t s st) = sessions st" "routes (sweep_session t s st) = routes st"
  "offers (sweep_session t s st) = offers st" "pairs (sweep_session t s st) = pairs st"
  "sessions (sweep_route t j st) = sessions st" "offers (sweep_route t j st) = offers st"
  "pairs (sweep_route t j st) = pairs st"
  "has_auth (sweep_offer t k st) = has_auth st" "has_auth (sweep_pair t i st) = has_auth st"
  "has_auth (sweep_session t s st) = has_auth st" "has_auth (sweep_route t j st) = has_auth st"
  by (simp_all add: sweep_offer_closed sweep_pair_def sweep_session_def sweep_route_closed Let_def
      split: option.split)

lemma sweep_folds [simp]:
  "sessions (fold (sweep_offer t) ks st) = sessions st"
  "routes (fold (sweep_offer t) ks st) = routes st"
  "pairs (fold (sweep_offer t) ks st) = pairs st"
  "sessions (fold (sweep_pair t) is st) = sessions st"
  "routes (fold (sweep_pair t) is st) = routes st"
  "offers (fold (sweep_pair t) is st) = offers st"
  "sessions (fold (sweep_session t) ss st) = sessions st"
  "routes (fold (sweep_session t) ss st) = routes st"
  "offers (fold (sweep_session t) ss st) = offers st"
  "pairs (fold (sweep_session t) ss st) = pairs st"
  "sessions (fold (sweep_route t) js st) = sessions st"
  "offers (fold (sweep_route t) js st) = offers st"
  "pairs (fold (sweep_route t) js st) = pairs st"
  "has_auth (fold (sweep_offer t) ks st) = has_auth st"
  "has_auth (fold (sweep_pair t) is st) = has_auth st"
  "has_auth (fold (sweep_session t) ss st) = has_auth st"
  "has_auth (fold (sweep_route t) js st) = has_auth st"
  by (simp_all add: sweep_frames fold_frame)

lemma relay_sweep_sessions [simp]:
  "sessions (relay_sweep t st) = sessions st" "has_auth (relay_sweep t st) = has_auth st"
  by (simp_all add: relay_sweep_def)

lemma relay_sweep_offers [relay_closed]:
  "table_ok (offers st) \<Longrightarrow> offers (relay_sweep t st) =
     filter (\<lambda>(k, off). \<not> (o_expires off \<le> t \<or> \<not> active t st (o_host off))) (offers st)"
  by (simp add: relay_sweep_def offer_sweep.loop_table)

lemma relay_sweep_pairs [relay_closed]:
  assumes "table_ok (pairs st)"
  shows "pairs (relay_sweep t st) = filter (\<lambda>(k, p). \<not> (p_expires p \<le> t
    \<or> \<not> active t st (p_host p) \<or> \<not> active t st (p_client p))) (pairs st)"
proof -
  let ?st = "fold (sweep_offer t) (tkeys (offers st)) st"
  have "active t ?st s = active t st s" for s by (rule active_cong) simp
  then show ?thesis
    using pair_sweep.loop_table [of ?st t] assms by (simp add: relay_sweep_def Let_def)
qed

lemma relay_sweep_routes [relay_closed]:
  assumes "table_ok (routes st)"
  shows "routes (relay_sweep t st) = filter (\<lambda>(k, r). \<not> r_expires r < t) (routes st)"
proof -
  let ?st = "fold (sweep_session t) (tkeys (sessions st))
    (fold (sweep_pair t) (tkeys (pairs st)) (fold (sweep_offer t) (tkeys (offers st)) st))"
  show ?thesis
    using route_sweep.loop_table [of ?st t] assms by (simp add: relay_sweep_def Let_def)
qed

end
