(* ===== verification/RelayInvariant.thy ===== *)
theory RelayInvariant
  imports RelayFrame
begin

text \<open>
  The invariant of the relay: hash keys are unique, the hard limits on connections and routes
  hold, no pairing offer, pairing or route refers to a socket without a session, a socket
  takes part in at most one pairing, the parties of a pairing or route belong to the same
  account and service, and no two open sessions register the same peer. It holds in the
  state of a new relay and every event keeps it.
\<close>

section \<open>Growing logs\<close>

definition adds :: "(relay_out \<Rightarrow> bool) \<Rightarrow> relay \<Rightarrow> relay \<Rightarrow> bool" where
  "adds P st st' \<longleftrightarrow> (\<exists>l. log st' = log st @ l \<and> list_all P l)"

lemma adds_refl [simp, intro]: "adds P st st"
  by (simp add: adds_def)

lemma adds_trans: "adds P a b \<Longrightarrow> adds P b c \<Longrightarrow> adds P a c"
  by (auto simp: adds_def)

lemma adds_mono: "adds P a b \<Longrightarrow> (\<And>ev. P ev \<Longrightarrow> Q ev) \<Longrightarrow> adds Q a b"
  by (auto simp: adds_def list_all_iff)

lemma adds_same_log: "adds P a b \<Longrightarrow> log b' = log b \<Longrightarrow> adds P a b'"
  by (simp add: adds_def)

lemma adds_from_log: "adds P a b \<Longrightarrow> log a' = log a \<Longrightarrow> adds P a' b"
  by (simp add: adds_def)

lemma adds_log: "log b = log a \<Longrightarrow> adds P a b"
  by (simp add: adds_def)

lemma adds_emit [intro]: "P ev \<Longrightarrow> adds P st (emit ev st)"
  by (simp add: adds_def)

lemma adds_append: "list_all P l \<Longrightarrow> log b = log a @ l \<Longrightarrow> adds P a b"
  by (auto simp: adds_def)

lemma adds_fold: "(\<And>k st. adds P st (f k st)) \<Longrightarrow> adds P st (fold f ks st)"
  by (induction ks arbitrary: st) (auto intro: adds_trans)

lemma adds_in: "adds P a b \<Longrightarrow> ev \<in> set (log b) \<Longrightarrow> ev \<in> set (log a) \<or> P ev"
  by (auto simp: adds_def list_all_iff)

lemma adds_drop: "adds P a b \<Longrightarrow> ev \<in> set (drop (length (log a)) (log b)) \<Longrightarrow> P ev"
  by (auto simp: adds_def list_all_iff)

lemma closed_adds: "adds P a b \<Longrightarrow> closed a s \<Longrightarrow> closed b s"
  unfolding adds_def closed_def by fastforce

lemma adds_any: "log b = log a @ l \<Longrightarrow> adds (\<lambda>_. True) a b"
  by (auto simp: adds_def list_all_iff)

lemma closed_emit: "closed (emit ev st) s \<longleftrightarrow> closed st s \<or> (\<exists>c r. ev = Close s c r)"
  by (auto simp: closed_def)

lemma closed_emit_close [simp]: "closed (emit (Close s c r) st) s"
  by (auto simp: closed_def)

section \<open>The parts of the invariant\<close>

definition tables_ok :: "relay \<Rightarrow> bool" where
  "tables_ok st \<longleftrightarrow> table_ok (sessions st) \<and> table_ok (routes st)
     \<and> table_ok (offers st) \<and> table_ok (pairs st)"

definition limits_ok :: "relay \<Rightarrow> bool" where
  "limits_ok st \<longleftrightarrow> length (sessions st) \<le> 128 \<and> length (routes st) \<le> 1024
     \<and> (\<forall>s. client_routes st s \<le> 32)"

text \<open>A registered session has an identity and, unless it is being closed, an account.\<close>

definition session_ok :: "bool \<Rightarrow> session \<Rightarrow> bool" where
  "session_ok shut x \<longleftrightarrow>
     (s_descriptor x \<noteq> fmempty \<longrightarrow> s_id x \<noteq> []) \<and> (s_id x = [] \<longleftrightarrow> s_service x = [])
     \<and> (s_id x \<noteq> [] \<longrightarrow> \<not> shut \<longrightarrow> account_id (s_principal x) \<noteq> [])"

definition sessions_ok :: "relay \<Rightarrow> bool" where
  "sessions_ok st \<longleftrightarrow> (\<forall>s. has_key (sessions st) s \<longrightarrow> session_ok (closed st s) (session_of st s))"

definition same_peer :: "session \<Rightarrow> session \<Rightarrow> bool" where
  "same_peer x y \<longleftrightarrow> s_id x = s_id y \<and> s_service x = s_service y
     \<and> account_id (s_principal x) = account_id (s_principal y)"

definition unique_ok :: "relay \<Rightarrow> bool" where
  "unique_ok st \<longleftrightarrow> (\<forall>a b. has_key (sessions st) a \<longrightarrow> has_key (sessions st) b \<longrightarrow> a \<noteq> b
     \<longrightarrow> \<not> closed st a \<longrightarrow> \<not> closed st b \<longrightarrow> s_id (session_of st a) \<noteq> []
     \<longrightarrow> \<not> same_peer (session_of st a) (session_of st b))"

definition hosting :: "relay \<Rightarrow> sock \<Rightarrow> bool" where
  "hosting st s \<longleftrightarrow> has_key (sessions st) s \<and> s_descriptor (session_of st s) \<noteq> fmempty"

definition linked :: "relay \<Rightarrow> sock \<Rightarrow> sock \<Rightarrow> bool" where
  "linked st a b \<longleftrightarrow> a \<noteq> b \<and> has_key (sessions st) a \<and> has_key (sessions st) b
     \<and> s_id (session_of st a) \<noteq> [] \<and> s_id (session_of st b) \<noteq> []
     \<and> s_service (session_of st a) = s_service (session_of st b)
     \<and> (\<not> closed st a \<longrightarrow> \<not> closed st b \<longrightarrow>
          account_id (s_principal (session_of st a)) = account_id (s_principal (session_of st b)))"

definition links_ok :: "relay \<Rightarrow> bool" where
  "links_ok st \<longleftrightarrow>
     (\<forall>(k, off) \<in> set (offers st). hosting st (o_host off))
     \<and> (\<forall>(k, p) \<in> set (pairs st). hosting st (p_host p) \<and> linked st (p_client p) (p_host p))
     \<and> (\<forall>(k, r) \<in> set (routes st). linked st (r_client r) (r_host r))"

definition pairing_load :: "relay \<Rightarrow> sock \<Rightarrow> nat" where
  "pairing_load st s = length (filter (\<lambda>(k, off). o_host off = s) (offers st))
     + length (filter (\<lambda>(k, p). p_host p = s \<or> p_client p = s) (pairs st))"

definition load_ok :: "relay \<Rightarrow> bool" where
  "load_ok st \<longleftrightarrow> (\<forall>s. pairing_load st s \<le> 1)"

definition relay_inv :: "relay \<Rightarrow> bool" where
  "relay_inv st \<longleftrightarrow> tables_ok st \<and> limits_ok st \<and> sessions_ok st \<and> unique_ok st
     \<and> links_ok st \<and> load_ok st"

lemmas relay_inv_parts = relay_inv_def tables_ok_def limits_ok_def sessions_ok_def unique_ok_def
  links_ok_def load_ok_def

lemma relay_inv_tables: "relay_inv st \<Longrightarrow> table_ok (sessions st)" "relay_inv st \<Longrightarrow> table_ok (routes st)"
  "relay_inv st \<Longrightarrow> table_ok (offers st)" "relay_inv st \<Longrightarrow> table_ok (pairs st)"
  by (simp_all add: relay_inv_def tables_ok_def)

lemma relay_inv_new [simp]: "relay_inv (new_relay auth)"
  by (simp add: relay_inv_parts new_relay_def client_routes_def pairing_load_def)

section \<open>Operations that only drop entries\<close>

lemma length_filter_sub: "length (filter f (filter g t)) \<le> length (filter f t)"
  by (rule length_filter_filter_le)

lemma unique_ok_cong:
  assumes "unique_ok st" "sessions st' = sessions st" "\<And>s. closed st s \<Longrightarrow> closed st' s"
  shows "unique_ok st'"
  using assms session_of_cong [OF assms(2)] by (fastforce simp: unique_ok_def)

lemma sessions_ok_cong:
  assumes "sessions_ok st" "sessions st' = sessions st" "\<And>s. closed st s \<Longrightarrow> closed st' s"
  shows "sessions_ok st'"
  using assms session_of_cong [OF assms(2)] by (fastforce simp: sessions_ok_def session_ok_def)

lemma linked_cong:
  assumes "linked st a b" "sessions st' = sessions st" "\<And>s. closed st s \<Longrightarrow> closed st' s"
  shows "linked st' a b"
  using assms session_of_cong [OF assms(2)] by (auto simp: linked_def)

lemma hosting_cong: "sessions st' = sessions st \<Longrightarrow> hosting st' = hosting st"
  by (rule ext) (simp add: hosting_def session_of_def)

text \<open>
  A state with the same sessions, at least the same closed sockets, and tables that are
  sub-tables satisfies the invariant again.
\<close>

lemma relay_inv_shrink:
  assumes inv: "relay_inv st" and same: "sessions st' = sessions st"
    and shut: "\<And>s. closed st s \<Longrightarrow> closed st' s"
    and offs: "offers st' = filter f (offers st)"
    and prs: "pairs st' = filter g (pairs st)"
    and rts: "routes st' = filter h (routes st)"
  shows "relay_inv st'"
proof -
  have "tables_ok st'"
    using inv by (simp add: relay_inv_def tables_ok_def same offs prs rts table_ok_filter)
  moreover have "limits_ok st'"
  proof -
    have "length (routes st') \<le> length (routes st)" by (simp add: rts)
    moreover have "client_routes st' s \<le> client_routes st s" for s
      by (simp add: client_routes_def rts length_filter_sub del: filter_filter)
    ultimately show ?thesis
      using inv same by (auto simp: relay_inv_def limits_ok_def intro: order_trans)
  qed
  moreover have "sessions_ok st'" "unique_ok st'"
    using inv same shut by (auto simp: relay_inv_def intro: sessions_ok_cong unique_ok_cong)
  moreover have "links_ok st'"
    using inv hosting_cong [OF same]
    by (auto simp: relay_inv_def links_ok_def offs prs rts intro: linked_cong [OF _ same shut])
  moreover have "load_ok st'"
  proof -
    have "pairing_load st' s \<le> pairing_load st s" for s
      unfolding pairing_load_def offs prs by (intro add_mono length_filter_sub)
    then show ?thesis using inv by (auto simp: relay_inv_def load_ok_def intro: order_trans)
  qed
  ultimately show ?thesis by (simp add: relay_inv_def)
qed

lemma filter_all: "filter (\<lambda>_. True) xs = xs"
  by simp

lemma relay_inv_same:
  assumes "relay_inv st" "sessions st' = sessions st" "offers st' = offers st"
    "pairs st' = pairs st" "routes st' = routes st" "adds P st st'"
  shows "relay_inv st'"
  by (rule relay_inv_shrink [where f = "\<lambda>_. True" and g = "\<lambda>_. True" and h = "\<lambda>_. True"])
    (use assms closed_adds in auto)

lemma relay_inv_emit [intro]: "relay_inv st \<Longrightarrow> relay_inv (emit ev st)"
  by (erule relay_inv_same) (auto intro: adds_emit [where P = "\<lambda>_. True"])

lemma relay_inv_send_to [intro]: "relay_inv st \<Longrightarrow> relay_inv (send_to s kvs st)"
  by (simp add: send_to_def relay_inv_emit)

lemma relay_inv_pairing [intro]: "relay_inv st \<Longrightarrow> relay_inv (pairing s rid status d st)"
  by (simp add: pairing_emit relay_inv_emit)

lemma relay_inv_changed [intro]: "relay_inv st \<Longrightarrow> relay_inv (changed t st)"
  by (erule relay_inv_same) (simp_all, rule adds_any, simp add: changed_closed)

lemma relay_inv_directory [intro]: "relay_inv st \<Longrightarrow> relay_inv (directory t s st)"
  by (simp add: directory_def relay_inv_send_to)

lemma adds_cancel_pairing:
  assumes "table_ok (offers st)" "table_ok (pairs st)" "list_all P (cancel_outs s q st)"
  shows "adds P st (cancel_pairing s q st)"
  using assms by (auto intro: adds_append cancel_pairing_log)

lemma relay_inv_cancel [intro]:
  assumes "relay_inv st"
  shows "relay_inv (cancel_pairing s q st)"
proof (rule relay_inv_shrink [OF assms, where h = "\<lambda>_. True"])
  note t = relay_inv_tables [OF assms]
  have "adds (\<lambda>_. True) st (cancel_pairing s q st)"
    by (rule adds_cancel_pairing) (simp_all add: t list_all_iff)
  then show "closed st a \<Longrightarrow> closed (cancel_pairing s q st) a" for a by (rule closed_adds)
qed (use relay_inv_tables [OF assms] in \<open>auto simp: relay_closed filter_all\<close>)


lemma relay_inv_finish [intro]:
  assumes "relay_inv st"
  shows "relay_inv (finish_pair status k st)"
proof (rule relay_inv_shrink [OF assms, where f = "\<lambda>_. True" and h = "\<lambda>_. True"])
  have "adds (\<lambda>_. True) st (finish_pair status k st)"
    by (rule adds_any) (simp add: finish_pair_closed)
  then show "closed st a \<Longrightarrow> closed (finish_pair status k st) a" for a by (rule closed_adds)
  show "pairs (finish_pair status k st) = filter (\<lambda>e. fst e \<noteq> k) (pairs st)"
    using relay_inv_tables [OF assms] by (simp add: tdel_filter)
qed simp_all

lemma relay_inv_confirm [intro]: "relay_inv st \<Longrightarrow> relay_inv (pair_confirm e s m st)"
  by (auto simp: pair_confirm_def Let_def split: option.split)

lemma relay_inv_drop_route_entry:
  assumes "relay_inv st"
  shows "relay_inv (st\<lparr>routes := tdel k (routes st)\<rparr>)"
  by (rule relay_inv_shrink [OF assms, where f = "\<lambda>_. True" and g = "\<lambda>_. True"
        and h = "\<lambda>e. fst e \<noteq> k"])
    (simp_all add: tdel_filter closed_def)

lemma relay_inv_drop_offer_entry:
  assumes "relay_inv st"
  shows "relay_inv (st\<lparr>offers := tdel k (offers st)\<rparr>)"
  by (rule relay_inv_shrink [OF assms, where f = "\<lambda>e. fst e \<noteq> k" and g = "\<lambda>_. True"
        and h = "\<lambda>_. True"])
    (simp_all add: tdel_filter closed_def)

lemma relay_inv_response [intro]:
  "relay_inv st \<Longrightarrow> relay_inv (response_message e s m st)"
  by (auto simp: response_message_def Let_def intro: relay_inv_drop_route_entry split: option.split)

lemma relay_inv_connect [intro]: "relay_inv st \<Longrightarrow> relay_inv (connect_message e s m st)"
  by (auto simp: connect_message_def Let_def split: option.split)

lemma adds_finish: "adds (\<lambda>_. True) st (finish_pair status k st)"
  by (rule adds_any) (simp add: finish_pair_closed)

lemma adds_sweep_bodies:
  "adds (\<lambda>_. True) st (sweep_offer t k st)" "adds (\<lambda>_. True) st (sweep_pair t i st)"
  "adds (\<lambda>_. True) st (sweep_session t s st)" "adds (\<lambda>_. True) st (sweep_route t i st)"
proof -
  show "adds (\<lambda>_. True) st (sweep_offer t k st)"
    by (cases "tget (offers st) k") (simp_all add: sweep_offer_closed adds_def list_all_iff)
  show "adds (\<lambda>_. True) st (sweep_pair t i st)"
    by (cases "tget (pairs st) i") (simp_all add: sweep_pair_def adds_finish)
  show "adds (\<lambda>_. True) st (sweep_session t s st)"
    by (simp add: sweep_session_def Let_def adds_emit)
  show "adds (\<lambda>_. True) st (sweep_route t i st)"
    by (cases "tget (routes st) i") (simp_all add: sweep_route_closed adds_def list_all_iff)
qed

lemma adds_sweep: "adds (\<lambda>_. True) st (relay_sweep t st)"
  unfolding relay_sweep_def Let_def
  by (rule adds_trans [OF adds_fold [OF adds_sweep_bodies(1)]],
      rule adds_trans [OF adds_fold [OF adds_sweep_bodies(2)]],
      rule adds_trans [OF adds_fold [OF adds_sweep_bodies(3)]],
      rule adds_fold [OF adds_sweep_bodies(4)])

lemma relay_inv_sweep [intro]:
  assumes "relay_inv st"
  shows "relay_inv (relay_sweep t st)"
  by (rule relay_inv_shrink [OF assms relay_sweep_sessions(1) closed_adds [OF adds_sweep]])
    (simp_all add: relay_closed relay_inv_tables [OF assms])

section \<open>Operations that add an entry\<close>

lemma pairing_load_sub:
  "offers st' = filter f (offers st) \<Longrightarrow> pairs st' = filter g (pairs st) \<Longrightarrow>
     pairing_load st' s \<le> pairing_load st s"
  unfolding pairing_load_def by (simp only:) (intro add_mono length_filter_sub)

lemma pairing_load_zero_iff:
  "pairing_load st s = 0 \<longleftrightarrow> (\<forall>(k, off) \<in> set (offers st). o_host off \<noteq> s)
     \<and> (\<forall>(k, p) \<in> set (pairs st). p_host p \<noteq> s \<and> p_client p \<noteq> s)"
  by (auto simp: pairing_load_def filter_empty_conv split: prod.splits)

lemma cancel_all_load [simp]:
  "relay_inv st \<Longrightarrow> pairing_load (cancel_pairing s [] st) s = 0"
  by (auto simp: pairing_load_zero_iff relay_closed relay_inv_tables offer_hit_def pair_hit_def)

lemma relay_inv_add_offer:
  assumes inv: "relay_inv st" and host: "hosting st (o_host off)"
    and free: "pairing_load st (o_host off) = 0"
  shows "relay_inv (st\<lparr>offers := tput k off (offers st)\<rparr>)" (is "relay_inv ?st")
proof -
  note t = relay_inv_tables [OF inv]
  have "closed ?st = closed st" "session_of ?st = session_of st"
    by (auto simp: closed_def fun_eq_iff)
  moreover have "load_ok ?st" unfolding load_ok_def
  proof
    fix s
    have "pairing_load ?st s \<le> pairing_load st s + (if o_host off = s then 1 else 0)"
      using length_filter_tput [of "\<lambda>(k, off). o_host off = s" k off "offers st"]
      by (simp add: pairing_load_def)
    then show "pairing_load ?st s \<le> 1"
      using inv free by (cases "o_host off = s") (auto simp: relay_inv_def load_ok_def intro: order_trans)
  qed
  moreover have "links_ok ?st"
    using inv host calculation(1,2)
    by (auto simp: relay_inv_def links_ok_def set_tput t hosting_def linked_def)
  ultimately show ?thesis using inv
    by (auto simp: relay_inv_def tables_ok_def limits_ok_def sessions_ok_def unique_ok_def
        client_routes_def)
qed

lemma relay_inv_add_route:
  assumes inv: "relay_inv st" and ends: "linked st (r_client r) (r_host r)"
    and room: "client_routes st (r_client r) < 32" "length (routes st) < 1024"
  shows "relay_inv (st\<lparr>routes := tput k r (routes st)\<rparr>)" (is "relay_inv ?st")
proof -
  note t = relay_inv_tables [OF inv]
  have same: "closed ?st = closed st" "session_of ?st = session_of st"
    by (auto simp: closed_def fun_eq_iff)
  have "client_routes ?st s \<le> 32" for s
  proof -
    have "client_routes ?st s \<le> client_routes st s + (if r_client r = s then 1 else 0)"
      using length_filter_tput [of "\<lambda>(k, r). r_client r = s" k r "routes st"]
      by (simp add: client_routes_def)
    also have "\<dots> \<le> 32" using inv room(1)
      by (auto simp: relay_inv_def limits_ok_def)
    finally show ?thesis .
  qed
  then have "limits_ok ?st"
    using inv room(2) by (auto simp: relay_inv_def limits_ok_def length_tput)
  moreover have "links_ok ?st"
    using inv ends same by (auto simp: relay_inv_def links_ok_def set_tput t hosting_def linked_def)
  ultimately show ?thesis using inv same
    by (auto simp: relay_inv_def tables_ok_def sessions_ok_def unique_ok_def load_ok_def
        pairing_load_def)
qed

lemma relay_inv_add_pair:
  assumes inv: "relay_inv st" and host: "hosting st (p_host p)"
    and ends: "linked st (p_client p) (p_host p)"
    and free: "pairing_load st (p_host p) = 0" "pairing_load st (p_client p) = 0"
  shows "relay_inv (st\<lparr>pairs := tput k p (pairs st)\<rparr>)" (is "relay_inv ?st")
proof -
  note t = relay_inv_tables [OF inv]
  have same: "closed ?st = closed st" "session_of ?st = session_of st"
    by (auto simp: closed_def fun_eq_iff)
  have "load_ok ?st" unfolding load_ok_def
  proof
    fix s
    have "pairing_load ?st s \<le> pairing_load st s + (if p_host p = s \<or> p_client p = s then 1 else 0)"
      using length_filter_tput [of "\<lambda>(k, p). p_host p = s \<or> p_client p = s" k p "pairs st"]
      by (simp add: pairing_load_def)
    then show "pairing_load ?st s \<le> 1"
      using inv free by (cases "p_host p = s \<or> p_client p = s")
        (auto simp: relay_inv_def load_ok_def intro: order_trans)
  qed
  moreover have "links_ok ?st"
    using inv host ends same
    by (auto simp: relay_inv_def links_ok_def set_tput t hosting_def linked_def)
  ultimately show ?thesis using inv same
    by (auto simp: relay_inv_def tables_ok_def limits_ok_def sessions_ok_def unique_ok_def
        client_routes_def)
qed


section \<open>Operations on sessions\<close>

lemma same_peer_sym: "same_peer x y \<longleftrightarrow> same_peer y x"
  by (auto simp: same_peer_def)

lemma linked_keys: "linked st a b \<Longrightarrow> has_key (sessions st) a \<and> has_key (sessions st) b"
  by (simp add: linked_def)

lemma closed_cancel [simp]:
  "relay_inv st \<Longrightarrow> closed (cancel_pairing s q st) = closed st"
  by (auto simp: closed_def fun_eq_iff relay_closed relay_inv_tables cancel_outs_def
      finish_outs_def split: if_splits)

lemma closed_simps [simp]:
  "closed (set_session s x st) = closed st"
  "closed (st\<lparr>sessions := ss\<rparr>) = closed st" "closed (st\<lparr>routes := rs\<rparr>) = closed st"
  "closed (send_to a kvs st) = closed st" "closed (pairing a rid status d st) = closed st"
  by (auto simp: closed_def fun_eq_iff)

text \<open>
  Replacing a session keeps the invariant when a registered peer keeps its identity and, on
  an open connection, its account, a host with pairings stays a host, and no other open
  session is the same peer.
\<close>

definition evolves :: "bool \<Rightarrow> session \<Rightarrow> session \<Rightarrow> bool" where
  "evolves shut x y \<longleftrightarrow> s_id x \<noteq> [] \<longrightarrow> s_id y = s_id x \<and> s_service y = s_service x
     \<and> (\<not> shut \<longrightarrow> account_id (s_principal y) = account_id (s_principal x))"

lemma linked_set_session:
  assumes "linked st a b" "evolves (closed st s) (session_of st s) y"
  shows "linked (set_session s y st) a b"
  using assms by (auto simp: linked_def evolves_def)

lemma relay_inv_set_session:
  assumes inv: "relay_inv st" and key: "has_key (sessions st) s"
    and ok: "session_ok (closed st s) y"
    and keep: "evolves (closed st s) (session_of st s) y"
    and host: "hosting st s \<Longrightarrow> s_descriptor y \<noteq> fmempty \<or> pairing_load st s = 0"
    and uniq: "\<And>b. has_key (sessions st) b \<Longrightarrow> b \<noteq> s \<Longrightarrow> \<not> closed st b \<Longrightarrow> \<not> closed st s
      \<Longrightarrow> s_id y \<noteq> [] \<Longrightarrow> \<not> same_peer y (session_of st b)"
  shows "relay_inv (set_session s y st)" (is "relay_inv ?st")
proof -
  note t = relay_inv_tables [OF inv]
  have links: "links_ok st" using inv by (simp add: relay_inv_def)
  have hosts: "hosting ?st a" if "hosting st a" "a = s \<Longrightarrow> pairing_load st s \<noteq> 0" for a
    using that host by (auto simp: hosting_def)
  have "tables_ok ?st" "limits_ok ?st" "load_ok ?st"
    using inv key by (auto simp: relay_inv_def tables_ok_def limits_ok_def load_ok_def length_tput
        client_routes_def pairing_load_def)
  moreover have "sessions_ok ?st"
    using inv ok by (auto simp: relay_inv_def sessions_ok_def)
  moreover have "unique_ok ?st"
    unfolding unique_ok_def
  proof (intro allI impI)
    fix a b
    assume h: "has_key (sessions ?st) a" "has_key (sessions ?st) b" "a \<noteq> b" "\<not> closed ?st a"
      "\<not> closed ?st b" "s_id (session_of ?st a) \<noteq> []"
    have old: "unique_ok st" using inv by (simp add: relay_inv_def)
    consider "a = s" | "b = s" "a \<noteq> s" | "a \<noteq> s" "b \<noteq> s" by blast
    then show "\<not> same_peer (session_of ?st a) (session_of ?st b)"
    proof cases
      case 1
      then show ?thesis using h uniq [of b] by simp
    next
      case 2
      then show ?thesis
        using h uniq [of a] by (simp add: same_peer_sym [of "session_of st a"]) (metis same_peer_def)
    next
      case 3
      then show ?thesis using h old by (simp add: unique_ok_def)
    qed
  qed
  moreover have "links_ok ?st"
  proof -
    have "hosting ?st (o_host off)" if "(k, off) \<in> set (offers st)" for k off
      using that links by (intro hosts) (auto simp: links_ok_def pairing_load_zero_iff)
    moreover have "hosting ?st (p_host p)" if "(k, p) \<in> set (pairs st)" for k p
      using that links by (intro hosts) (auto simp: links_ok_def pairing_load_zero_iff)
    ultimately show ?thesis
      using links by (auto simp: links_ok_def intro: linked_set_session [OF _ keep])
  qed
  ultimately show ?thesis by (simp add: relay_inv_def)
qed

lemma links_okD:
  "links_ok st \<Longrightarrow> (k, off) \<in> set (offers st) \<Longrightarrow> hosting st (o_host off)"
  "links_ok st \<Longrightarrow> (i, p) \<in> set (pairs st) \<Longrightarrow>
     hosting st (p_host p) \<and> linked st (p_client p) (p_host p)"
  "links_ok st \<Longrightarrow> (i, r) \<in> set (routes st) \<Longrightarrow> linked st (r_client r) (r_host r)"
  by (auto simp: links_ok_def)

lemma links_okI:
  assumes "\<And>k off. (k, off) \<in> set (offers st) \<Longrightarrow> hosting st (o_host off)"
    and "\<And>i p. (i, p) \<in> set (pairs st) \<Longrightarrow> hosting st (p_host p) \<and> linked st (p_client p) (p_host p)"
    and "\<And>i r. (i, r) \<in> set (routes st) \<Longrightarrow> linked st (r_client r) (r_host r)"
  shows "links_ok st"
  using assms by (auto simp: links_ok_def)

lemma pairing_load_zeroD:
  "pairing_load st s = 0 \<Longrightarrow> (k, off) \<in> set (offers st) \<Longrightarrow> o_host off \<noteq> s"
  "pairing_load st s = 0 \<Longrightarrow> (i, p) \<in> set (pairs st) \<Longrightarrow> p_host p \<noteq> s \<and> p_client p \<noteq> s"
  by (auto simp: pairing_load_zero_iff)

lemma links_have_sessions:
  "links_ok st \<Longrightarrow> (k, off) \<in> set (offers st) \<Longrightarrow> has_key (sessions st) (o_host off)"
  "links_ok st \<Longrightarrow> (i, p) \<in> set (pairs st) \<Longrightarrow>
     has_key (sessions st) (p_host p) \<and> has_key (sessions st) (p_client p)"
  "links_ok st \<Longrightarrow> (i, r) \<in> set (routes st) \<Longrightarrow>
     has_key (sessions st) (r_client r) \<and> has_key (sessions st) (r_host r)"
  by (fastforce simp: hosting_def dest: links_okD linked_keys)+

lemma relay_inv_accept [intro]:
  assumes inv: "relay_inv st" and new: "\<not> has_key (sessions st) s"
  shows "relay_inv (relay_accept t s st)"
proof (cases "length (sessions st) \<ge> 128")
  case True
  then show ?thesis using inv by (auto simp: relay_accept_def)
next
  case False
  let ?st = "set_session s (new_session t) st"
  note tabs = relay_inv_tables [OF inv]
  have links: "links_ok st" using inv by (simp add: relay_inv_def)
  have lnk: "linked ?st a b" if "linked st a b" for a b
    using that new by (auto simp: linked_def)
  have hst: "hosting ?st a" if "hosting st a" for a
    using that new by (auto simp: hosting_def)
  have "links_ok ?st" using links lnk hst by (auto simp: links_ok_def)
  moreover have "tables_ok ?st" "limits_ok ?st" "load_ok ?st"
    using inv False new by (auto simp: relay_inv_def tables_ok_def limits_ok_def load_ok_def
        length_tput client_routes_def pairing_load_def)
  moreover have "sessions_ok ?st"
    using inv by (auto simp: relay_inv_def sessions_ok_def session_ok_def new_session_def)
  moreover have "unique_ok ?st"
    using inv by (auto simp: relay_inv_def unique_ok_def same_peer_def new_session_def)
  ultimately show ?thesis using False by (simp add: relay_accept_def relay_inv_def)
qed

lemma relay_inv_delete:
  assumes inv: "relay_inv st" and free: "pairing_load st s = 0"
    and unused: "\<And>k r. (k, r) \<in> set (routes st) \<Longrightarrow> r_client r \<noteq> s \<and> r_host r \<noteq> s"
  shows "relay_inv (st\<lparr>sessions := tdel s (sessions st)\<rparr>)" (is "relay_inv ?st")
proof -
  have links: "links_ok st" using inv by (simp add: relay_inv_def)
  have ses: "session_of ?st a = session_of st a" if "a \<noteq> s" for a
    using that by (simp add: session_of_def)
  have lnk: "linked ?st a b" if "linked st a b" "a \<noteq> s" "b \<noteq> s" for a b
    using that by (auto simp: linked_def ses)
  have hst: "hosting ?st a" if "hosting st a" "a \<noteq> s" for a
    using that by (auto simp: hosting_def ses)
  have "links_ok ?st"
  proof (rule links_okI)
    show "hosting ?st (o_host off)" if "(k, off) \<in> set (offers ?st)" for k off
      using that by (intro hst links_okD(1) [OF links] pairing_load_zeroD(1) [OF free]) simp_all
    show "hosting ?st (p_host p) \<and> linked ?st (p_client p) (p_host p)"
      if "(i, p) \<in> set (pairs ?st)" for i p
      using that links_okD(2) [OF links, of i p] pairing_load_zeroD(2) [OF free, of i p]
      by (simp add: hst lnk)
    show "linked ?st (r_client r) (r_host r)" if "(i, r) \<in> set (routes ?st)" for i r
      using that links_okD(3) [OF links, of i r] unused [of i r] by (simp add: lnk)
  qed
  moreover have "length (sessions ?st) \<le> length (sessions st)" by (simp add: length_tdel_le)
  moreover have "tables_ok ?st" "load_ok ?st"
    using inv by (auto simp: relay_inv_def tables_ok_def load_ok_def pairing_load_def)
  moreover have "sessions_ok ?st" "unique_ok ?st"
    using inv by (auto simp: relay_inv_def sessions_ok_def unique_ok_def ses)
  ultimately show ?thesis
    using inv by (auto simp: relay_inv_def limits_ok_def client_routes_def)
qed

section \<open>The handlers\<close>

lemma relay_inv_sessionsD:
  "relay_inv st \<Longrightarrow> has_key (sessions st) s \<Longrightarrow> session_ok (closed st s) (session_of st s)"
  by (simp add: relay_inv_def sessions_ok_def)

lemma relay_inv_uniqueD:
  assumes "relay_inv st" "has_key (sessions st) a" "has_key (sessions st) b" "a \<noteq> b"
    "\<not> closed st a" "\<not> closed st b" "s_id (session_of st a) \<noteq> []"
  shows "\<not> same_peer (session_of st a) (session_of st b)"
  using assms by (simp add: relay_inv_def unique_ok_def)

text \<open>A change of a session that does not touch its identity.\<close>

lemma relay_inv_same_identity:
  assumes inv: "relay_inv st" and key: "has_key (sessions st) s"
    and same: "same_peer y (session_of st s)" "s_descriptor y = s_descriptor (session_of st s)"
  shows "relay_inv (set_session s y st)"
proof (rule relay_inv_set_session [OF inv key])
  show "session_ok (closed st s) y" "evolves (closed st s) (session_of st s) y"
    using relay_inv_sessionsD [OF inv key] same
    by (auto simp: session_ok_def evolves_def same_peer_def)
  show "hosting st s \<Longrightarrow> s_descriptor y \<noteq> fmempty \<or> pairing_load st s = 0"
    by (simp add: same hosting_def)
  show "\<not> same_peer y (session_of st b)"
    if "has_key (sessions st) b" "b \<noteq> s" "\<not> closed st b" "\<not> closed st s" "s_id y \<noteq> []" for b
    using relay_inv_uniqueD [OF inv key, of b] that same by (auto simp: same_peer_def)
qed

lemma relay_inv_auth [intro]:
  "relay_inv st \<Longrightarrow> has_key (sessions st) s \<Longrightarrow> relay_inv (auth_message L s m st)"
  by (auto simp: auth_message_def Let_def same_peer_def intro!: relay_inv_emit relay_inv_same_identity)

lemma relay_inv_auth_done [intro]:
  assumes inv: "relay_inv st"
  shows "relay_inv (auth_done t s p st)"
proof (cases "has_key (sessions st) s")
  case False
  then show ?thesis using inv by (simp add: auth_done_def)
next
  case key: True
  let ?x = "(session_of st s)\<lparr>s_authenticating := False\<rparr>"
  let ?old = "account_id (s_principal ?x)"
  let ?st1 = "set_session s ?x st"
  note ses = relay_inv_sessionsD [OF inv key]
  have inv1: "relay_inv ?st1"
    using inv key by (rule relay_inv_same_identity) (simp_all add: same_peer_def)
  show ?thesis
  proof (cases "\<not> live t p \<or> (?old \<noteq> [] \<and> account_id p \<noteq> ?old)")
    case True
    let ?st2 = "cancel_pairing s [] ?st1"
    let ?y = "(session_of ?st2 s)\<lparr>s_principal := no_principal\<rparr>"
    let ?shut = "emit (Close s 1000 '''') ?st2"
    have inv2: "relay_inv ?shut" using inv1 by blast
    have "relay_inv (set_session s ?y ?shut)"
    proof (rule relay_inv_set_session [OF inv2])
      show "session_ok (closed ?shut s) ?y" "evolves (closed ?shut s) (session_of ?shut s) ?y"
        using ses by (auto simp: session_ok_def evolves_def)
      show "s_descriptor ?y \<noteq> fmempty \<or> pairing_load ?shut s = 0"
        using cancel_all_load [OF inv1, of s] by (simp add: pairing_load_def)
    qed (use key in simp_all)
    moreover have "closed (set_session s ?y ?shut) a \<Longrightarrow> closed (auth_done t s p st) a" for a
      using True key inv1
      by (simp add: auth_done_def Let_def closed_emit)
    ultimately show ?thesis
      by - (rule relay_inv_shrink [where f = "\<lambda>_. True" and g = "\<lambda>_. True" and h = "\<lambda>_. True"],
        assumption, use True key in \<open>simp_all add: auth_done_def Let_def\<close>)
  next
    case False
    let ?p = "p\<lparr>expires_at := min (expires_at p) (t + 60000)\<rparr>"
    let ?y = "?x\<lparr>s_principal := ?p\<rparr>"
    have "relay_inv (set_session s ?y ?st1)"
    proof (rule relay_inv_set_session [OF inv1])
      show "session_ok (closed ?st1 s) ?y" using ses False
        by (auto simp: session_ok_def dest: live_account)
      show "evolves (closed ?st1 s) (session_of ?st1 s) ?y"
        using ses False by (auto simp: evolves_def session_ok_def)
      show "hosting ?st1 s \<Longrightarrow> s_descriptor ?y \<noteq> fmempty \<or> pairing_load ?st1 s = 0"
        by (simp add: hosting_def)
      show "\<not> same_peer ?y (session_of ?st1 b)"
        if "has_key (sessions ?st1) b" "b \<noteq> s" "\<not> closed ?st1 b" "\<not> closed ?st1 s" "s_id ?y \<noteq> []" for b
      proof -
        have "account_id p = ?old" using ses False that by (auto simp: session_ok_def)
        then show ?thesis
          using relay_inv_uniqueD [OF inv key, of b] that by (auto simp: same_peer_def)
      qed
    qed simp
    then show ?thesis using False key
      by (auto simp: auth_done_def Let_def intro: relay_inv_send_to)
  qed
qed

lemma relay_inv_remove [intro]:
  assumes inv: "relay_inv st"
  shows "relay_inv (relay_remove t s st)"
proof -
  let ?c = "cancel_pairing s [] st"
  let ?d = "\<lambda>r. r_client r = s \<or> r_host r = s"
  let ?r = "?c\<lparr>routes := filter (\<lambda>(k, r). \<not> ?d r) (routes st)\<rparr>"
  let ?st2 = "?c\<lparr>sessions := tdel s (sessions ?c)\<rparr>"
  let ?rem = "relay_remove t s st"
  note tabs = relay_inv_tables [OF inv]
  have "relay_inv ?c" using inv by blast
  then have invr: "relay_inv ?r"
    by (rule relay_inv_shrink [where f = "\<lambda>_. True" and g = "\<lambda>_. True"]) simp_all
  have base: "relay_inv (?r\<lparr>sessions := tdel s (sessions ?r)\<rparr>)"
    using cancel_all_load [OF inv, of s]
    by (intro relay_inv_delete [OF invr]) (auto simp: pairing_load_def)
  have rts: "routes ?rem = filter (\<lambda>(k, r). \<not> ?d r) (routes st)"
    using route_drop.loop_table [of ?st2 s] tabs by (simp add: relay_remove_def Let_def)
  have "adds (\<lambda>_. True) st' (drop_route s k st')" for k st'
    by (cases "tget (routes st') k") (simp_all add: drop_route_closed adds_def list_all_iff)
  then have "adds (\<lambda>_. True) ?st2 (fold (drop_route s) (tkeys (routes ?st2)) ?st2)"
    by (rule adds_fold)
  then have "adds (\<lambda>_. True) ?st2 ?rem"
    by (rule adds_trans) (rule adds_any, simp add: relay_remove_def Let_def changed_closed)
  then have shut: "closed st a \<Longrightarrow> closed ?rem a" for a
    using inv by (auto dest: closed_adds)
  show ?thesis
    by (rule relay_inv_shrink [OF base, where f = "\<lambda>_. True" and g = "\<lambda>_. True" and h = "\<lambda>_. True"])
      (use inv shut rts in \<open>simp_all, simp_all add: relay_remove_def Let_def\<close>)
qed

lemma relay_inv_stop [intro]: "relay_inv (relay_stop st)"
  by (simp add: relay_inv_parts relay_stop_def client_routes_def pairing_load_def)

lemma relay_inv_listen [intro]: "relay_inv (snd (relay_listen addr i be st))"
  by (simp add: relay_inv_parts relay_listen_def relay_stop_def client_routes_def pairing_load_def
      Let_def split: listen_result.split)

lemma host_descriptor_nonempty:
  "host_descriptor L m \<noteq> fmempty \<longleftrightarrow> to_bool (jval m ''host'')"
proof (cases "to_bool (jval m ''host'')")
  case True
  then have "jval (host_descriptor L m) ''peerId'' \<noteq> JUndefined"
    by (simp add: host_descriptor_def)
  then show ?thesis using True jval_nonempty by blast
qed (simp add: host_descriptor_def)

lemma duplicate_peer_iff:
  assumes "table_ok (sessions st)"
  shows "duplicate_peer st s rid service \<longleftrightarrow>
    (\<exists>b. has_key (sessions st) b \<and> b \<noteq> s \<and> s_id (session_of st b) = rid
       \<and> s_service (session_of st b) = service
       \<and> account_id (s_principal (session_of st b)) = account_id (s_principal (session_of st s)))"
proof -
  have "(b, x) \<in> set (sessions st) \<longleftrightarrow> has_key (sessions st) b \<and> session_of st b = x" for b x
    using assms by (auto simp: session_of_in_set tget_in_set [symmetric] has_key_def session_of_def)
  then show ?thesis unfolding duplicate_peer_def list_ex_iff by fastforce
qed

text \<open>
  Registering: the new session has an identity no other session of the account has; a host
  that stops being one has its pairing cancelled in the same handler.
\<close>

lemma relay_inv_register [intro]:
  assumes inv: "relay_inv st" and key: "has_key (sessions st) s"
    and live: "active (now e) st s"
  shows "relay_inv (register_message L e s m st)"
proof -
  let ?x = "session_of st s"
  let ?rid = "to_string (jval m ''peerId'')"
  let ?service = "to_string (jval m ''service'')"
  let ?y = "?x\<lparr>s_id := ?rid, s_service := ?service, s_name := to_string (jval m ''name''),
    s_descriptor := host_descriptor L m\<rparr>"
  let ?c = "cancel_pairing s [] st"
  let ?leaves = "s_descriptor ?x \<noteq> fmempty \<and> s_descriptor ?y = fmempty"
  let ?st2 = "if ?leaves then cancel_pairing s [] (set_session s ?y st) else set_session s ?y st"
  note tabs = relay_inv_tables [OF inv]
  note ses = relay_inv_sessionsD [OF inv key]
  have step: "relay_inv (set_session s ?y a)"
    if bad: "identifier_ok ?rid" "identifier_ok ?service" "\<not> duplicate_peer st s ?rid ?service"
      "\<not> ((s_id ?x \<noteq> [] \<and> s_id ?x \<noteq> ?rid) \<or> (s_service ?x \<noteq> [] \<and> s_service ?x \<noteq> ?service))"
      and a: "relay_inv a" "sessions a = sessions st" "closed a = closed st"
      and load: "?leaves \<Longrightarrow> pairing_load a s = 0" for a
  proof (rule relay_inv_set_session [OF a(1)])
    note same = session_of_cong [OF a(2)]
    have account: "account_id (s_principal ?x) \<noteq> []"
      using live by (simp add: active_def live_def)
    show "session_ok (closed a s) ?y"
      using bad account by (auto simp: session_ok_def dest: identifier_nonempty)
    show "evolves (closed a s) (session_of a s) ?y"
      using bad ses by (auto simp: evolves_def session_ok_def same)
    show "hosting a s \<Longrightarrow> s_descriptor ?y \<noteq> fmempty \<or> pairing_load a s = 0"
      using load by (auto simp: hosting_def same)
    show "\<not> same_peer ?y (session_of a b)" if "has_key (sessions a) b" "b \<noteq> s" for b
      using that bad(3) by (auto simp: duplicate_peer_iff [OF tabs(1)] same_peer_def a same)
  qed (simp add: a key)
  have "relay_inv ?st2"
    if bad: "identifier_ok ?rid" "identifier_ok ?service" "\<not> duplicate_peer st s ?rid ?service"
      "\<not> ((s_id ?x \<noteq> [] \<and> s_id ?x \<noteq> ?rid) \<or> (s_service ?x \<noteq> [] \<and> s_service ?x \<noteq> ?service))"
  proof (cases ?leaves)
    case True
    have invc: "relay_inv ?c" using inv by blast
    have base: "relay_inv (set_session s ?y ?c)"
      by (rule step [OF bad invc]) (simp_all add: inv)
    have "adds (\<lambda>_. True) (set_session s ?y st) (cancel_pairing s [] (set_session s ?y st))"
      by (rule adds_cancel_pairing) (simp_all add: tabs list_all_iff)
    then have shut: "closed st a \<Longrightarrow> closed (cancel_pairing s [] (set_session s ?y st)) a" for a
      by (auto dest: closed_adds)
    have "relay_inv (cancel_pairing s [] (set_session s ?y st))"
      by (rule relay_inv_shrink [OF base, where f = "\<lambda>_. True" and g = "\<lambda>_. True" and h = "\<lambda>_. True"])
        (simp_all add: inv relay_closed tabs shut)
    then show ?thesis using True by simp
  next
    case False
    have "relay_inv (set_session s ?y st)"
      using False by (intro step [OF bad inv]) auto
    then show ?thesis by (subst if_not_P [OF False])
  qed
  then show ?thesis
    unfolding register_message_def Let_def
    using inv by (auto intro!: relay_inv_changed relay_inv_send_to relay_inv_emit)
qed

lemma relay_inv_hosting_same:
  "sessions st' = sessions st \<Longrightarrow> hosting st' s \<longleftrightarrow> hosting st s"
  by (simp add: hosting_def session_of_def)

lemma relay_inv_pair_offer [intro]:
  assumes inv: "relay_inv st" and key: "has_key (sessions st) s"
  shows "relay_inv (pair_offer L e s rid st)"
proof (cases "s_descriptor (session_of st s) = fmempty")
  case True
  then show ?thesis using inv by (simp add: pair_offer_def relay_inv_pairing)
next
  case False
  let ?c = "cancel_pairing s [] st"
  have "hosting ?c s" using key False by (simp add: hosting_def)
  moreover have "relay_inv ?c" using inv by blast
  moreover have "pairing_load ?c s = 0" using cancel_all_load [OF inv] .
  ultimately show ?thesis using False
    by (auto simp: pair_offer_def Let_def intro!: relay_inv_pairing relay_inv_add_offer)
qed

lemma targets_linked:
  assumes inv: "relay_inv st" and key: "has_key (sessions st) s"
    and reg: "s_id (session_of st s) \<noteq> []" and found: "target t st s name = Some h"
  shows "linked st s h" "hosting st h"
proof -
  obtain x where x: "(h, x) \<in> set (sessions st)" "h \<noteq> s" "s_id x = name"
    "reachable_host t (session_of st s) x" using found by (rule target_Some)
  have hx: "session_of st h = x" "has_key (sessions st) h"
    using x(1) relay_inv_tables(1) [OF inv]
    by (auto simp: session_of_in_set has_key_def tget_in_set [symmetric])
  then show host: "hosting st h" using x(4) by (simp add: hosting_def reachable_host_def)
  have "s_id x \<noteq> []" using relay_inv_sessionsD [OF inv hx(2)] host hx(1)
    by (simp add: session_ok_def hosting_def)
  then show "linked st s h"
    using x hx key reg by (simp add: linked_def reachable_host_def)
qed

lemma relay_inv_request [intro]:
  assumes inv: "relay_inv st" and key: "has_key (sessions st) s"
    and reg: "s_id (session_of st s) \<noteq> []"
  shows "relay_inv (request_message e s m st)"
  using inv unfolding request_message_def Let_def
  by (auto intro!: relay_inv_emit relay_inv_send_to relay_inv_add_route
      intro: targets_linked(1) [OF inv key reg] split: option.split)

text \<open>
  Claiming: the caller's own pairing is cancelled and the offer removed first, so host and
  client are free when the pair is added.
\<close>

lemma relay_inv_pair_claim [intro]:
  assumes inv: "relay_inv st" and key: "has_key (sessions st) s"
    and reg: "s_id (session_of st s) \<noteq> []"
  shows "relay_inv (pair_claim L e s rid m st)"
proof -
  let ?hash = "sha256 L (to_latin1 (to_string (jval m ''code'')))"
  let ?name = "to_string (jval m ''host'')"
  let ?c = "cancel_pairing s [] st"
  let ?d = "?c\<lparr>offers := tdel ?hash (offers ?c)\<rparr>"
  note tabs = relay_inv_tables [OF inv]
  have links: "links_ok st" using inv by (simp add: relay_inv_def)
  have invd: "relay_inv ?d"
    using relay_inv_cancel [OF inv] by (rule relay_inv_drop_offer_entry)
  have main: "relay_inv (?d\<lparr>pairs := tput k p (pairs ?d)\<rparr>)"
    if off: "tget (offers st) ?hash = Some off" and t: "target (now e) st s ?name = Some (o_host off)"
      and p: "p_host p = o_host off" "p_client p = s" for off k p
  proof (rule relay_inv_add_pair [OF invd])
    note lk = targets_linked [OF inv key reg t]
    have closed_d: "closed ?d = closed st" using closed_cancel [OF inv] by (simp add: closed_def fun_eq_iff)
    show "hosting ?d (p_host p)" using lk(2) by (simp add: p hosting_def)
    show "linked ?d (p_client p) (p_host p)"
      using lk(1) closed_d by (auto simp: linked_def p)
    have free: "pairing_load ?d (o_host off) = 0"
    proof -
      let ?f = "\<lambda>(k, f). o_host f = o_host off"
      let ?g = "\<lambda>(k, p). p_host p = o_host off \<or> p_client p = o_host off"
      have "length (filter ?f (tdel ?hash (offers st))) < length (filter ?f (offers st))"
        by (rule length_filter_tdel_hit [OF off]) simp
      moreover have "length (filter ?f (offers st)) + length (filter ?g (pairs st)) \<le> 1"
        using inv by (simp add: relay_inv_def load_ok_def pairing_load_def)
      ultimately have "length (filter ?f (tdel ?hash (offers st))) = 0"
        "length (filter ?g (pairs st)) = 0" by linarith+
      then show ?thesis
        by (auto simp: pairing_load_zero_iff relay_closed tabs filter_empty_conv set_tdel)
    qed
    then show "pairing_load ?d (p_host p) = 0" by (simp add: p)
    have "pairing_load ?c s = 0" using cancel_all_load [OF inv] .
    then show "pairing_load ?d (p_client p) = 0"
      by (auto simp: pairing_load_zero_iff p set_tdel)
  qed
  then show ?thesis
    unfolding pair_claim_def Let_def
    using inv by (auto intro!: relay_inv_pairing main [simplified] split: option.split)
qed

lemma relay_inv_pair_message:
  assumes inv: "relay_inv st" and key: "has_key (sessions st) s"
    and reg: "s_id (session_of st s) \<noteq> []" and res: "pair_message L e s m st = Some st'"
  shows "relay_inv st'"
proof -
  let ?y = "count_attempt (now e) (session_of st s)"
  have id: "same_peer ?y (session_of st s)" "s_descriptor ?y = s_descriptor (session_of st s)"
    by (auto simp: same_peer_def count_attempt_def Let_def split: option.split)
  then have "relay_inv (set_session s ?y st)" by (rule relay_inv_same_identity [OF inv key])
  moreover have "s_id ?y \<noteq> []" using id reg by (simp add: same_peer_def)
  ultimately show ?thesis
    using res inv unfolding pair_message_def Let_def
    by (auto split: if_splits intro!: relay_inv_emit relay_inv_pairing relay_inv_confirm
        relay_inv_cancel relay_inv_pair_offer relay_inv_pair_claim)
qed

lemma relay_inv_message [intro]:
  assumes inv: "relay_inv st"
  shows "relay_inv (relay_message L e s m st)"
  unfolding relay_message_def Let_def
  using inv
  by (auto split: option.split dest: relay_inv_pair_message intro!: relay_inv_auth relay_inv_emit
      relay_inv_register relay_inv_directory relay_inv_connect relay_inv_request relay_inv_response)

lemma relay_inv_step:
  "relay_inv st \<Longrightarrow> event_ok ev st \<Longrightarrow> relay_inv (relay_step L e ev st)"
  by (cases ev) auto

lemma reach_inv: "relay_reach L st \<Longrightarrow> relay_inv st"
  by (induction rule: relay_reach.induct) (auto intro: relay_inv_step)

end
