(* ===== verification/RelayTags.thy ===== *)
theory RelayTags
  imports RelayInvariant
begin

text \<open>
  Which messages each operation of the relay can write. The tag of a message is its type and
  its status member; every handler adds messages with tags of a fixed list only, so a
  message of a given kind determines the handler that wrote it.
\<close>

named_theorems relay_tags \<open>the messages an operation can write\<close>

definition tagged :: "(string \<times> string) list \<Rightarrow> relay_out \<Rightarrow> bool" where
  "tagged ts ev \<longleftrightarrow> (\<forall>s ob. ev = Send s ob \<longrightarrow>
     (\<exists>t \<in> set ts. to_string (jval ob ''type'') = qs (fst t)
        \<and> to_string (jval ob ''status'') = qs (snd t)))"

lemma tagged_simps [simp]:
  "tagged ts (Close s c r)" "tagged ts (Ping s)" "tagged ts (Verify s b)"
  "tagged ts (Send s ob) \<longleftrightarrow> (\<exists>t \<in> set ts. to_string (jval ob ''type'') = qs (fst t)
        \<and> to_string (jval ob ''status'') = qs (snd t))"
  by (simp_all add: tagged_def)

lemma tagged_weaken: "tagged ts ev \<Longrightarrow> set ts \<subseteq> set us \<Longrightarrow> tagged us ev"
  unfolding tagged_def by blast

lemma adds_tagged_weaken:
  "adds (tagged ts) a b \<Longrightarrow> set ts \<subseteq> set us \<Longrightarrow> adds (tagged us) a b"
  by (rule adds_mono [of "tagged ts"]) (auto intro: tagged_weaken)

lemma adds_set_session [simp]:
  "adds P st (set_session s x st') \<longleftrightarrow> adds P st st'"
  "adds P (set_session s x st) st' \<longleftrightarrow> adds P st st'"
  by (simp_all add: adds_def)

lemma adds_table_update [simp]:
  "adds P a (b\<lparr>sessions := ss\<rparr>) \<longleftrightarrow> adds P a b" "adds P (a\<lparr>sessions := ss\<rparr>) b \<longleftrightarrow> adds P a b"
  "adds P a (b\<lparr>routes := rs\<rparr>) \<longleftrightarrow> adds P a b" "adds P (a\<lparr>routes := rs\<rparr>) b \<longleftrightarrow> adds P a b"
  "adds P a (b\<lparr>offers := os\<rparr>) \<longleftrightarrow> adds P a b" "adds P (a\<lparr>offers := os\<rparr>) b \<longleftrightarrow> adds P a b"
  "adds P a (b\<lparr>pairs := ps\<rparr>) \<longleftrightarrow> adds P a b" "adds P (a\<lparr>pairs := ps\<rparr>) b \<longleftrightarrow> adds P a b"
  by (simp_all add: adds_def)

lemma adds_emit_iff [simp]: "P ev \<Longrightarrow> adds P a b \<Longrightarrow> adds P a (emit ev b)"
  by (auto simp: adds_def)

lemma adds_send_to [simp]:
  "P (Send s (jobj kvs)) \<Longrightarrow> adds P a b \<Longrightarrow> adds P a (send_to s kvs b)"
  by (simp add: send_to_def)

lemma pairing_object_reads [simp]:
  "jval (pairing_object rid status d) ''type'' = jtext ''pairing''"
  "jval (pairing_object rid status d) ''id'' = JStr rid"
  "jval (pairing_object rid status d) ''status'' = jtext status"
  by (simp_all add: pairing_object_def)

lemma adds_pairing [simp]:
  "P (Send s (pairing_object rid status d)) \<Longrightarrow> adds P a b \<Longrightarrow>
     adds P a (pairing s rid status d b)"
  by (simp add: pairing_emit)

section \<open>The tags of each operation\<close>

lemma tags_finish [relay_tags]:
  "adds (tagged [(''pairing'', status)]) st (finish_pair status k st)"
  by (cases "tget (pairs st) k") (auto simp: finish_pair_closed adds_def finish_outs_def)

lemma tags_cancel [relay_tags]:
  "adds (tagged [(''pairing'', ''cancelled'')]) st (cancel_pairing s q st)"
proof -
  have "adds (tagged [(''pairing'', ''cancelled'')]) st' (cancel_offer s q k st')" for k st'
    by (cases "tget (offers st') k") (auto simp: cancel_offer_def)
  moreover have "adds (tagged [(''pairing'', ''cancelled'')]) st' (cancel_pair s q k st')" for k st'
    by (cases "tget (pairs st') k") (auto simp: cancel_pair_def intro: tags_finish)
  ultimately show ?thesis
    unfolding cancel_pairing_def cancel_offers_def cancel_pairs_def
    by (rule adds_trans [OF adds_fold adds_fold])
qed

lemma tags_directory [relay_tags]: "adds (tagged [(''peers'', '''')]) st (directory t s st)"
  by (simp add: directory_def)

lemma tags_changed [relay_tags]: "adds (tagged [(''peers'', '''')]) st (changed t st)"
  unfolding changed_def by (rule adds_fold) (rule tags_directory)

lemma tags_confirm [relay_tags]:
  "adds (tagged [(''pairing'', ''expired''), (''pairing'', ''paired'')]) st (pair_confirm e s m st)"
proof -
  let ?ts = "[(''pairing'', ''expired''), (''pairing'', ''paired'')]"
  have "adds (tagged ?ts) st (finish_pair ''expired'' k st)"
    "adds (tagged ?ts) st (finish_pair ''paired'' k st)" for k
    by (rule adds_tagged_weaken [OF tags_finish], simp)+
  then show ?thesis by (simp add: pair_confirm_def Let_def split: option.split)
qed

lemma tags_offer [relay_tags]:
  "adds (tagged [(''pairing'', ''error''), (''pairing'', ''cancelled''), (''pairing'', ''offered'')])
     st (pair_offer L e s rid st)"
  using adds_tagged_weaken [OF tags_cancel]
  by (auto simp: pair_offer_def Let_def)

lemma tags_claim [relay_tags]:
  "adds (tagged [(''pairing'', ''error''), (''pairing'', ''cancelled''), (''pairing'', ''claimed'')])
     st (pair_claim L e s rid m st)"
  using adds_tagged_weaken [OF tags_cancel]
  by (auto simp: pair_claim_def Let_def split: option.split)

definition pair_statuses :: "string list" where
  "pair_statuses = [''error'', ''cancelled'', ''offered'', ''claimed'', ''expired'', ''paired'']"

lemma tags_pair_message [relay_tags]:
  assumes res: "pair_message L e s m st = Some st'"
  shows "adds (tagged (map (Pair ''pairing'') pair_statuses)) st st'"
proof -
  let ?ts = "map (Pair ''pairing'') pair_statuses"
  have 1: "adds (tagged ?ts) st (pair_confirm e s m st)"
    by (rule adds_tagged_weaken [OF tags_confirm]) (simp add: pair_statuses_def)
  have 2: "adds (tagged ?ts) st (cancel_pairing s q st)" for q
    by (rule adds_tagged_weaken [OF tags_cancel]) (simp add: pair_statuses_def)
  have "adds (tagged ?ts) a (pair_offer L e s rid a)" for a rid
    by (rule adds_tagged_weaken [OF tags_offer]) (simp add: pair_statuses_def)
  then have 3: "adds (tagged ?ts) st (pair_offer L e s rid (set_session s x st))" for x rid
    using adds_set_session(2) by blast
  have "adds (tagged ?ts) a (pair_claim L e s rid m a)" for a rid
    by (rule adds_tagged_weaken [OF tags_claim]) (simp add: pair_statuses_def)
  then have 4: "adds (tagged ?ts) st (pair_claim L e s rid m (set_session s x st))" for x rid
    using adds_set_session(2) by blast
  have 5: "adds (tagged ?ts) st (pairing s rid ''error'' d (set_session s x st))" for rid d x
    by (simp add: pair_statuses_def)
  show ?thesis
    using res unfolding pair_message_def Let_def by (auto split: if_splits intro: 1 2 3 4 5)
qed

lemma tags_drop_route [relay_tags]:
  "adds (tagged [(''response'', '''')]) st (drop_route s k st)"
  by (cases "tget (routes st) k") (auto simp: drop_route_def Let_def error_response_def)

lemma tags_remove [relay_tags]:
  "adds (tagged [(''pairing'', ''cancelled''), (''response'', ''''), (''peers'', '''')])
     st (relay_remove t s st)"
proof -
  let ?ts = "[(''pairing'', ''cancelled''), (''response'', ''''), (''peers'', '''')]"
  let ?c = "cancel_pairing s [] st"
  let ?st2 = "?c\<lparr>sessions := tdel s (sessions ?c)\<rparr>"
  have "adds (tagged ?ts) st ?st2" using adds_tagged_weaken [OF tags_cancel, of ?ts] by simp
  moreover have "adds (tagged ?ts) ?st2 (fold (drop_route s) (tkeys (routes ?st2)) ?st2)"
    by (rule adds_fold) (rule adds_tagged_weaken [OF tags_drop_route], simp)
  moreover have "adds (tagged ?ts) a (changed t a)" for a
    by (rule adds_tagged_weaken [OF tags_changed]) simp
  ultimately show ?thesis unfolding relay_remove_def Let_def by (blast intro: adds_trans)
qed

lemma tags_sweep [relay_tags]:
  "adds (tagged [(''pairing'', ''expired''), (''response'', '''')]) st (relay_sweep t st)"
proof -
  let ?P = "tagged [(''pairing'', ''expired''), (''response'', '''')]"
  have 1: "adds ?P a (sweep_offer t k a)" for a k
    by (cases "tget (offers a) k") (auto simp: sweep_offer_def Let_def)
  have 2: "adds ?P a (sweep_pair t k a)" for a k
    using adds_tagged_weaken [OF tags_finish]
    by (cases "tget (pairs a) k") (auto simp: sweep_pair_def)
  have 3: "adds ?P a (sweep_session t s a)" for a s
    by (simp add: sweep_session_def Let_def)
  have 4: "adds ?P a (sweep_route t k a)" for a k
    by (cases "tget (routes a) k") (auto simp: sweep_route_def Let_def error_response_def)
  show ?thesis
    unfolding relay_sweep_def Let_def
    by (rule adds_trans [OF adds_fold [OF 1]], rule adds_trans [OF adds_fold [OF 2]],
        rule adds_trans [OF adds_fold [OF 3]], rule adds_fold [OF 4])
qed

lemma tags_auth [relay_tags]: "adds (tagged []) st (auth_message L s m st)"
  by (simp add: auth_message_def Let_def)

lemma tags_auth_done [relay_tags]:
  "adds (tagged [(''pairing'', ''cancelled''), (''error'', ''''), (''authenticated'', '''')])
     st (auth_done t s p st)"
proof -
  let ?P = "tagged [(''pairing'', ''cancelled''), (''error'', ''''), (''authenticated'', '''')]"
  have "adds ?P st (cancel_pairing s [] (set_session s x st))" for x
    using adds_tagged_weaken [OF tags_cancel [of "set_session s x st"]] by simp
  then show ?thesis by (simp add: auth_done_def Let_def)
qed

lemma tags_register [relay_tags]:
  "adds (tagged [(''error'', ''''), (''registered'', ''''), (''peers'', ''''),
     (''pairing'', ''cancelled'')]) st (register_message L e s m st)"
proof -
  let ?ts = "[(''error'', ''''), (''registered'', ''''), (''peers'', ''''), (''pairing'', ''cancelled'')]"
  have c: "adds (tagged ?ts) st (cancel_pairing s [] (set_session s x st))" for x
    using adds_tagged_weaken [OF tags_cancel [of "set_session s x st"], of ?ts] by simp
  have "adds (tagged ?ts) st (changed t a)" if "adds (tagged ?ts) st a" for a t
    using that by (rule adds_trans) (rule adds_tagged_weaken [OF tags_changed], simp)
  then show ?thesis using c by (simp add: register_message_def Let_def)
qed

lemma tags_connect [relay_tags]:
  "adds (tagged [(''connect'', ''''), (''ticket'', '''')]) st (connect_message e s m st)"
  by (simp add: connect_message_def Let_def split: option.split)

lemma tags_request [relay_tags]:
  "adds (tagged [(''response'', ''''), (''request'', '''')]) st (request_message e s m st)"
  by (simp add: request_message_def Let_def error_response_def split: option.split)

lemma tags_response [relay_tags]:
  "adds (tagged [(''response'', '''')]) st (response_message e s m st)"
  by (simp add: response_message_def Let_def split: option.split)

lemma tags_accept [relay_tags]: "adds (tagged []) st (relay_accept t s st)"
  by (simp add: relay_accept_def)

lemma tags_stop [relay_tags]: "log (relay_stop st) = log st"
  "log (snd (relay_listen addr i be st)) = log st"
  by (simp_all add: relay_stop_def relay_listen_def Let_def split: listen_result.split)

section \<open>From a message to its handler\<close>

text \<open>The messages an event adds to the log.\<close>

definition news :: "relay \<Rightarrow> relay \<Rightarrow> relay_out list" where
  "news st st' = drop (length (log st)) (log st')"

lemma adds_news: "adds P st st' \<Longrightarrow> ev \<in> set (news st st') \<Longrightarrow> P ev"
  unfolding news_def by (rule adds_drop)

lemma news_append [simp]: "log st' = log st @ l \<Longrightarrow> news st st' = l"
  by (simp add: news_def)

text \<open>A registered caller: what a frame needs before anything but \<open>auth\<close> or \<open>register\<close> is handled.\<close>

definition admitted :: "msecs \<Rightarrow> relay \<Rightarrow> sock \<Rightarrow> bool" where
  "admitted t st s \<longleftrightarrow> active t st s \<and> s_id (session_of st s) \<noteq> []"

lemma relay_message_cases:
  obtains (quiet) "adds (tagged []) st (relay_message L e s m st)"
  | (register) "active (now e) st s" "to_string (jval m ''type'') = qs ''register''"
      "relay_message L e s m st = register_message L e s m st"
  | (pair) "admitted (now e) st s" "pair_message L e s m st = Some (relay_message L e s m st)"
  | (list) "admitted (now e) st s" "relay_message L e s m st = directory (now e) s st"
  | (connect) "admitted (now e) st s" "to_string (jval m ''type'') = qs ''connect''"
      "relay_message L e s m st = connect_message e s m st"
  | (request) "admitted (now e) st s" "to_string (jval m ''type'') = qs ''request''"
      "relay_message L e s m st = request_message e s m st"
  | (response) "admitted (now e) st s" "to_string (jval m ''type'') = qs ''response''"
      "relay_message L e s m st = response_message e s m st"
proof -
  let ?type = "to_string (jval m ''type'')"
  let ?r = "relay_message L e s m st"
  note defs = relay_message_def Let_def admitted_def
  consider "\<not> has_key (sessions st) s" | "has_key (sessions st) s" "?type = qs ''auth''"
    | "has_key (sessions st) s" "?type \<noteq> qs ''auth''" "\<not> active (now e) st s"
    | "has_key (sessions st) s" "?type = qs ''register''" "active (now e) st s"
    | "active (now e) st s" "?type \<noteq> qs ''auth''" "?type \<noteq> qs ''register''"
    by (auto simp: active_def)
  then show thesis
  proof cases
    case 1
    then show ?thesis by (intro quiet) (simp add: defs)
  next
    case 2
    then show ?thesis using tags_auth by (intro quiet) (simp add: defs)
  next
    case 3
    then show ?thesis by (intro quiet) (simp add: defs)
  next
    case 4
    then show ?thesis by (intro register) (simp_all add: defs)
  next
    case 5
    then have key: "has_key (sessions st) s" by (simp add: active_def)
    show ?thesis
    proof (cases "s_id (session_of st s) = [] \<or> pair_message L e s m st \<noteq> None")
      case True
      then show ?thesis
        using 5 key pair by (cases "s_id (session_of st s) = []") (auto simp: defs intro: quiet)
    next
      case False
      then have r: "?r = (if ?type = qs ''list'' then directory (now e) s st
            else if ?type = qs ''connect'' then connect_message e s m st
            else if ?type = qs ''request'' then request_message e s m st
            else if ?type = qs ''response'' then response_message e s m st
            else emit (Close s 1002 ''Invalid message'') st)"
        using 5 key by (simp add: defs)
      have adm: "admitted (now e) st s" using 5 False by (simp add: admitted_def)
      consider "?type = qs ''list''" | "?type = qs ''connect''" | "?type = qs ''request''"
        | "?type = qs ''response''"
        | "?type \<notin> {qs ''list'', qs ''connect'', qs ''request'', qs ''response''}" by blast
      then show ?thesis
      proof cases
        case 1
        then show ?thesis using adm r by (intro list) simp_all
      next
        case 2
        then show ?thesis using adm r by (intro connect) simp_all
      next
        case 3
        then show ?thesis using adm r by (intro request) simp_all
      next
        case 4
        then show ?thesis using adm r by (intro response) simp_all
      next
        case 5
        then show ?thesis using r by (intro quiet) simp
      qed
    qed
  qed
qed

lemma adds_tagged_no:
  assumes "adds (tagged ts) st st'" "Send c ob \<in> set (news st st')"
    "to_string (jval ob ''type'') = qs ty"
  shows "\<exists>t \<in> set ts. fst t = ty \<and> to_string (jval ob ''status'') = qs (snd t)"
  using adds_news [OF assms(1,2)] assms(3) by auto

lemma step_tags:
  assumes "\<And>s m. ev \<noteq> TextFrame s m"
  shows "adds (tagged [(''pairing'', ''cancelled''), (''pairing'', ''expired''), (''response'', ''''),
    (''peers'', ''''), (''error'', ''''), (''authenticated'', '''')]) st (relay_step L e ev st)"
  using assms
  by (cases ev) (auto simp: adds_log tags_stop intro: adds_tagged_weaken [OF tags_accept]
      adds_tagged_weaken [OF tags_auth_done] adds_tagged_weaken [OF tags_remove]
      adds_tagged_weaken [OF tags_sweep])

text \<open>A forwarded request, a ticket and a connect answer come from their own handlers only.\<close>

lemma news_text:
  assumes "Send c ob \<in> set (news st (relay_step L e ev st))"
    "to_string (jval ob ''type'') = qs ty"
    "ty \<notin> {''response'', ''peers'', ''error'', ''authenticated'', ''pairing''}"
  obtains s m where "ev = TextFrame s m"
proof (cases "\<exists>s m. ev = TextFrame s m")
  case False
  then show ?thesis using adds_tagged_no [OF step_tags assms(1,2)] assms(3) by auto
qed (use that in auto)

lemma news_request:
  assumes "Send c ob \<in> set (news st (relay_step L e ev st))"
    "to_string (jval ob ''type'') = qs ''request''"
  obtains s m where "ev = TextFrame s m" "admitted (now e) st s"
    "relay_step L e ev st = request_message e s m st"
proof -
  obtain s m where ev: "ev = TextFrame s m" using assms by (rule news_text) auto
  note in_news = assms(1) [unfolded ev relay_step.simps]
  show ?thesis
  proof (cases rule: relay_message_cases [of st L e s m])
    case request
    then show ?thesis using that ev by simp
  qed (use adds_tagged_no [OF _ in_news assms(2)] tags_register tags_pair_message tags_directory
      tags_connect tags_response in \<open>fastforce+\<close>)
qed

lemma news_ticket:
  assumes "Send c ob \<in> set (news st (relay_step L e ev st))"
    "to_string (jval ob ''type'') = qs ''ticket''"
  obtains s m where "ev = TextFrame s m" "admitted (now e) st s"
    "relay_step L e ev st = connect_message e s m st"
proof -
  obtain s m where ev: "ev = TextFrame s m" using assms by (rule news_text) auto
  note in_news = assms(1) [unfolded ev relay_step.simps]
  show ?thesis
  proof (cases rule: relay_message_cases [of st L e s m])
    case connect
    then show ?thesis using that ev by simp
  qed (use adds_tagged_no [OF _ in_news assms(2)] tags_register tags_pair_message tags_directory
      tags_request tags_response in \<open>fastforce+\<close>)
qed

text \<open>The branches of \<open>pairMessage\<close>.\<close>

lemma pair_message_cases:
  assumes "pair_message L e s m st = Some st'"
  obtains (confirm) "to_string (jval m ''type'') = qs ''pair-confirm''" "st' = pair_confirm e s m st"
  | (close) a where "log a = log st" "st' = emit (Close s 1000 '''') a"
  | (cancel) q where "st' = cancel_pairing s q st"
  | (limited) rid a where "log a = log st"
      "st' = pairing s rid ''error'' [(''error'', jtext ''pairing_rate_limited'')] a"
  | (offer) "to_string (jval m ''type'') = qs ''pair-offer''"
      "s_attempts (count_attempt (now e) (session_of st s)) \<le> 6"
      "st' = pair_offer L e s (to_string (jval m ''id''))
         (set_session s (count_attempt (now e) (session_of st s)) st)"
  | (claim) "to_string (jval m ''type'') = qs ''pair-claim''"
      "s_attempts (count_attempt (now e) (session_of st s)) \<le> 6"
      "st' = pair_claim L e s (to_string (jval m ''id'')) m
         (set_session s (count_attempt (now e) (session_of st s)) st)"
proof -
  let ?type = "to_string (jval m ''type'')"
  let ?rid = "to_string (jval m ''id'')"
  let ?caller = "count_attempt (now e) (session_of st s)"
  let ?st1 = "set_session s ?caller st"
  note res = assms [unfolded pair_message_def Let_def]
  have start: "starts_with ''pair-'' ?type" using res by (simp split: if_splits)
  consider "?type = qs ''pair-confirm''"
    | "?type \<noteq> qs ''pair-confirm''" "\<not> identifier_ok ?rid"
    | "?type = qs ''pair-cancel''" "identifier_ok ?rid"
    | "?type \<noteq> qs ''pair-confirm''" "?type \<noteq> qs ''pair-cancel''" "identifier_ok ?rid"
        "s_attempts ?caller > 6"
    | "?type = qs ''pair-offer''" "identifier_ok ?rid" "\<not> s_attempts ?caller > 6"
    | "?type = qs ''pair-claim''" "identifier_ok ?rid" "\<not> s_attempts ?caller > 6"
    | "?type \<noteq> qs ''pair-confirm''" "?type \<noteq> qs ''pair-cancel''" "identifier_ok ?rid"
        "\<not> s_attempts ?caller > 6" "?type \<noteq> qs ''pair-offer''" "?type \<noteq> qs ''pair-claim''"
    by blast
  then show thesis
  proof cases
    case 1
    then show ?thesis using res start confirm by simp
  next
    case 2
    then show ?thesis using res start close [of st] by simp
  next
    case 3
    then show ?thesis using res start cancel [of ?rid] by simp
  next
    case 4
    then show ?thesis using res start limited [of ?st1 ?rid] by simp
  next
    case 5
    then show ?thesis using res start offer by simp
  next
    case 6
    then show ?thesis using res start claim by simp
  next
    case 7
    then show ?thesis using res start close [of ?st1] by simp
  qed
qed

lemma pairing_status_list:
  assumes "adds (tagged ts) st st'" "Send c ob \<in> set (news st st')"
    "to_string (jval ob ''type'') = qs ''pairing''" "to_string (jval ob ''status'') = qs status"
  shows "(''pairing'', status) \<in> set ts"
proof -
  obtain t where "t \<in> set ts" "fst t = ''pairing''" "qs (snd t) = qs status"
    using adds_tagged_no [OF assms(1-3)] assms(4) by auto
  then have "t = (''pairing'', status)" by (simp add: prod_eq_iff)
  then show ?thesis using \<open>t \<in> set ts\<close> by simp
qed

text \<open>
  Beyond \<open>cancelled\<close> and \<open>expired\<close> a pairing status comes from the pairing handler.
\<close>

lemma news_pairing:
  assumes new: "Send c ob \<in> set (news st (relay_step L e ev st))"
    "to_string (jval ob ''type'') = qs ''pairing''" "to_string (jval ob ''status'') = qs status"
    and status: "status \<notin> {''cancelled'', ''expired''}"
  obtains s m where "ev = TextFrame s m" "admitted (now e) st s"
    "pair_message L e s m st = Some (relay_step L e ev st)"
proof (cases "\<exists>s m. ev = TextFrame s m")
  case False
  then show ?thesis using pairing_status_list [OF step_tags new] status by auto
next
  case True
  then obtain s m where ev: "ev = TextFrame s m" by blast
  note in_news = new(1) [unfolded ev relay_step.simps]
  note no = pairing_status_list [OF _ in_news new(2,3)]
  show ?thesis
  proof (cases rule: relay_message_cases [of st L e s m])
    case quiet
    then show ?thesis using no by fastforce
  next
    case register
    then show ?thesis using no [of "[(''error'', ''''), (''registered'', ''''), (''peers'', ''''),
     (''pairing'', ''cancelled'')]"] tags_register status by simp
  next
    case pair
    then show ?thesis using that ev by simp
  next
    case list
    then show ?thesis using no [OF tags_directory [of st "now e" s, folded list(2)]] by simp
  next
    case connect
    then show ?thesis using no [OF tags_connect [of st e s m, folded connect(3)]] by simp
  next
    case request
    then show ?thesis using no [OF tags_request [of st e s m, folded request(3)]] by simp
  next
    case response
    then show ?thesis using no [OF tags_response [of st e s m, folded response(3)]] by simp
  qed
qed

lemma news_set_session [simp]: "news (set_session s x st) st' = news st st'"
  by (simp add: news_def)

lemma news_paired:
  assumes new: "Send c ob \<in> set (news st (relay_step L e ev st))"
    "to_string (jval ob ''type'') = qs ''pairing''" "to_string (jval ob ''status'') = qs ''paired''"
  obtains s m where "ev = TextFrame s m" "admitted (now e) st s"
    "to_string (jval m ''type'') = qs ''pair-confirm''" "relay_step L e ev st = pair_confirm e s m st"
proof -
  obtain s m where a: "ev = TextFrame s m" "admitted (now e) st s"
    "pair_message L e s m st = Some (relay_step L e ev st)"
    using new by (rule news_pairing) auto
  note no = pairing_status_list [OF _ new]
  show ?thesis using a(3)
  proof (cases rule: pair_message_cases)
    case confirm
    then show ?thesis using that a by simp
  next
    case (close b)
    then show ?thesis using new(1) by (auto simp: news_def)
  next
    case (cancel q)
    then show ?thesis using no [OF tags_cancel [of st s q, folded cancel]] by simp
  next
    case (limited rid b)
    then show ?thesis using new by (auto simp: news_def)
  next
    case offer
    have "adds (tagged [(''pairing'', ''error''), (''pairing'', ''cancelled''), (''pairing'', ''offered'')])
       st (relay_step L e ev st)"
      unfolding offer(3) by (subst adds_set_session(2) [symmetric]) (rule tags_offer)
    then show ?thesis using no by fastforce
  next
    case claim
    have "adds (tagged [(''pairing'', ''error''), (''pairing'', ''cancelled''), (''pairing'', ''claimed'')])
       st (relay_step L e ev st)"
      unfolding claim(3) by (subst adds_set_session(2) [symmetric]) (rule tags_claim)
    then show ?thesis using no by fastforce
  qed
qed

lemma news_claimed:
  assumes new: "Send c ob \<in> set (news st (relay_step L e ev st))"
    "to_string (jval ob ''type'') = qs ''pairing''" "to_string (jval ob ''status'') = qs ''claimed''"
  obtains s m where "ev = TextFrame s m" "admitted (now e) st s"
    "to_string (jval m ''type'') = qs ''pair-claim''"
    "s_attempts (count_attempt (now e) (session_of st s)) \<le> 6"
    "relay_step L e ev st = pair_claim L e s (to_string (jval m ''id'')) m
         (set_session s (count_attempt (now e) (session_of st s)) st)"
proof -
  obtain s m where a: "ev = TextFrame s m" "admitted (now e) st s"
    "pair_message L e s m st = Some (relay_step L e ev st)"
    using new by (rule news_pairing) auto
  note no = pairing_status_list [OF _ new]
  show ?thesis using a(3)
  proof (cases rule: pair_message_cases)
    case confirm
    then show ?thesis using no [OF tags_confirm [of st e s m, folded confirm(2)]] by simp
  next
    case (close b)
    then show ?thesis using new(1) by (auto simp: news_def)
  next
    case (cancel q)
    then show ?thesis using no [OF tags_cancel [of st s q, folded cancel]] by simp
  next
    case (limited rid b)
    then show ?thesis using new by (auto simp: news_def)
  next
    case offer
    have "adds (tagged [(''pairing'', ''error''), (''pairing'', ''cancelled''), (''pairing'', ''offered'')])
       st (relay_step L e ev st)"
      unfolding offer(3) by (subst adds_set_session(2) [symmetric]) (rule tags_offer)
    then show ?thesis using no by fastforce
  next
    case claim
    then show ?thesis using that a by simp
  qed
qed

end
