(* ===== verification/RelayExamples.thy ===== *)
theory RelayExamples
  imports RelayTags
begin

text \<open>
  A small run of the relay, used by the example instances of its properties: socket 1
  registers as a host and socket 2 as a client of the same account and service, then the
  client sends a request, or the two pair with a code.
\<close>

definition demo_env :: "int \<Rightarrow> env" where
  "demo_env t = \<lparr>now = t, fresh = qs ''key'', random = replicate 32 7\<rparr>"

definition demo_principal :: principal where
  "demo_principal = \<lparr>account_id = qs ''acct'', expires_at = 40000\<rparr>"

definition demo_register :: "string \<Rightarrow> bool \<Rightarrow> jobject" where
  "demo_register name host = jobj [(''type'', jtext ''register''), (''peerId'', jtext name),
     (''service'', jtext ''files''), (''name'', jtext name), (''host'', JBool host)]"

definition demo_setup :: "(env \<times> relay_event) list" where
  "demo_setup = [(demo_env 1000, Accepted 1), (demo_env 1001, Accepted 2),
     (demo_env 1002, AuthAnswer 1 demo_principal), (demo_env 1003, AuthAnswer 2 demo_principal),
     (demo_env 1004, TextFrame 1 (demo_register ''host'' True)),
     (demo_env 1005, TextFrame 2 (demo_register ''client'' False))]"

definition demo_ready :: relay where
  "demo_ready = relay_run demo_lib demo_setup (new_relay True)"

lemma demo_ready_reach: "relay_reach demo_lib demo_ready"
  unfolding demo_ready_def
proof (rule reach_run [OF relay_start])
  show "run_ok demo_lib demo_setup (new_relay True)" by code_simp
qed

definition demo_request :: jobject where
  "demo_request = jobj [(''type'', jtext ''request''), (''id'', jtext ''r1''),
     (''peerId'', jtext ''host''), (''payload'', JObj fmempty)]"

definition demo_routed :: relay where
  "demo_routed = relay_step demo_lib (demo_env 1006) (TextFrame 2 demo_request) demo_ready"

lemma demo_routed_reach: "relay_reach demo_lib demo_routed"
  unfolding demo_routed_def by (rule relay_next [OF demo_ready_reach]) simp

definition demo_offer :: jobject where
  "demo_offer = jobj [(''type'', jtext ''pair-offer''), (''id'', jtext ''o1'')]"

definition demo_offered :: relay where
  "demo_offered = relay_step demo_lib (demo_env 1007) (TextFrame 1 demo_offer) demo_ready"

lemma demo_offered_reach: "relay_reach demo_lib demo_offered"
  unfolding demo_offered_def by (rule relay_next [OF demo_ready_reach]) simp

definition demo_claim :: jobject where
  "demo_claim = jobj [(''type'', jtext ''pair-claim''), (''id'', jtext ''c1''),
     (''host'', jtext ''host''), (''code'', JStr (from_latin1 (to_hex (replicate 32 7))))]"

definition demo_claimed :: relay where
  "demo_claimed = relay_step demo_lib (demo_env 1008) (TextFrame 2 demo_claim) demo_offered"

lemma demo_claimed_reach: "relay_reach demo_lib demo_claimed"
  unfolding demo_claimed_def by (rule relay_next [OF demo_offered_reach]) simp

definition demo_confirm :: jobject where
  "demo_confirm = jobj [(''type'', jtext ''pair-confirm''), (''pairingId'', jtext ''key'')]"

text \<open>Looking for a message by type and status, to pick one in an example.\<close>

definition sent_to :: "string \<Rightarrow> string \<Rightarrow> relay_out list \<Rightarrow> (sock \<times> jobject) option" where
  "sent_to ty status evs = (case filter (\<lambda>ev. case ev of
       Send s ob \<Rightarrow> to_string (jval ob ''type'') = qs ty \<and> to_string (jval ob ''status'') = qs status
     | _ \<Rightarrow> False) evs of Send s ob # _ \<Rightarrow> Some (s, ob) | _ \<Rightarrow> None)"

lemma sent_toD:
  assumes "sent_to ty status evs = Some (s, ob)"
  shows "Send s ob \<in> set evs" "to_string (jval ob ''type'') = qs ty"
    "to_string (jval ob ''status'') = qs status"
proof -
  let ?f = "\<lambda>ev. case ev of
       Send s ob \<Rightarrow> to_string (jval ob ''type'') = qs ty \<and> to_string (jval ob ''status'') = qs status
     | _ \<Rightarrow> False"
  obtain rest where "filter ?f evs = Send s ob # rest"
    using assms by (auto simp: sent_to_def split: list.splits relay_out.splits)
  then have "Send s ob \<in> set (filter ?f evs)" by simp
  then show "Send s ob \<in> set evs" "to_string (jval ob ''type'') = qs ty"
    "to_string (jval ob ''status'') = qs status" by auto
qed

end
