(* ===== verification/RelayProperties.thy ===== *)
theory RelayProperties
  imports RelayExamples
begin

text \<open>
  The promises of the account relay, over every reachable state and every event: what it
  keeps, who can make it send what to whom, when pairing codes and routes are consumed, and
  what expiry and disconnection leave behind.
\<close>

section \<open>Invariant\<close>



section \<open>Requests stay within the account\<close>

lemma target_facts:
  assumes "relay_inv st" "target t st s name = Some h"
  shows "h \<noteq> s" "active t st h" "hosting st h" "s_id (session_of st h) = name"
    "account_id (s_principal (session_of st h)) = account_id (s_principal (session_of st s))"
    "s_service (session_of st h) = s_service (session_of st s)"
proof -
  obtain x where x: "(h, x) \<in> set (sessions st)" "h \<noteq> s" "s_id x = name"
    "reachable_host t (session_of st s) x" using assms(2) by (rule target_Some)
  have hx: "session_of st h = x" "has_key (sessions st) h"
    using x(1) relay_inv_tables(1) [OF assms(1)]
    by (auto simp: session_of_in_set has_key_def tget_in_set [symmetric])
  show "h \<noteq> s" "active t st h" "hosting st h" "s_id (session_of st h) = name"
    "account_id (s_principal (session_of st h)) = account_id (s_principal (session_of st s))"
    "s_service (session_of st h) = s_service (session_of st s)"
    using x hx by (simp_all add: active_def hosting_def reachable_host_def)
qed

definition same_scope :: "relay \<Rightarrow> sock \<Rightarrow> sock \<Rightarrow> bool" where
  "same_scope st a b \<longleftrightarrow>
     account_id (s_principal (session_of st a)) = account_id (s_principal (session_of st b))
     \<and> s_service (session_of st a) = s_service (session_of st b)"

text \<open>
  C3: Whatever the event, a request is sent to a socket only because another socket asked
  for it in a request frame, both are authenticated and unexpired, the receiver is a host
  registered under the asked peer name in the caller's own account and service, and the
  payload is the caller's, unchanged, under the fresh route that the relay then holds.
\<close>

theorem request_isolation:
  assumes "relay_reach L st"
    and "Send h ob \<in> set (news st (relay_step L e ev st))"
    and "to_string (jval ob ''type'') = qs ''request''"
  shows "\<exists>s m. ev = TextFrame s m \<and> h \<noteq> s \<and> active (now e) st s \<and> active (now e) st h
    \<and> hosting st h \<and> same_scope st h s \<and> s_id (session_of st h) = to_string (jval m ''peerId'')
    \<and> identifier_ok (to_string (jval m ''id''))
    \<and> ob = jobj [(''type'', jtext ''request''), (''id'', JStr (fresh e)),
        (''peerId'', JStr (s_id (session_of st s))), (''payload'', jval m ''payload'')]
    \<and> tget (routes (relay_step L e ev st)) (fresh e) = Some \<lparr>r_client = s, r_host = h,
        r_id = to_string (jval m ''id''), r_expires = now e + 15000\<rparr>"
proof -
  have inv: "relay_inv st" using assms(1) by (rule reach_inv)
  obtain s m where ev: "ev = TextFrame s m" "admitted (now e) st s"
    and r: "relay_step L e ev st = request_message e s m st"
    using assms(2,3) by (rule news_request)
  have "target (now e) st s (to_string (jval m ''peerId'')) = Some h"
    "identifier_ok (to_string (jval m ''id''))"
    "ob = jobj [(''type'', jtext ''request''), (''id'', JStr (fresh e)),
        (''peerId'', JStr (s_id (session_of st s))), (''payload'', jval m ''payload'')]"
    "tget (routes (request_message e s m st)) (fresh e) = Some \<lparr>r_client = s, r_host = h,
        r_id = to_string (jval m ''id''), r_expires = now e + 15000\<rparr>"
    using assms(2,3) unfolding r request_message_def Let_def
    by (auto simp: news_def error_response_def split: if_splits option.splits)
  then show ?thesis
    using ev target_facts [OF inv] r by (auto simp: admitted_def same_scope_def)
qed

theorem request_isolation_witness:
  "sent_to ''request'' '''' (news demo_ready demo_routed) \<noteq> None
    \<and> active 1006 demo_ready 1 \<and> same_scope demo_ready 1 2"
proof -
  have sent: "sent_to ''request'' '''' (news demo_ready demo_routed) = Some (1, jobj
      [(''type'', jtext ''request''), (''id'', jtext ''key''), (''peerId'', jtext ''client''),
       (''payload'', JObj fmempty)])" by code_simp
  then show ?thesis
    using request_isolation [OF demo_ready_reach sent_toD(1,2) [OF sent, unfolded demo_routed_def]]
    by (auto simp: demo_env_def)
qed

text \<open>
  Whatever the event, a connection ticket is sent to a socket only when another socket
  asked to connect to it: the receiver is the live host of that peer name in the caller's
  account and service, the caller gets the same ticket and the host's descriptor in the same
  event, the ticket is the hex form of the 32 fresh random bytes, and its expiry is the
  earlier end of the two accounts' validity.
\<close>

theorem ticket_isolation:
  assumes "relay_reach L st"
    and "Send h ob \<in> set (news st (relay_step L e ev st))"
    and "to_string (jval ob ''type'') = qs ''ticket''"
  shows "\<exists>s m expiry ticket. ev = TextFrame s m \<and> h \<noteq> s \<and> active (now e) st s \<and> active (now e) st h
    \<and> hosting st h \<and> same_scope st h s \<and> s_id (session_of st h) = to_string (jval m ''peerId'')
    \<and> expiry = min (expires_at (s_principal (session_of st s)))
        (expires_at (s_principal (session_of st h)))
    \<and> ticket = JStr (from_latin1 (to_hex (random e)))
    \<and> ob = jobj [(''type'', jtext ''ticket''), (''ticket'', ticket),
        (''peerId'', JStr (s_id (session_of st s))), (''expires'', JStr (number_text expiry))]
    \<and> Send s (jobj [(''type'', jtext ''connect''), (''peerId'', JStr (to_string (jval m ''peerId''))),
        (''ticket'', ticket), (''descriptor'', JObj (s_descriptor (session_of st h))),
        (''expires'', JStr (number_text expiry))]) \<in> set (news st (relay_step L e ev st))"
proof -
  have inv: "relay_inv st" using assms(1) by (rule reach_inv)
  obtain s m where ev: "ev = TextFrame s m" "admitted (now e) st s"
    and r: "relay_step L e ev st = connect_message e s m st"
    using assms(2,3) by (rule news_ticket)
  let ?rid = "to_string (jval m ''peerId'')"
  show ?thesis
  proof (cases "target (now e) st s ?rid")
    case None
    then show ?thesis using assms(2,3) by (simp add: r connect_message_def Let_def news_def)
  next
    case (Some host)
    let ?expiry = "min (expires_at (s_principal (session_of st s)))
        (expires_at (s_principal (session_of st host)))"
    let ?ticket = "JStr (from_latin1 (to_hex (random e)))"
    have n: "news st (connect_message e s m st) =
        [Send host (jobj [(''type'', jtext ''ticket''), (''ticket'', ?ticket),
          (''peerId'', JStr (s_id (session_of st s))), (''expires'', JStr (number_text ?expiry))]),
         Send s (jobj [(''type'', jtext ''connect''), (''peerId'', JStr ?rid), (''ticket'', ?ticket),
          (''descriptor'', JObj (s_descriptor (session_of st host))),
          (''expires'', JStr (number_text ?expiry))])]"
      by (rule news_append) (simp add: connect_message_def Let_def Some)
    have "ob = jobj [(''type'', jtext ''ticket''), (''ticket'', ?ticket),
          (''peerId'', JStr (s_id (session_of st s))), (''expires'', JStr (number_text ?expiry))]"
      "host = h" using assms(2,3) unfolding r n by auto
    then show ?thesis
      unfolding r n using ev target_facts [OF inv Some]
      by (intro exI [of _ s] exI [of _ m] exI [of _ ?expiry] exI [of _ ?ticket])
        (simp add: same_scope_def admitted_def)
  qed
qed

definition demo_connect :: jobject where
  "demo_connect = jobj [(''type'', jtext ''connect''), (''peerId'', jtext ''host'')]"

theorem ticket_isolation_witness:
  "\<exists>ob. sent_to ''ticket'' '''' (news demo_ready
     (relay_step demo_lib (demo_env 1006) (TextFrame 2 demo_connect) demo_ready)) = Some (1, ob)
   \<and> active 1006 demo_ready 1 \<and> same_scope demo_ready 1 2"
proof -
  have sent: "sent_to ''ticket'' '''' (news demo_ready
      (relay_step demo_lib (demo_env 1006) (TextFrame 2 demo_connect) demo_ready))
    = Some (1, jobj [(''type'', jtext ''ticket''),
       (''ticket'', JStr (from_latin1 (to_hex (replicate 32 7)))), (''peerId'', jtext ''client''),
       (''expires'', jtext ''40000'')])" by code_simp
  then show ?thesis
    using ticket_isolation [OF demo_ready_reach sent_toD(1,2) [OF sent]]
    by (auto simp: demo_env_def)
qed

section \<open>Responses\<close>

text \<open>The three answers the relay gives itself, and the forwarded one.\<close>

definition relay_answer :: "string \<Rightarrow> qstring \<Rightarrow> jobject" where
  "relay_answer code rid = jobj (error_response rid code)"

text \<open>A message that is a response answers a route that was held and is now gone.\<close>

definition answers :: "string \<Rightarrow> relay \<Rightarrow> (route \<Rightarrow> bool) \<Rightarrow> relay_out \<Rightarrow> bool" where
  "answers code st P ev \<longleftrightarrow> (\<forall>c ob. ev = Send c ob \<longrightarrow> to_string (jval ob ''type'') = qs ''response'' \<longrightarrow>
     (\<exists>(k, r) \<in> set (routes st). P r \<and> r_client r = c \<and> ob = relay_answer code (r_id r)))"

lemma answers_simps [simp]:
  "answers code st P (Close s c t)" "answers code st P (Ping s)" "answers code st P (Verify s b)"
  by (simp_all add: answers_def)

lemma answers_other:
  "tagged ts ev \<Longrightarrow> list_all (\<lambda>t. fst t \<noteq> ''response'') ts \<Longrightarrow> answers code st P ev"
  by (fastforce simp: tagged_def answers_def list_all_iff)

lemma adds_answers_other:
  "adds (tagged ts) a b \<Longrightarrow> list_all (\<lambda>t. fst t \<noteq> ''response'') ts \<Longrightarrow> adds (answers code st P) a b"
  by (rule adds_mono [of "tagged ts"]) (auto intro: answers_other)

lemma remove_answers:
  assumes ok: "table_ok (routes st)"
  shows "adds (answers ''host_offline'' st (\<lambda>r. r_client r \<noteq> s \<and> r_host r = s)) st (relay_remove t s st)"
proof -
  let ?P = "answers ''host_offline'' st (\<lambda>r. r_client r \<noteq> s \<and> r_host r = s)"
  let ?c = "cancel_pairing s [] st"
  let ?st2 = "?c\<lparr>sessions := tdel s (sessions ?c)\<rparr>"
  have 1: "adds ?P st ?st2"
    using adds_answers_other [OF tags_cancel] by simp
  have 2: "adds ?P ?st2 (fold (drop_route s) (tkeys (routes ?st2)) ?st2)"
  proof (rule adds_append [OF _ route_drop.loop_log])
    show "list_all ?P (concat (map (\<lambda>(k, v). if r_client v = s \<or> r_host v = s
        then drop_outs s ?st2 k v else []) (routes ?st2)))"
      by (force simp: list_all_iff drop_outs_def answers_def relay_answer_def)
  qed (simp add: ok)
  have 3: "adds ?P a (changed t a)" for a
    by (rule adds_answers_other [OF tags_changed]) simp
  show ?thesis unfolding relay_remove_def Let_def by (rule adds_trans [OF 1 adds_trans [OF 2 3]])
qed

lemma sweep_answers:
  assumes ok: "table_ok (routes st)"
  shows "adds (answers ''timeout'' st (\<lambda>r. r_expires r < t)) st (relay_sweep t st)"
proof -
  let ?P = "answers ''timeout'' st (\<lambda>r. r_expires r < t)"
  let ?s1 = "fold (sweep_offer t) (tkeys (offers st)) st"
  let ?s2 = "fold (sweep_pair t) (tkeys (pairs ?s1)) ?s1"
  let ?s3 = "fold (sweep_session t) (tkeys (sessions ?s2)) ?s2"
  have 1: "adds ?P a (sweep_offer t k a)" for a k
    by (rule adds_answers_other [of "[(''pairing'', ''expired'')]"]; cases "tget (offers a) k")
      (auto simp: sweep_offer_def Let_def)
  have 2: "adds ?P a (sweep_pair t k a)" for a k
    using adds_answers_other [OF tags_finish]
    by (cases "tget (pairs a) k") (auto simp: sweep_pair_def)
  have 3: "adds ?P a (sweep_session t s a)" for a s
    by (simp add: sweep_session_def Let_def)
  have 4: "adds ?P ?s3 (fold (sweep_route t) (tkeys (routes ?s3)) ?s3)"
  proof (rule adds_append [OF _ route_sweep.loop_log])
    show "list_all ?P (concat (map (\<lambda>(k, v). if r_expires v < t then timeout_outs ?s3 k v else [])
        (routes ?s3)))"
      by (force simp: list_all_iff timeout_outs_def answers_def relay_answer_def)
  qed (simp add: ok)
  have "adds ?P st ?s1" "adds ?P ?s1 ?s2" "adds ?P ?s2 ?s3"
    by (rule adds_fold, rule 1)+ (rule adds_fold, rule 2 3)+
  then show ?thesis unfolding relay_sweep_def Let_def using 4 by (blast intro: adds_trans)
qed

lemma relay_remove_routes:
  assumes "table_ok (routes st)"
  shows "routes (relay_remove t s st)
    = filter (\<lambda>(k, r). \<not> (r_client r = s \<or> r_host r = s)) (routes st)"
  using route_drop.loop_table [of "(cancel_pairing s [] st)\<lparr>sessions := tdel s (sessions st)\<rparr>" s] assms
  by (simp add: relay_remove_def Let_def)

lemma answers_pick:
  assumes "table_ok (routes st)" "adds (answers code st P) st st'" "Send c ob \<in> set (news st st')"
    "to_string (jval ob ''type'') = qs ''response''"
  obtains k r where "tget (routes st) k = Some r" "P r" "r_client r = c" "ob = relay_answer code (r_id r)"
proof -
  have "answers code st P (Send c ob)" using assms(2,3) by (rule adds_news)
  then obtain k r where "(k, r) \<in> set (routes st)" "P r" "r_client r = c"
    "ob = relay_answer code (r_id r)" using assms(4) by (auto simp: answers_def)
  then show ?thesis
    using that by (simp add: tget_in_set [OF assms(1), symmetric])
qed

lemma frame_responses:
  assumes new: "Send c ob \<in> set (news st (relay_message L e s m st))"
    and ty: "to_string (jval ob ''type'') = qs ''response''"
  obtains (own) code where "code \<in> {''busy'', ''host_unavailable''}" "c = s"
      "ob = relay_answer code (to_string (jval m ''id''))"
  | (routed) r where "tget (routes st) (to_string (jval m ''id'')) = Some r" "r_host r = s"
      "r_client r = c" "active (now e) st c"
      "ob = jobj [(''type'', jtext ''response''), (''id'', JStr (r_id r)), (''result'', jval m ''result'')]"
      "tget (routes (relay_message L e s m st)) (to_string (jval m ''id'')) = None"
proof -
  note no = adds_tagged_no [OF _ assms]
  show thesis
  proof (cases rule: relay_message_cases [of st L e s m])
    case request
    have "\<exists>code \<in> {''busy'', ''host_unavailable''}. c = s
        \<and> ob = relay_answer code (to_string (jval m ''id''))"
      using assms unfolding request(3) request_message_def Let_def
      by (auto simp: news_def relay_answer_def split: if_splits option.splits)
    then show ?thesis using own by blast
  next
    case response
    let ?key = "to_string (jval m ''id'')"
    have "response_message e s m st \<noteq> st" using new unfolding response(3) by (auto simp: news_def)
    then obtain r where r: "tget (routes st) ?key = Some r" "r_host r = s"
      by (auto simp: response_message_def Let_def split: option.splits if_splits)
    then have "r_client r = c" "active (now e) st c" "ob = jobj [(''type'', jtext ''response''),
        (''id'', JStr (r_id r)), (''result'', jval m ''result'')]"
      using assms unfolding response(3)
      by (auto simp: response_message_def Let_def news_def split: if_splits)
    moreover have "tget (routes (response_message e s m st)) ?key = None"
      using r by (simp add: response_message_def Let_def)
    ultimately show ?thesis using r response(3) by (intro routed) simp_all
  qed (use no tags_register tags_pair_message tags_directory tags_connect in \<open>fastforce+\<close>)
qed

lemma other_events_no_response:
  assumes "ev \<in> {Accepted s, BinaryFrameIn s, AuthAnswer s p, Listen a i b, Stop}"
    and "Send c ob \<in> set (news st (relay_step L e ev st))"
  shows "to_string (jval ob ''type'') \<noteq> qs ''response''"
proof -
  have "adds (tagged [(''pairing'', ''cancelled''), (''error'', ''''), (''authenticated'', '''')]) st
      (relay_step L e ev st)"
    using assms(1) tags_auth_done adds_tagged_weaken [OF tags_accept]
    by (auto simp: adds_log tags_stop)
  then show ?thesis using adds_news [OF _ assms(2)] by fastforce
qed

text \<open>
  C4: Whatever the event, a response reaches a socket only in one of three ways: it is the
  relay's own refusal (busy or host unavailable) of a request frame of that socket; it is
  the answer of the host of a held route of that socket, delivered unchanged under the
  client's own request id while the client is authenticated; or it reports that the host of
  such a route disconnected or that the route timed out. In the last two cases the route is
  gone afterwards, so a route is answered once.
\<close>

theorem response_provenance:
  assumes "relay_reach L st"
    and "Send c ob \<in> set (news st (relay_step L e ev st))"
    and "to_string (jval ob ''type'') = qs ''response''"
  shows "(\<exists>m. \<exists>code \<in> {''busy'', ''host_unavailable''}. ev = TextFrame c m
      \<and> ob = relay_answer code (to_string (jval m ''id'')))
    \<or> (\<exists>k r. tget (routes st) k = Some r \<and> r_client r = c
        \<and> tget (routes (relay_step L e ev st)) k = None
        \<and> ((\<exists>m. ev = TextFrame (r_host r) m \<and> k = to_string (jval m ''id'') \<and> active (now e) st c
              \<and> ob = jobj [(''type'', jtext ''response''), (''id'', JStr (r_id r)),
                  (''result'', jval m ''result'')])
           \<or> (ev = Disconnected (r_host r) \<and> ob = relay_answer ''host_offline'' (r_id r))
           \<or> (ev = Tick \<and> r_expires r < now e \<and> ob = relay_answer ''timeout'' (r_id r))))"
proof -
  note rt = relay_inv_tables(2) [OF reach_inv [OF assms(1)]]
  show ?thesis
  proof (cases ev)
    case (TextFrame s m)
    show ?thesis
      using assms(2,3) unfolding TextFrame relay_step.simps
      by (cases rule: frame_responses) auto
  next
    case (Disconnected s)
    obtain k r where kr: "tget (routes st) k = Some r" "r_client r \<noteq> s \<and> r_host r = s" "r_client r = c"
      "ob = relay_answer ''host_offline'' (r_id r)"
      using assms(2,3) unfolding Disconnected relay_step.simps
      by (rule answers_pick [OF rt remove_answers [OF rt]])
    moreover have "tget (routes (relay_step L e ev st)) k = None"
      using kr by (simp add: Disconnected relay_remove_routes [OF rt] tget_filter [OF rt])
    ultimately show ?thesis using Disconnected by blast
  next
    case Tick
    obtain k r where kr: "tget (routes st) k = Some r" "r_expires r < now e" "r_client r = c"
      "ob = relay_answer ''timeout'' (r_id r)"
      using assms(2,3) unfolding Tick relay_step.simps
      by (rule answers_pick [OF rt sweep_answers [OF rt]])
    moreover have "tget (routes (relay_step L e ev st)) k = None"
      using kr by (simp add: Tick relay_closed rt tget_filter [OF rt])
    ultimately show ?thesis using Tick by blast
  qed (use other_events_no_response [OF _ assms(2)] assms(3) in blast)+
qed

definition demo_response :: jobject where
  "demo_response = jobj [(''type'', jtext ''response''), (''id'', jtext ''key''),
     (''result'', JBool True)]"

theorem response_provenance_witness:
  "sent_to ''response'' '''' (news demo_routed
     (relay_step demo_lib (demo_env 1007) (TextFrame 1 demo_response) demo_routed))
     = Some (2, jobj [(''type'', jtext ''response''), (''id'', jtext ''r1''), (''result'', JBool True)])
   \<and> (\<exists>k r. tget (routes demo_routed) k = Some r \<and> r_client r = 2 \<and> r_host r = 1)"
proof -
  have sent: "sent_to ''response'' '''' (news demo_routed
     (relay_step demo_lib (demo_env 1007) (TextFrame 1 demo_response) demo_routed))
     = Some (2, jobj [(''type'', jtext ''response''), (''id'', jtext ''r1''), (''result'', JBool True)])"
    by code_simp
  then show ?thesis
    using response_provenance [OF demo_routed_reach sent_toD(1,2) [OF sent]]
    by auto blast
qed

section \<open>Pairing\<close>

text \<open>
  C6: Whatever the event, a socket is told that it is paired only by a confirm frame of the
  client of a held pair, strictly before the pair expires, while host and client are both
  authenticated and in one account and service; the message goes to one of the two, and the
  pair is gone afterwards.
\<close>

theorem paired_only_by_client:
  assumes "relay_reach L st"
    and "Send c ob \<in> set (news st (relay_step L e ev st))"
    and "to_string (jval ob ''type'') = qs ''pairing''"
    and "to_string (jval ob ''status'') = qs ''paired''"
  shows "\<exists>m key p. ev = TextFrame (p_client p) m \<and> to_string (jval m ''type'') = qs ''pair-confirm''
    \<and> key = to_string (jval m ''pairingId'') \<and> tget (pairs st) key = Some p
    \<and> now e < p_expires p \<and> active (now e) st (p_host p) \<and> active (now e) st (p_client p)
    \<and> same_scope st (p_host p) (p_client p) \<and> c \<in> {p_host p, p_client p}
    \<and> tget (pairs (relay_step L e ev st)) key = None"
proof -
  have inv: "relay_inv st" using assms(1) by (rule reach_inv)
  obtain s m where ev: "ev = TextFrame s m" and ty: "to_string (jval m ''type'') = qs ''pair-confirm''"
    and r: "relay_step L e ev st = pair_confirm e s m st"
    using assms(2-4) by (rule news_paired)
  let ?key = "to_string (jval m ''pairingId'')"
  note in_news = assms(2) [unfolded r]
  have not_expired: "finish_pair ''expired'' ?key st \<noteq> pair_confirm e s m st"
    using pairing_status_list [OF tags_finish [of "''expired''" st ?key] _ assms(3,4)] in_news by auto
  have "pair_confirm e s m st \<noteq> st" using in_news by (auto simp: news_def)
  then obtain p where p: "tget (pairs st) ?key = Some p" "p_client p = s" "now e < p_expires p"
    "active (now e) st (p_host p)" "active (now e) st (p_client p)"
    "target (now e) st s (s_id (session_of st (p_host p))) = Some (p_host p)"
    and st': "pair_confirm e s m st = finish_pair ''paired'' ?key st"
    using not_expired by (auto simp: pair_confirm_def Let_def split: option.splits if_splits)
  have n: "news st (finish_pair ''paired'' ?key st) = finish_outs ''paired'' ?key st p"
    by (rule news_append) (simp add: finish_pair_log p)
  have "c \<in> {p_host p, p_client p}"
    using in_news unfolding st' n by (auto simp: finish_outs_def split: if_splits)
  then show ?thesis
    using ev ty p target_facts(5,6) [OF inv p(6)] unfolding r st'
    by (intro exI [of _ m] exI [of _ ?key] exI [of _ p]) (auto simp: same_scope_def)
qed

theorem paired_only_by_client_witness:
  "sent_to ''pairing'' ''paired'' (news demo_claimed
     (relay_step demo_lib (demo_env 1009) (TextFrame 2 demo_confirm) demo_claimed)) \<noteq> None
   \<and> active 1009 demo_claimed 1 \<and> same_scope demo_claimed 1 2"
proof -
  have "let st = demo_claimed in
     map_option fst (sent_to ''pairing'' ''paired'' (news st
       (relay_step demo_lib (demo_env 1009) (TextFrame 2 demo_confirm) st))) = Some 1
     \<and> map_option p_host (tget (pairs st) (qs ''key'')) = Some 1
     \<and> map_option p_client (tget (pairs st) (qs ''key'')) = Some 2" by code_simp
  then have sent: "map_option fst (sent_to ''pairing'' ''paired'' (news demo_claimed
     (relay_step demo_lib (demo_env 1009) (TextFrame 2 demo_confirm) demo_claimed))) = Some 1"
    and p: "map_option p_host (tget (pairs demo_claimed) (qs ''key'')) = Some 1"
      "map_option p_client (tget (pairs demo_claimed) (qs ''key'')) = Some 2" by (simp_all add: Let_def)
  then obtain ob where "sent_to ''pairing'' ''paired'' (news demo_claimed
     (relay_step demo_lib (demo_env 1009) (TextFrame 2 demo_confirm) demo_claimed)) = Some (1, ob)"
    by auto
  note c = this paired_only_by_client [OF demo_claimed_reach sent_toD [OF this]]
  obtain q where q: "tget (pairs demo_claimed) (qs ''key'') = Some q"
    "active (now (demo_env 1009)) demo_claimed (p_host q)"
    "same_scope demo_claimed (p_host q) (p_client q)"
    using c(2) by (auto simp: demo_confirm_def)
  then have "p_host q = 1" "p_client q = 2" using p by simp_all
  then show ?thesis using c(1) q by (simp add: demo_env_def)
qed

lemma claim_step:
  assumes inv: "relay_inv st" and new: "Send c ob \<in> set (news st (pair_claim L e s rid m st))"
    "to_string (jval ob ''type'') = qs ''pairing''" "to_string (jval ob ''status'') = qs ''claimed''"
  defines "hash \<equiv> sha256 L (to_latin1 (to_string (jval m ''code'')))"
  obtains off where "tget (offers st) hash = Some off" "length (to_string (jval m ''code'')) = 64"
    "now e < o_expires off" "active (now e) st (o_host off)" "s_descriptor (session_of st s) = fmempty"
    "target (now e) st s (to_string (jval m ''host'')) = Some (o_host off)"
    "c \<in> {o_host off, s}" "tget (offers (pair_claim L e s rid m st)) hash = None"
    "tget (pairs (pair_claim L e s rid m st)) (fresh e) = Some \<lparr>p_host = o_host off, p_client = s,
       p_host_request = o_request off, p_client_request = rid,
       p_expires = min (now e + 15000) (o_expires off)\<rparr>"
proof -
  note tabs = relay_inv_tables [OF inv]
  let ?refused = "pairing s rid ''error'' [(''error'', jtext ''pairing_invalid_or_expired'')] st"
  have "pair_claim L e s rid m st \<noteq> ?refused" using new by (auto simp: news_def)
  then obtain off where off: "tget (offers st) hash = Some off"
    "length (to_string (jval m ''code'')) = 64" "now e < o_expires off"
    "active (now e) st (o_host off)" "s_descriptor (session_of st s) = fmempty"
    "target (now e) st s (to_string (jval m ''host'')) = Some (o_host off)"
    and name: "s_id (session_of st (o_host off)) = to_string (jval m ''host'')"
    by (auto simp: pair_claim_def Let_def hash_def split: option.splits if_splits)
  have ends: "tget (offers (pair_claim L e s rid m st)) hash = None"
    "tget (pairs (pair_claim L e s rid m st)) (fresh e) = Some \<lparr>p_host = o_host off, p_client = s,
       p_host_request = o_request off, p_client_request = rid,
       p_expires = min (now e + 15000) (o_expires off)\<rparr>"
    using off name by (simp_all add: pair_claim_def Let_def hash_def)
  have "\<exists>d d'. news st (pair_claim L e s rid m st) = cancel_outs s [] st
      @ [Send (o_host off) d, Send s d']"
    using off name tabs by (simp add: pair_claim_def Let_def hash_def news_def relay_closed)
  moreover have "Send c ob \<notin> set (cancel_outs s [] st)"
  proof
    assume "Send c ob \<in> set (cancel_outs s [] st)"
    moreover have "news st (cancel_pairing s [] st) = cancel_outs s [] st"
      by (rule news_append) (simp add: relay_closed tabs)
    ultimately show False
      using pairing_status_list [OF tags_cancel [of st s "[]"] _ new(2,3)] by simp
  qed
  ultimately have "c \<in> {o_host off, s}" using new(1) by auto
  then show thesis using off ends by (intro that) auto
qed

text \<open>
  C5: Whatever the event, a socket is told that a pairing code was claimed only by a claim
  frame whose 64-character code hashes to a held, unexpired offer of a live host that the
  frame names, in the claimer's own account and service, by a claimer that is no host. The
  offer is consumed in that event, so a code is claimed once, and the pair that replaces it
  expires at most 15 seconds later and never after the offer.
\<close>

theorem claim_consumes_code:
  assumes "relay_reach L st"
    and "Send c ob \<in> set (news st (relay_step L e ev st))"
    and "to_string (jval ob ''type'') = qs ''pairing''"
    and "to_string (jval ob ''status'') = qs ''claimed''"
  shows "\<exists>s m off. ev = TextFrame s m \<and> c \<in> {o_host off, s}
    \<and> length (to_string (jval m ''code'')) = 64
    \<and> tget (offers st) (sha256 L (to_latin1 (to_string (jval m ''code'')))) = Some off
    \<and> now e < o_expires off \<and> active (now e) st (o_host off) \<and> active (now e) st s
    \<and> \<not> hosting st s \<and> same_scope st (o_host off) s
    \<and> s_id (session_of st (o_host off)) = to_string (jval m ''host'')
    \<and> tget (offers (relay_step L e ev st)) (sha256 L (to_latin1 (to_string (jval m ''code'')))) = None
    \<and> map_option p_expires (tget (pairs (relay_step L e ev st)) (fresh e))
        = Some (min (now e + 15000) (o_expires off))"
proof -
  have inv: "relay_inv st" using assms(1) by (rule reach_inv)
  obtain s m where ev: "ev = TextFrame s m" "admitted (now e) st s"
    and r: "relay_step L e ev st = pair_claim L e s (to_string (jval m ''id'')) m
         (set_session s (count_attempt (now e) (session_of st s)) st)"
    using assms(2-4) by (rule news_claimed)
  let ?y = "count_attempt (now e) (session_of st s)"
  let ?st1 = "set_session s ?y st"
  have key: "has_key (sessions st) s" using ev(2) by (simp add: admitted_def active_def)
  have same: "same_peer ?y (session_of st s)" "s_descriptor ?y = s_descriptor (session_of st s)"
    "s_principal ?y = s_principal (session_of st s)" "s_service ?y = s_service (session_of st s)"
    by (auto simp: same_peer_def count_attempt_def Let_def split: option.split)
  have inv1: "relay_inv ?st1" by (rule relay_inv_same_identity [OF inv key same(1,2)])
  have act: "active (now e) ?st1 a \<longleftrightarrow> active (now e) st a" for a
    using same(3) key by (simp add: active_def)
  have "Send c ob \<in> set (news ?st1 (relay_step L e ev st))" using assms(2) by simp
  note c = this [unfolded r]
  obtain off where off: "tget (offers ?st1) (sha256 L (to_latin1 (to_string (jval m ''code'')))) = Some off"
    "length (to_string (jval m ''code'')) = 64" "now e < o_expires off"
    "active (now e) ?st1 (o_host off)" "s_descriptor (session_of ?st1 s) = fmempty"
    "target (now e) ?st1 s (to_string (jval m ''host'')) = Some (o_host off)"
    "c \<in> {o_host off, s}"
    and after: "tget (offers (relay_step L e ev st))
       (sha256 L (to_latin1 (to_string (jval m ''code'')))) = None"
      "map_option p_expires (tget (pairs (relay_step L e ev st)) (fresh e))
        = Some (min (now e + 15000) (o_expires off))"
    using c assms(3,4) unfolding r by (rule claim_step [OF inv1]) simp
  note tf = target_facts [OF inv1 off(6)]
  have "\<not> hosting st s" using off(5) same(2) by (simp add: hosting_def)
  moreover have "same_scope st (o_host off) s" "s_id (session_of st (o_host off)) = to_string (jval m ''host'')"
    using tf same by (auto simp: same_scope_def)
  ultimately show ?thesis
    using ev off after act by (intro exI [of _ s] exI [of _ m] exI [of _ off])
      (simp add: admitted_def)
qed

theorem claim_consumes_code_witness:
  "sent_to ''pairing'' ''claimed'' (news demo_offered demo_claimed) \<noteq> None
   \<and> active 1008 demo_offered 1 \<and> \<not> hosting demo_offered 2"
proof -
  have "let st = demo_offered in map_option fst (sent_to ''pairing'' ''claimed''
       (news st (relay_step demo_lib (demo_env 1008) (TextFrame 2 demo_claim) st))) = Some 1
     \<and> map_option o_host (tget (offers st) (to_hex (replicate 32 7))) = Some 1" by code_simp
  then have sent: "map_option fst (sent_to ''pairing'' ''claimed'' (news demo_offered demo_claimed)) = Some 1"
    and o: "map_option o_host (tget (offers demo_offered) (to_hex (replicate 32 7))) = Some 1"
    by (simp_all add: Let_def demo_claimed_def)
  have code: "to_latin1 (to_string (jval demo_claim ''code'')) = to_hex (replicate 32 7)"
    by (simp add: demo_claim_def)
  obtain ob where s: "sent_to ''pairing'' ''claimed'' (news demo_offered demo_claimed) = Some (1, ob)"
    using sent by auto
  show ?thesis
    using claim_consumes_code [OF demo_offered_reach sent_toD [OF s, unfolded demo_claimed_def]] s o
    by (auto simp: demo_env_def code)
qed

text \<open>An offer is announced by the offer handler.\<close>

lemma news_offered:
  assumes new: "Send c ob \<in> set (news st (relay_step L e ev st))"
    "to_string (jval ob ''type'') = qs ''pairing''" "to_string (jval ob ''status'') = qs ''offered''"
  obtains s m where "ev = TextFrame s m" "admitted (now e) st s"
    "to_string (jval m ''type'') = qs ''pair-offer''"
    "relay_step L e ev st = pair_offer L e s (to_string (jval m ''id''))
         (set_session s (count_attempt (now e) (session_of st s)) st)"
proof -
  obtain s m where a: "ev = TextFrame s m" "admitted (now e) st s"
    "pair_message L e s m st = Some (relay_step L e ev st)"
    using new by (rule news_pairing) auto
  note no = pairing_status_list [OF _ new]
  show ?thesis using a(3)
  proof (cases rule: pair_message_cases)
    case confirm
    then show ?thesis using no [OF tags_confirm [of st e s m, folded confirm(2)]] by simp
  next
    case (close b)
    then show ?thesis using new(1) by (auto simp: news_def)
  next
    case (cancel q)
    then show ?thesis using no [OF tags_cancel [of st s q, folded cancel]] by simp
  next
    case (limited rid b)
    then show ?thesis using new by (auto simp: news_def)
  next
    case offer
    then show ?thesis using that a by simp
  next
    case claim
    have "adds (tagged [(''pairing'', ''error''), (''pairing'', ''cancelled''), (''pairing'', ''claimed'')])
       st (relay_step L e ev st)"
      unfolding claim(3) by (subst adds_set_session(2) [symmetric]) (rule tags_claim)
    then show ?thesis using no by fastforce
  qed
qed

lemma count_attempt_identity [simp]:
  "same_peer (count_attempt t x) x" "s_descriptor (count_attempt t x) = s_descriptor x"
  "s_principal (count_attempt t x) = s_principal x" "s_service (count_attempt t x) = s_service x"
  "s_id (count_attempt t x) = s_id x" "s_name (count_attempt t x) = s_name x"
  by (auto simp: same_peer_def count_attempt_def Let_def split: option.split)

lemma offer_step:
  assumes inv: "relay_inv st" and new: "Send c ob \<in> set (news st (pair_offer L e s rid st))"
    "to_string (jval ob ''type'') = qs ''pairing''" "to_string (jval ob ''status'') = qs ''offered''"
  shows "s_descriptor (session_of st s) \<noteq> fmempty" "c = s"
    "jval ob ''code'' = JStr (from_latin1 (to_hex (random e)))"
proof -
  show desc: "s_descriptor (session_of st s) \<noteq> fmempty"
    using new by (auto simp: pair_offer_def Let_def news_def)
  let ?msg = "pairing_object rid ''offered''
     [(''code'', JStr (from_latin1 (to_hex (random e)))), (''peerId'', JStr (s_id (session_of st s))),
      (''name'', JStr (s_name (session_of st s))),
      (''expires'', JStr (number_text (min (now e + 60000) (expires_at (s_principal (session_of st s))))))]"
  note log = cancel_pairing_log [OF relay_inv_tables(3,4) [OF inv], of s "[]"]
  have n: "news st (pair_offer L e s rid st) = cancel_outs s [] st @ [Send s ?msg]"
    by (rule news_append) (simp add: pair_offer_def Let_def desc log)
  have "Send c ob \<notin> set (cancel_outs s [] st)"
    using pairing_status_list [OF tags_cancel [of st s "[]"] _ new(2,3)]
    by (auto simp: news_append [OF log])
  then have "c = s" "ob = ?msg" using new(1) unfolding n by auto
  then show "c = s" "jval ob ''code'' = JStr (from_latin1 (to_hex (random e)))"
    by (simp_all add: pairing_object_def)
qed

lemma offer_leaves:
  assumes inv: "relay_inv st" and desc: "s_descriptor (session_of st s) \<noteq> fmempty"
  shows "{(k, off) \<in> set (offers (pair_offer L e s rid st)). o_host off = s}
       = {(sha256 L (to_hex (random e)), \<lparr>o_host = s, o_request = rid,
           o_expires = min (now e + 60000) (expires_at (s_principal (session_of st s)))\<rparr>)}"
    and "\<forall>(k, p) \<in> set (pairs (pair_offer L e s rid st)). p_host p \<noteq> s \<and> p_client p \<noteq> s"
proof -
  have load: "pairing_load (cancel_pairing s [] st) s = 0" by (rule cancel_all_load [OF inv])
  note tabs = relay_inv_tables [OF relay_inv_cancel [OF inv]]
  show "{(k, off) \<in> set (offers (pair_offer L e s rid st)). o_host off = s}
       = {(sha256 L (to_hex (random e)), \<lparr>o_host = s, o_request = rid,
           o_expires = min (now e + 60000) (expires_at (s_principal (session_of st s)))\<rparr>)}"
    using desc load tabs by (auto simp: pair_offer_def Let_def set_tput pairing_load_zero_iff)
  show "\<forall>(k, p) \<in> set (pairs (pair_offer L e s rid st)). p_host p \<noteq> s \<and> p_client p \<noteq> s"
    using desc load by (auto simp: pair_offer_def Let_def pairing_load_zero_iff)
qed

text \<open>
  Whatever the event, a pairing code is announced only to a registered host that asked
  for it. The code is the hex form of the event's 32 random bytes; afterwards the relay holds,
  under the code's SHA-256 only, one offer of that host, which expires with the host's
  authentication and at most 60 seconds later, and no other offer or pair of that host.
\<close>

theorem offer_replaces_older:
  assumes "relay_reach L st"
    and "Send c ob \<in> set (news st (relay_step L e ev st))"
    and "to_string (jval ob ''type'') = qs ''pairing''"
    and "to_string (jval ob ''status'') = qs ''offered''"
  shows "\<exists>m. ev = TextFrame c m \<and> active (now e) st c \<and> hosting st c
    \<and> jval ob ''code'' = JStr (from_latin1 (to_hex (random e)))
    \<and> {(k, off) \<in> set (offers (relay_step L e ev st)). o_host off = c}
       = {(sha256 L (to_hex (random e)), \<lparr>o_host = c, o_request = to_string (jval m ''id''),
           o_expires = min (now e + 60000) (expires_at (s_principal (session_of st c)))\<rparr>)}
    \<and> (\<forall>(k, p) \<in> set (pairs (relay_step L e ev st)). p_host p \<noteq> c \<and> p_client p \<noteq> c)"
proof -
  have inv: "relay_inv st" using assms(1) by (rule reach_inv)
  obtain s m where ev: "ev = TextFrame s m" "admitted (now e) st s"
    and r: "relay_step L e ev st = pair_offer L e s (to_string (jval m ''id''))
         (set_session s (count_attempt (now e) (session_of st s)) st)"
    using assms(2-4) by (rule news_offered)
  let ?st1 = "set_session s (count_attempt (now e) (session_of st s)) st"
  have key: "has_key (sessions st) s" using ev(2) by (simp add: admitted_def active_def)
  have inv1: "relay_inv ?st1" by (rule relay_inv_same_identity [OF inv key]) simp_all
  have "Send c ob \<in> set (news ?st1 (pair_offer L e s (to_string (jval m ''id'')) ?st1))"
    using assms(2) r by simp
  note off = offer_step [OF inv1 this assms(3,4)]
  show ?thesis
    using ev key off offer_leaves [OF inv1 off(1), of L e "to_string (jval m ''id'')"]
    unfolding r by (intro exI [of _ m]) (simp add: admitted_def hosting_def)
qed

theorem offer_replaces_older_witness:
  "sent_to ''pairing'' ''offered'' (news demo_ready demo_offered) \<noteq> None
   \<and> active 1007 demo_ready 1 \<and> hosting demo_ready 1"
proof -
  have "map_option fst (sent_to ''pairing'' ''offered'' (news demo_ready demo_offered)) = Some 1"
    by code_simp
  then obtain ob where s: "sent_to ''pairing'' ''offered'' (news demo_ready demo_offered) = Some (1, ob)"
    by auto
  show ?thesis
    using offer_replaces_older [OF demo_ready_reach sent_toD [OF s, unfolded demo_offered_def]] s
    by (auto simp: demo_env_def)
qed

end
