(* ===== verification/RelayLifecycle.thy ===== *)
theory RelayLifecycle
  imports RelayProperties
begin

text \<open>
  The relay over the life of a connection: where its account comes from, what the directory
  shows it, how often it may try to pair, a request and its response end to end, and what
  the half-second sweep and a disconnection leave behind.
\<close>

section \<open>Accounts\<close>

definition principal_of :: "relay \<Rightarrow> sock \<Rightarrow> principal" where
  "principal_of st s = s_principal (session_of st s)"

lemma principal_of_cong: "sessions st' = sessions st \<Longrightarrow> principal_of st' = principal_of st"
  by (rule ext) (simp add: principal_of_def session_of_def)

lemma principal_of_set: "principal_of (set_session s x st) a
    = (if a = s then s_principal x else principal_of st a)"
  by (simp add: principal_of_def)

lemma auth_message_principal: "principal_of (auth_message L s m st) = principal_of st"
  by (rule ext) (simp add: auth_message_def Let_def principal_of_def)

lemma register_principal: "principal_of (register_message L e s m st) = principal_of st"
proof (rule ext)
  fix a
  have "principal_of (changed t st') a = principal_of st' a"
    "principal_of (cancel_pairing s q st') a = principal_of st' a" for t st' q
    by (simp_all add: principal_of_cong [of "changed t st'" st'] principal_of_def)
  then show "principal_of (register_message L e s m st) a = principal_of st a"
    by (simp add: register_message_def Let_def) (simp add: principal_of_def)
qed

lemma pair_offer_sessions [simp]: "sessions (pair_offer L e s rid st) = sessions st"
  by (simp add: pair_offer_def Let_def)

lemma pair_claim_sessions [simp]: "sessions (pair_claim L e s rid m st) = sessions st"
  by (simp add: pair_claim_def Let_def split: option.split)

lemma pair_confirm_sessions [simp]: "sessions (pair_confirm e s m st) = sessions st"
  by (simp add: pair_confirm_def Let_def split: option.split)

lemma pair_message_principal:
  assumes "pair_message L e s m st = Some st'"
  shows "principal_of st' = principal_of st"
proof -
  let ?st1 = "set_session s (count_attempt (now e) (session_of st s)) st"
  have "sessions st' = sessions st \<or> sessions st' = sessions ?st1"
    using assms unfolding pair_message_def Let_def by (simp split: if_splits) auto
  moreover have "principal_of ?st1 = principal_of st"
    by (rule ext) (simp add: principal_of_def)
  ultimately show ?thesis using principal_of_cong by metis
qed

lemma connect_request_response_sessions [simp]:
  "sessions (connect_message e s m st) = sessions st"
  "sessions (request_message e s m st) = sessions st"
  "sessions (response_message e s m st) = sessions st"
  by (simp_all add: connect_message_def request_message_def response_message_def Let_def
      split: option.split)

lemma relay_message_principal: "principal_of (relay_message L e s m st) = principal_of st"
proof -
  have "principal_of st' = principal_of st" if "pair_message L e s m st = Some st'" for st'
    using that by (rule pair_message_principal)
  moreover have "principal_of (emit ev st) = principal_of st"
    "principal_of (directory t s st) = principal_of st"
    "principal_of (connect_message e s m st) = principal_of st"
    "principal_of (request_message e s m st) = principal_of st"
    "principal_of (response_message e s m st) = principal_of st" for ev t
    by (rule principal_of_cong, simp)+
  ultimately show ?thesis
    by (simp add: relay_message_def Let_def auth_message_principal register_principal
        split: option.split)
qed

text \<open>The account after the authenticator's answer.\<close>

lemma auth_done_refused:
  assumes "has_key (sessions st) a"
    and "\<not> live t p \<or> (account_id (principal_of st a) \<noteq> []
      \<and> account_id p \<noteq> account_id (principal_of st a))"
  shows "principal_of (auth_done t a p st) = (principal_of st)(a := no_principal)"
    and "closed (auth_done t a p st) a"
proof -
  let ?x = "(session_of st a)\<lparr>s_authenticating := False\<rparr>"
  have r: "auth_done t a p st = emit (Close a 1000 '''')
      (send_to a [(''type'', jtext ''error''), (''error'', jtext ''unauthenticated'')]
        (set_session a ((session_of (cancel_pairing a [] (set_session a ?x st)) a)
          \<lparr>s_principal := no_principal\<rparr>) (cancel_pairing a [] (set_session a ?x st))))"
    using assms by (auto simp: auth_done_def Let_def principal_of_def)
  show "principal_of (auth_done t a p st) = (principal_of st)(a := no_principal)"
    unfolding r by (rule ext) (simp add: principal_of_def)
  show "closed (auth_done t a p st) a" unfolding r by simp
qed

lemma auth_done_accepted:
  assumes "has_key (sessions st) a" and "live t p"
    and "account_id (principal_of st a) \<in> {[], account_id p}"
  shows "principal_of (auth_done t a p st)
    = (principal_of st)(a := p\<lparr>expires_at := min (expires_at p) (t + 60000)\<rparr>)"
  using assms by (auto simp: auth_done_def Let_def principal_of_def fun_eq_iff)

lemma auth_done_other:
  assumes "b \<noteq> a"
  shows "principal_of (auth_done t a p st) b = principal_of st b"
proof -
  consider "\<not> has_key (sessions st) a"
    | "has_key (sessions st) a" "\<not> live t p \<or> (account_id (principal_of st a) \<noteq> []
        \<and> account_id p \<noteq> account_id (principal_of st a))"
    | "has_key (sessions st) a" "\<not> (\<not> live t p \<or> (account_id (principal_of st a) \<noteq> []
        \<and> account_id p \<noteq> account_id (principal_of st a)))"
    by blast
  then show ?thesis
  proof cases
    case 1
    then show ?thesis by (simp add: auth_done_def)
  next
    case 2
    then show ?thesis using auth_done_refused(1) [OF 2] assms by simp
  next
    case 3
    then show ?thesis using auth_done_accepted [OF 3(1), of t p] assms by auto
  qed
qed

text \<open>No other event changes the account of a connection that it leaves in place.\<close>

lemma principal_unchanged:
  assumes "event_ok ev st" and "has_key (sessions (relay_step L e ev st)) s"
    and "\<And>p. ev \<noteq> AuthAnswer s p"
  shows "principal_of (relay_step L e ev st) s = principal_of st s"
proof (cases ev)
  case (AuthAnswer a p)
  then have "a \<noteq> s" using assms(3) by auto
  then show ?thesis using AuthAnswer auth_done_other [of s a "now e" p st] by simp
next
  case (Accepted a)
  then have "principal_of st a = no_principal"
    using assms(1) by (simp add: principal_of_def session_of_missing new_session_def)
  then show ?thesis
    by (auto simp: Accepted relay_accept_def principal_of_def new_session_def)
next
  case (Disconnected a)
  have "sessions (relay_step L e ev st) = tdel a (sessions st)"
    by (simp add: Disconnected relay_remove_def Let_def)
  then show ?thesis using assms(2) by (auto simp: principal_of_def session_of_def)
next
  case Stop
  then show ?thesis using assms(2) by (simp add: relay_stop_def)
next
  case (Listen a i b)
  then show ?thesis using assms(2)
    by (simp add: relay_listen_def relay_stop_def Let_def split: listen_result.splits if_splits)
next
  case (TextFrame a m)
  then show ?thesis by (simp add: relay_message_principal)
next
  case (BinaryFrameIn a)
  then show ?thesis using principal_of_cong [of "emit (Close a 1000 '''') st" st] by simp
next
  case Tick
  then show ?thesis using principal_of_cong [of "relay_sweep (now e) st" st] by simp
qed

text \<open>
  C8: The account of a connection changes only when the authenticator answers for it. Then
  either the answer is live and, for a connection that had an account, of the same account,
  and the connection gets that account for no longer than the answer says and at most 60
  seconds; or the connection loses its account and is closed.
\<close>

theorem account_from_authenticator:
  assumes "event_ok ev st"
    and "has_key (sessions (relay_step L e ev st)) s"
    and "principal_of (relay_step L e ev st) s \<noteq> principal_of st s"
  shows "\<exists>p. ev = AuthAnswer s p \<and>
    ((live (now e) p \<and> account_id (principal_of st s) \<in> {[], account_id p}
        \<and> account_id (principal_of (relay_step L e ev st) s) = account_id p
        \<and> expires_at (principal_of (relay_step L e ev st) s) \<le> expires_at p
        \<and> expires_at (principal_of (relay_step L e ev st) s) \<le> now e + 60000)
     \<or> (principal_of (relay_step L e ev st) s = no_principal
        \<and> closed (relay_step L e ev st) s))"
proof -
  obtain p where ev: "ev = AuthAnswer s p"
    using principal_unchanged [OF assms(1,2)] assms(3) by blast
  then have key: "has_key (sessions st) s"
    using assms(3) by (auto simp: auth_done_def split: if_splits)
  show ?thesis
  proof (cases "\<not> live (now e) p \<or> (account_id (principal_of st s) \<noteq> []
      \<and> account_id p \<noteq> account_id (principal_of st s))")
    case True
    then show ?thesis using auth_done_refused [OF key True] ev by simp
  next
    case False
    then show ?thesis using auth_done_accepted [OF key, of "now e" p] ev by auto
  qed
qed

theorem account_from_authenticator_witness:
  "account_id (principal_of demo_ready 2) = qs ''acct''
   \<and> principal_of (relay_step demo_lib (demo_env 1009) (AuthAnswer 2 no_principal) demo_ready) 2
      = no_principal"
proof -
  let ?ev = "AuthAnswer 2 no_principal"
  let ?st' = "relay_step demo_lib (demo_env 1009) ?ev demo_ready"
  have ready: "has_key (sessions demo_ready) 2 \<and> account_id (principal_of demo_ready 2) = qs ''acct''"
    by code_simp
  then have after: "has_key (sessions ?st') 2" "principal_of ?st' 2 = no_principal"
    by (simp_all add: auth_done_def Let_def principal_of_def)
  then have "principal_of ?st' 2 \<noteq> principal_of demo_ready 2" using ready by auto
  from account_from_authenticator [OF _ after(1) this]
  show ?thesis using ready by auto
qed

section \<open>The directory\<close>

lemma peers_out_reads:
  assumes ok: "table_ok (sessions st)" and out: "Send c ob \<in> set (peers_out t st s)"
  shows "c = s" "active t st s"
    "set (to_array (jval ob ''peers'')) = {JObj (s_descriptor (session_of st h)) | h.
       h \<noteq> s \<and> has_key (sessions st) h \<and> reachable_host t (session_of st s) (session_of st h)}"
proof -
  let ?hosts = "filter (\<lambda>(k, x). k \<noteq> s \<and> reachable_host t (session_of st s) x) (sessions st)"
  have act: "active t st s" and c: "c = s" and "ob = jobj [(''type'', jtext ''peers''),
      (''peers'', JArr (map (\<lambda>(k, x). JObj (s_descriptor x)) ?hosts))]"
    using out by (auto simp: peers_out_def split: if_splits)
  then have "set (to_array (jval ob ''peers'')) = (\<lambda>(k, x). JObj (s_descriptor x)) ` set ?hosts"
    by simp
  also have "\<dots> = {JObj (s_descriptor (session_of st h)) | h.
       h \<noteq> s \<and> has_key (sessions st) h \<and> reachable_host t (session_of st s) (session_of st h)}"
    using session_of_in_set [OF ok] session_of_member
    by (auto simp: image_iff has_key_def tget_in_set [OF ok])
  finally show "set (to_array (jval ob ''peers'')) = {JObj (s_descriptor (session_of st h)) | h.
       h \<noteq> s \<and> has_key (sessions st) h \<and> reachable_host t (session_of st s) (session_of st h)}" .
  show "c = s" "active t st s" using act c by auto
qed

definition lists :: "msecs \<Rightarrow> relay \<Rightarrow> relay_out \<Rightarrow> bool" where
  "lists t st ev \<longleftrightarrow> (\<forall>c ob. ev = Send c ob \<longrightarrow> to_string (jval ob ''type'') = qs ''peers'' \<longrightarrow>
     ev \<in> set (peers_out t st c))"

lemma peers_out_cong: "sessions st = sessions st' \<Longrightarrow> peers_out t st s = peers_out t st' s"
  by (simp add: peers_out_def active_def session_of_def)

lemma peers_out_to: "Send c ob \<in> set (peers_out t st s) \<Longrightarrow> c = s"
  by (auto simp: peers_out_def split: if_splits)

lemma lists_other:
  "adds (tagged ts) a b \<Longrightarrow> list_all (\<lambda>t. fst t \<noteq> ''peers'') ts \<Longrightarrow> adds (lists t st) a b"
  by (rule adds_mono [of "tagged ts"]) (fastforce simp: tagged_def lists_def list_all_iff)+

lemma lists_changed:
  assumes "sessions a = sessions st"
  shows "adds (lists t st) a (changed t a)"
proof (rule adds_append)
  show "log (changed t a) = log a @ concat (map (peers_out t a) (tkeys (sessions a)))"
    by (simp add: changed_closed)
  show "list_all (lists t st) (concat (map (peers_out t a) (tkeys (sessions a))))"
    using peers_out_cong [OF assms] by (auto simp: list_all_iff lists_def dest: peers_out_to)
qed

lemma register_message_cases:
  obtains (refused) "adds (tagged [(''error'', '''')]) st (register_message L e s m st)"
  | (accepted) a where "register_message L e s m st = changed (now e) a"
      "adds (tagged [(''pairing'', ''cancelled''), (''registered'', '''')]) st a"
proof -
  let ?x = "(session_of st s)\<lparr>s_id := to_string (jval m ''peerId''),
    s_service := to_string (jval m ''service''), s_name := to_string (jval m ''name''),
    s_descriptor := host_descriptor L m\<rparr>"
  let ?st2 = "if s_descriptor (session_of st s) \<noteq> fmempty \<and> s_descriptor ?x = fmempty
    then cancel_pairing s [] (set_session s ?x st) else set_session s ?x st"
  let ?a = "send_to s [(''type'', jtext ''registered'')] ?st2"
  have "adds (tagged [(''pairing'', ''cancelled''), (''registered'', '''')]) st
      (cancel_pairing s [] (set_session s x st))" for x
    using adds_tagged_weaken [OF tags_cancel [of "set_session s x st"],
      of "[(''pairing'', ''cancelled''), (''registered'', '''')]"] by simp
  then have a: "adds (tagged [(''pairing'', ''cancelled''), (''registered'', '''')]) st ?a"
    by simp
  have "register_message L e s m st = changed (now e) ?a
      \<or> adds (tagged [(''error'', '''')]) st (register_message L e s m st)"
    unfolding register_message_def Let_def by (simp split: if_split)
  then show thesis using refused accepted a by blast
qed

lemma lists_register: "adds (lists (now e) (register_message L e s m st)) st (register_message L e s m st)"
proof (cases rule: register_message_cases [of st L e s m])
  case refused
  then show ?thesis by (rule lists_other) simp
next
  case (accepted a)
  let ?r = "register_message L e s m st"
  have "adds (lists (now e) ?r) st a" using accepted(2) by (rule lists_other) simp
  moreover have "adds (lists (now e) ?r) a ?r"
    unfolding accepted(1) by (rule lists_changed) simp
  ultimately show ?thesis by (rule adds_trans)
qed

lemma lists_directory: "adds (lists t (directory t s st)) st (directory t s st)"
proof (rule adds_append)
  show "log (directory t s st) = log st @ peers_out t st s" by (simp add: directory_closed)
  show "list_all (lists t (directory t s st)) (peers_out t st s)"
    using peers_out_cong [of "directory t s st" st]
    by (auto simp: list_all_iff lists_def dest: peers_out_to)
qed

lemma lists_remove: "adds (lists t (relay_remove t s st)) st (relay_remove t s st)"
proof -
  let ?c = "cancel_pairing s [] st"
  let ?st2 = "?c\<lparr>sessions := tdel s (sessions ?c)\<rparr>"
  let ?st3 = "fold (drop_route s) (tkeys (routes ?st2)) ?st2"
  let ?ts = "[(''pairing'', ''cancelled''), (''response'', '''')]"
  have r: "relay_remove t s st = changed t ?st3" by (simp add: relay_remove_def Let_def)
  have "adds (tagged ?ts) st ?st2" using adds_tagged_weaken [OF tags_cancel, of ?ts] by simp
  moreover have "adds (tagged ?ts) ?st2 ?st3"
    by (rule adds_fold) (rule adds_tagged_weaken [OF tags_drop_route], simp)
  ultimately have "adds (tagged ?ts) st ?st3" by (rule adds_trans)
  then have "adds (lists t (relay_remove t s st)) st ?st3" by (rule lists_other) simp
  moreover have "adds (lists t (relay_remove t s st)) ?st3 (relay_remove t s st)"
    unfolding r by (rule lists_changed) simp
  ultimately show ?thesis by (rule adds_trans)
qed

lemma step_lists: "adds (lists (now e) (relay_step L e ev st)) st (relay_step L e ev st)"
proof (cases ev)
  case (TextFrame s m)
  have "adds (lists (now e) (relay_message L e s m st)) st (relay_message L e s m st)"
  proof (cases rule: relay_message_cases [of st L e s m])
    case quiet
    then show ?thesis by (rule lists_other) simp
  next
    case register
    then show ?thesis using lists_register by simp
  next
    case pair
    then show ?thesis by (intro lists_other [OF tags_pair_message]) (simp_all add: pair_statuses_def)
  next
    case list
    then show ?thesis using lists_directory by simp
  next
    case connect
    then show ?thesis using lists_other [OF tags_connect] by simp
  next
    case request
    then show ?thesis using lists_other [OF tags_request] by simp
  next
    case response
    then show ?thesis using lists_other [OF tags_response] by simp
  qed
  then show ?thesis by (simp add: TextFrame)
next
  case (Disconnected s)
  then show ?thesis using lists_remove by simp
next
  case (Accepted s)
  then show ?thesis using lists_other [OF tags_accept] by simp
next
  case (AuthAnswer s p)
  then show ?thesis using lists_other [OF tags_auth_done] by simp
next
  case Tick
  then show ?thesis using lists_other [OF tags_sweep] by simp
qed (simp_all add: adds_log tags_stop lists_def)

text \<open>
  C9: Whatever the event, a peer list is sent only to an authenticated socket, and it holds
  exactly the descriptors of the other live hosts of that socket's own account and service
  in the state after the event: none is missing and no other account's is in it.
\<close>

theorem directory_exact:
  assumes "relay_reach L st" and "event_ok ev st"
    and "Send c ob \<in> set (news st (relay_step L e ev st))"
    and "to_string (jval ob ''type'') = qs ''peers''"
  defines "st' \<equiv> relay_step L e ev st"
  shows "active (now e) st' c
    \<and> set (to_array (jval ob ''peers'')) = {JObj (s_descriptor (session_of st' h)) | h.
       h \<noteq> c \<and> has_key (sessions st') h
       \<and> reachable_host (now e) (session_of st' c) (session_of st' h)}"
proof -
  have "relay_inv st'" using assms(1,2) by (auto simp: st'_def intro: relay_inv_step reach_inv)
  then have ok: "table_ok (sessions st')" by (rule relay_inv_tables)
  have "lists (now e) st' (Send c ob)"
    using step_lists assms(3) unfolding st'_def by (rule adds_news)
  then have "Send c ob \<in> set (peers_out (now e) st' c)" using assms(4) by (simp add: lists_def)
  then show ?thesis using peers_out_reads [OF ok] by blast
qed

definition demo_list :: jobject where
  "demo_list = jobj [(''type'', jtext ''list'')]"

theorem directory_exact_witness:
  "sent_to ''peers'' '''' (news demo_ready (relay_step demo_lib (demo_env 1009) (TextFrame 2 demo_list) demo_ready)) \<noteq> None
   \<and> active 1009 (relay_step demo_lib (demo_env 1009) (TextFrame 2 demo_list) demo_ready) 2"
proof -
  have "map_option fst (sent_to ''peers'' '''' (news demo_ready
      (relay_step demo_lib (demo_env 1009) (TextFrame 2 demo_list) demo_ready))) = Some 2" by code_simp
  then obtain ob where s: "sent_to ''peers'' '''' (news demo_ready
      (relay_step demo_lib (demo_env 1009) (TextFrame 2 demo_list) demo_ready)) = Some (2, ob)" by auto
  show ?thesis
    using directory_exact [OF demo_ready_reach _ sent_toD(1,2) [OF s]] s by (simp add: demo_env_def)
qed

section \<open>Expiry and disconnection\<close>

lemma sweep_session_log: "log (sweep_session t s st) = log st @
    [if (account_id (principal_of st s) \<noteq> [] \<and> \<not> live t (principal_of st s))
        \<or> (account_id (principal_of st s) = [] \<and> t - s_connected (session_of st s) > 7000)
     then Close s 1008 ''Authentication expired'' else Ping s]"
  by (simp add: sweep_session_def Let_def principal_of_def)

lemma sweep_sessions_log:
  "set (log (fold (sweep_session t) ss st)) = set (log st) \<union>
     (\<lambda>s. if (account_id (principal_of st s) \<noteq> [] \<and> \<not> live t (principal_of st s))
        \<or> (account_id (principal_of st s) = [] \<and> t - s_connected (session_of st s) > 7000)
     then Close s 1008 ''Authentication expired'' else Ping s) ` set ss"
proof (induction ss arbitrary: st)
  case (Cons s ss)
  have "sessions (sweep_session t s st) = sessions st" by (simp add: sweep_frames)
  from principal_of_cong [OF this] session_of_cong [OF this] show ?case
    by (simp add: Cons.IH sweep_session_log)
qed simp

lemma sweep_closes:
  assumes "has_key (sessions st) s"
    and "(account_id (principal_of st s) \<noteq> [] \<and> \<not> live t (principal_of st s))
      \<or> (account_id (principal_of st s) = [] \<and> t - s_connected (session_of st s) > 7000)"
  shows "closed (relay_sweep t st) s"
proof -
  let ?s1 = "fold (sweep_offer t) (tkeys (offers st)) st"
  let ?s2 = "fold (sweep_pair t) (tkeys (pairs ?s1)) ?s1"
  let ?s3 = "fold (sweep_session t) (tkeys (sessions ?s2)) ?s2"
  have same: "sessions ?s2 = sessions st" by simp
  have "Close s 1008 ''Authentication expired'' \<in> set (log ?s3)"
    unfolding sweep_sessions_log
    using assms principal_of_cong [OF same] session_of_cong [OF same]
    by (auto simp: in_tkeys image_iff intro!: disjI2 bexI [of _ s])
  then have "closed ?s3 s" unfolding closed_def by blast
  moreover have "adds (\<lambda>_. True) ?s3 (relay_sweep t st)"
    unfolding relay_sweep_def Let_def by (rule adds_fold) (rule adds_sweep_bodies)
  ultimately show ?thesis by (auto dest: closed_adds)
qed

text \<open>
  After the half-second timer nothing expired is left: every remaining offer and pair is
  unexpired and all its parties are authenticated, every remaining route is within its time,
  and every connection whose account ran out, or that has not authenticated within seven
  seconds, has been closed.
\<close>

theorem sweep_leaves_nothing_expired:
  fixes e :: env
  assumes "relay_reach L st"
  defines "st' \<equiv> relay_step L e Tick st"
  shows "(\<forall>(k, off) \<in> set (offers st'). now e < o_expires off \<and> active (now e) st' (o_host off))
    \<and> (\<forall>(k, p) \<in> set (pairs st'). now e < p_expires p \<and> active (now e) st' (p_host p)
        \<and> active (now e) st' (p_client p))
    \<and> (\<forall>(k, r) \<in> set (routes st'). now e \<le> r_expires r)
    \<and> (\<forall>s. has_key (sessions st') s \<longrightarrow> \<not> closed st' s \<longrightarrow>
        active (now e) st' s \<or> (account_id (principal_of st' s) = []
          \<and> now e - s_connected (session_of st' s) \<le> 7000))"
proof -
  note tabs = relay_inv_tables [OF reach_inv [OF assms(1)]]
  have same: "sessions st' = sessions st" by (simp add: st'_def)
  note cong = principal_of_cong [OF same] session_of_cong [OF same] active_cong [OF same]
  have "\<forall>s. has_key (sessions st') s \<longrightarrow> \<not> closed st' s \<longrightarrow>
        active (now e) st' s \<or> (account_id (principal_of st' s) = []
          \<and> now e - s_connected (session_of st' s) \<le> 7000)"
  proof (intro allI impI)
    fix s
    assume s: "has_key (sessions st') s" "\<not> closed st' s"
    then have "\<not> ((account_id (principal_of st s) \<noteq> [] \<and> \<not> live (now e) (principal_of st s))
      \<or> (account_id (principal_of st s) = [] \<and> now e - s_connected (session_of st s) > 7000))"
      using sweep_closes [of st s "now e"] by (auto simp: st'_def)
    then show "active (now e) st' s \<or> (account_id (principal_of st' s) = []
          \<and> now e - s_connected (session_of st' s) \<le> 7000)"
      using s(1) by (auto simp: cong same active_def principal_of_def)
  qed
  moreover have "offers st' = filter (\<lambda>(k, off). \<not> (o_expires off \<le> now e
      \<or> \<not> active (now e) st (o_host off))) (offers st)"
    "pairs st' = filter (\<lambda>(k, p). \<not> (p_expires p \<le> now e
      \<or> \<not> active (now e) st (p_host p) \<or> \<not> active (now e) st (p_client p))) (pairs st)"
    "routes st' = filter (\<lambda>(k, r). \<not> r_expires r < now e) (routes st)"
    using tabs by (simp_all add: st'_def relay_closed)
  then have "\<forall>(k, off) \<in> set (offers st'). now e < o_expires off \<and> active (now e) st' (o_host off)"
    "\<forall>(k, p) \<in> set (pairs st'). now e < p_expires p \<and> active (now e) st' (p_host p)
        \<and> active (now e) st' (p_client p)"
    "\<forall>(k, r) \<in> set (routes st'). now e \<le> r_expires r"
    by (simp_all only: cong) (simp_all add: split_def not_le not_less)
  ultimately show ?thesis by blast
qed

theorem sweep_leaves_nothing_expired_witness:
  "length (offers (relay_step demo_lib (demo_env 1010) Tick demo_offered)) = 1
   \<and> 1010 < o_expires (snd (hd (offers (relay_step demo_lib (demo_env 1010) Tick demo_offered))))"
proof -
  let ?os = "offers (relay_step demo_lib (demo_env 1010) Tick demo_offered)"
  have one: "length ?os = 1" by code_simp
  then obtain k off where os: "?os = [(k, off)]" by (cases ?os) auto
  then have "1010 < o_expires off"
    using sweep_leaves_nothing_expired [OF demo_offered_reach, of "demo_env 1010"]
    by (simp add: demo_env_def)
  then show ?thesis using os by simp
qed

lemma loop_news_in:
  assumes "log st' = log st @ concat (map f t)" "e \<in> set t" "ev \<in> set (f e)"
  shows "ev \<in> set (news st st')"
  using assms by auto

text \<open>
  When a socket disconnects, the relay afterwards has no session, offer, pair or route
  that mentions it and has kept all others unchanged, and every other client that was
  waiting for a response from it has been told that the host is offline.
\<close>

theorem disconnect_releases:
  fixes e :: env and s :: sock
  assumes "relay_reach L st"
  defines "st' \<equiv> relay_step L e (Disconnected s) st"
  shows "sessions st' = tdel s (sessions st)
    \<and> offers st' = filter (\<lambda>(k, off). o_host off \<noteq> s) (offers st)
    \<and> pairs st' = filter (\<lambda>(k, p). p_host p \<noteq> s \<and> p_client p \<noteq> s) (pairs st)
    \<and> routes st' = filter (\<lambda>(k, r). r_host r \<noteq> s \<and> r_client r \<noteq> s) (routes st)
    \<and> (\<forall>(k, r) \<in> set (routes st). r_host r = s \<longrightarrow>
        Send (r_client r) (relay_answer ''host_offline'' (r_id r)) \<in> set (news st st'))"
proof -
  note inv = reach_inv [OF assms(1)]
  note tabs = relay_inv_tables [OF inv]
  have links: "links_ok st" using inv by (simp add: relay_inv_def)
  let ?c = "cancel_pairing s [] st"
  let ?st2 = "?c\<lparr>sessions := tdel s (sessions ?c)\<rparr>"
  let ?st3 = "fold (drop_route s) (tkeys (routes ?st2)) ?st2"
  have st': "st' = changed (now e) ?st3" by (simp add: st'_def relay_remove_def Let_def)
  have told: "Send (r_client r) (relay_answer ''host_offline'' (r_id r)) \<in> set (news st st')"
    if "(k, r) \<in> set (routes st)" "r_host r = s" for k r
  proof -
    have "has_key (sessions st) (r_client r)" "r_client r \<noteq> s"
      using links_okD(3) [OF links that(1)] that(2) by (auto simp: linked_def)
    then have out: "drop_outs s ?st2 k r = [Send (r_client r) (relay_answer ''host_offline'' (r_id r))]"
      by (simp add: drop_outs_def relay_answer_def)
    have "log ?st3 = log ?st2 @ concat (map (\<lambda>(k, v). if r_client v = s \<or> r_host v = s
        then drop_outs s ?st2 k v else []) (routes ?st2))"
      by (rule route_drop.loop_log) (simp add: tabs)
    then have "Send (r_client r) (relay_answer ''host_offline'' (r_id r)) \<in> set (news ?st2 ?st3)"
      by (rule loop_news_in [where e = "(k, r)"]) (use that out in simp_all)
    moreover have "set (news ?st2 ?st3) \<subseteq> set (news st st')"
    proof -
      have "log ?st2 = log st @ cancel_outs s [] st" by (simp add: relay_closed tabs)
      moreover obtain l where "log ?st3 = log ?st2 @ l"
        using route_drop.loop_log [of ?st2 s] tabs by auto
      ultimately show ?thesis by (auto simp: news_def st' changed_closed)
    qed
    ultimately show ?thesis by blast
  qed
  have r: "routes st' = filter (\<lambda>(k, r). r_host r \<noteq> s \<and> r_client r \<noteq> s) (routes st)"
    using relay_remove_routes [OF tabs(2), of "now e" s] by (auto simp: st'_def intro: filter_cong)
  have "offers st' = filter (\<lambda>(k, off). o_host off \<noteq> s) (offers st)"
    "pairs st' = filter (\<lambda>(k, p). p_host p \<noteq> s \<and> p_client p \<noteq> s) (pairs st)"
    by (auto simp: st' relay_closed tabs offer_hit_def pair_hit_def intro!: filter_cong)
  moreover have "sessions st' = tdel s (sessions st)" by (simp add: st')
  ultimately show ?thesis using r told by blast
qed

theorem disconnect_releases_witness:
  "routes (relay_step demo_lib (demo_env 1009) (Disconnected 1) demo_routed) = []
   \<and> Send 2 (relay_answer ''host_offline'' (qs ''r1''))
       \<in> set (news demo_routed (relay_step demo_lib (demo_env 1009) (Disconnected 1) demo_routed))"
proof -
  have r: "map (\<lambda>(k, r). (r_client r, r_host r, r_id r)) (routes demo_routed) = [(2, 1, qs ''r1'')]"
    by code_simp
  then obtain k q where q: "routes demo_routed = [(k, q)]" "r_client q = 2" "r_host q = 1" "r_id q = qs ''r1''"
    by auto
  show ?thesis
    using disconnect_releases [OF demo_routed_reach, of "demo_env 1009" 1] q by auto
qed

section \<open>The attempt limit\<close>

text \<open>How many of a socket's attempts at the given times pass the limit of six per window.\<close>

fun admissions :: "session \<Rightarrow> msecs list \<Rightarrow> nat" where
  "admissions x [] = 0"
| "admissions x (t # ts) =
     (let y = count_attempt t x in (if s_attempts y \<le> 6 then 1 else 0) + admissions y ts)"

lemma count_attempt_new:
  "s_window x = None \<or> (\<exists>w. s_window x = Some w \<and> t - w \<ge> 30000) \<Longrightarrow>
     s_window (count_attempt t x) = Some t \<and> s_attempts (count_attempt t x) = 1"
  by (auto simp: count_attempt_def Let_def)

lemma count_attempt_old:
  "s_window x = Some w \<Longrightarrow> t - w < 30000 \<Longrightarrow>
     s_window (count_attempt t x) = Some w \<and> s_attempts (count_attempt t x) = Suc (s_attempts x)"
  by (auto simp: count_attempt_def Let_def)

lemma admissions_in_window:
  assumes "s_window x = Some w" "\<forall>t \<in> set ts. t - w < 30000"
  shows "admissions x ts \<le> 6 - s_attempts x"
  using assms
proof (induction ts arbitrary: x)
  case (Cons t ts)
  let ?y = "count_attempt t x"
  have y: "s_window ?y = Some w" "s_attempts ?y = Suc (s_attempts x)"
    using count_attempt_old Cons.prems by auto
  have "admissions ?y ts \<le> 6 - s_attempts ?y" using Cons.IH [OF y(1)] Cons.prems(2) by simp
  then show ?case using y(2) by (auto simp: Let_def)
qed simp

lemma admissions_two_windows:
  assumes "\<forall>t \<in> set ts. a \<le> t \<and> t < a + 30000"
  shows "admissions x ts \<le> (case s_window x of None \<Rightarrow> 6 | Some w \<Rightarrow> 6 - s_attempts x + 6)"
  using assms
proof (induction ts arbitrary: x)
  case (Cons t ts)
  let ?y = "count_attempt t x"
  show ?case
  proof (cases "s_window x = None \<or> (\<exists>w. s_window x = Some w \<and> t - w \<ge> 30000)")
    case True
    then have y: "s_window ?y = Some t" "s_attempts ?y = 1" using count_attempt_new by blast+
    have "admissions ?y ts \<le> 6 - s_attempts ?y"
      by (rule admissions_in_window [OF y(1)]) (use Cons.prems in force)
    then show ?thesis using y(2) by (auto simp: Let_def split: option.split)
  next
    case False
    then obtain w where w: "s_window x = Some w" "t - w < 30000"
      by (cases "s_window x") (auto simp: not_le)
    then have y: "s_window ?y = Some w" "s_attempts ?y = Suc (s_attempts x)"
      using count_attempt_old by blast+
    have "admissions ?y ts \<le> 6 - s_attempts ?y + 6"
      using Cons.IH [of ?y] Cons.prems y(1) by simp
    then show ?thesis using w(1) y(2) by (auto simp: Let_def)
  qed
qed (simp split: option.split)

text \<open>
  The counter admits a session at most six pairing attempts in its current 30-second
  window, and at most twelve in any 30 seconds whatever the times of the attempts are.
\<close>

theorem attempt_limit:
  assumes "\<forall>t \<in> set ts. a \<le> t \<and> t < a + 30000"
  shows "admissions x ts \<le> 12
    \<and> (\<forall>w. s_window x = Some w \<longrightarrow> w \<le> a \<longrightarrow> (\<forall>t \<in> set ts. t < w + 30000) \<longrightarrow>
        admissions x ts \<le> 6 - s_attempts x)"
proof -
  have "admissions x ts \<le> 12"
    using admissions_two_windows [OF assms, of x] by (simp split: option.splits)
  moreover have "admissions x ts \<le> 6 - s_attempts x"
    if "s_window x = Some w" "\<forall>t \<in> set ts. t < w + 30000" for w
    by (rule admissions_in_window [OF that(1)]) (use that(2) in force)
  ultimately show ?thesis by blast
qed

theorem attempt_limit_witness:
  "admissions (new_session 0) (replicate 9 1000) = 6 \<and> admissions (new_session 0) (replicate 9 1000) \<le> 12"
proof -
  have "admissions (new_session 0) (replicate 9 1000) = 6" by code_simp
  then show ?thesis using attempt_limit [of "replicate 9 1000" 1000 "new_session 0"] by simp
qed

text \<open>
  The window of the limit is fixed, not sliding: a session that made one attempt can have
  eleven more admitted within 100 milliseconds around the end of the window, although the
  documented limit is six in 30 seconds.
\<close>

theorem attempt_limit_bursts:
  "\<exists>x ts. x = count_attempt 1000 (new_session 0) \<and> sorted ts
     \<and> last ts - hd ts < 100 \<and> length ts = 11 \<and> admissions x ts = 11"
proof (intro exI conjI)
  let ?x = "count_attempt 1000 (new_session 0)"
  let ?ts = "replicate 5 (30950 :: int) @ replicate 6 31000"
  show "?x = ?x" ..
  show "sorted ?ts" "last ?ts - hd ?ts < 100" "length ?ts = 11" by (simp_all add: numeral_eq_Suc)
  show "admissions ?x ?ts = 11" by code_simp
qed

section \<open>A request and its response\<close>

text \<open>
  A request goes through and comes back: when a registered client asks a live host of its
  account for something while it has fewer than 32 and the relay fewer than 1024 open
  requests, the host is the only one to get a message, with the client's payload; and when
  that host then answers under the identifier it was given, with client and host still
  authenticated, the client is the only one to get a message, with the host's result under
  the client's own request id, and the route is gone.
\<close>

theorem request_response_roundtrip:
  assumes "relay_reach L st" and "admitted (now e) st s"
    and "to_string (jval q ''type'') = qs ''request''"
    and "identifier_ok (to_string (jval q ''id''))" and "is_object (jval q ''payload'')"
    and "target (now e) st s (to_string (jval q ''peerId'')) = Some h"
    and "client_routes st s < 32" and "length (routes st) < 1024"
    and "sent = relay_step L e (TextFrame s q) st"
    and "to_string (jval a ''type'') = qs ''response''" and "to_string (jval a ''id'') = fresh e"
    and "active (now e') st h" and "active (now e') st s"
    and "answered = relay_step L e' (TextFrame h a) sent"
  shows "news st sent = [Send h (jobj [(''type'', jtext ''request''), (''id'', JStr (fresh e)),
      (''peerId'', JStr (s_id (session_of st s))), (''payload'', jval q ''payload'')])]
    \<and> news sent answered = [Send s (jobj [(''type'', jtext ''response''),
      (''id'', JStr (to_string (jval q ''id''))), (''result'', jval a ''result'')])]
    \<and> tget (routes answered) (fresh e) = None"
proof -
  note inv = reach_inv [OF assms(1)]
  have key: "has_key (sessions st) s" "s_id (session_of st s) \<noteq> []" "active (now e) st s"
    using assms(2) by (auto simp: admitted_def active_def)
  let ?r = "\<lparr>r_client = s, r_host = h, r_id = to_string (jval q ''id''), r_expires = now e + 15000\<rparr>"
  have no_pair: "pair_message L e'' s' m st' = None"
    if "to_string (jval m ''type'') \<in> {qs ''request'', qs ''response''}" for e'' s' m st'
    using that by (auto simp: pair_message_def Let_def starts_with_def qs_def)
  have sent: "sent = send_to h [(''type'', jtext ''request''), (''id'', JStr (fresh e)),
      (''peerId'', JStr (s_id (session_of st s))), (''payload'', jval q ''payload'')]
      (st\<lparr>routes := tput (fresh e) ?r (routes st)\<rparr>)"
    using assms(3-9) key no_pair [of q] by (simp add: relay_message_def Let_def request_message_def)
  have h: "has_key (sessions st) h" "s_id (session_of st h) \<noteq> []"
    using targets_linked(1) [OF inv key(1,2) assms(6)] by (auto simp: linked_def)
  have answered: "answered = send_to s [(''type'', jtext ''response''),
      (''id'', JStr (to_string (jval q ''id''))), (''result'', jval a ''result'')]
      (sent\<lparr>routes := tdel (fresh e) (routes sent)\<rparr>)"
    using assms(10-14) h key no_pair [of a]
    by (simp add: sent relay_message_def Let_def response_message_def)
  show ?thesis by (simp add: answered) (simp add: sent news_def)
qed

theorem request_response_roundtrip_witness:
  "\<exists>sent answered. sent = demo_routed
     \<and> answered = relay_step demo_lib (demo_env 1007) (TextFrame 1 demo_response) sent
     \<and> news sent answered = [Send 2 (jobj [(''type'', jtext ''response''), (''id'', jtext ''r1''),
          (''result'', JBool True)])]"
proof -
  have "let st = demo_ready in admitted 1006 st 2 \<and> target 1006 st 2 (qs ''host'') = Some 1
      \<and> client_routes st 2 < 32 \<and> length (routes st) < 1024
      \<and> active 1007 st 1 \<and> active 1007 st 2 \<and> identifier_ok (qs ''r1'')" by code_simp
  then show ?thesis
    using request_response_roundtrip [OF demo_ready_reach, where e = "demo_env 1006" and s = 2
      and q = demo_request and h = 1 and sent = demo_routed and a = demo_response
      and e' = "demo_env 1007"]
    by (simp add: Let_def demo_env_def demo_request_def demo_response_def demo_routed_def)
qed

end
