(* ===== verification/LocalFiles.thy ===== *)
theory LocalFiles
  imports Platform
begin

text \<open>
  The local files and processes as \<open>src/Transfer.cpp\<close> and \<open>src/StorageBridge.cpp\<close> see them
  through \<open>QFileInfo\<close>, \<open>QDir\<close> and \<open>QStandardPaths\<close>: one record of accessors that the
  operations take as an argument, read at the time of the operation. The two anchored
  patterns these files share are here too.
\<close>

record files =
  fi_absolute :: "qstring \<Rightarrow> bool"
  fi_file :: "qstring \<Rightarrow> bool"
  fi_dir :: "qstring \<Rightarrow> bool"
  fi_symlink :: "qstring \<Rightarrow> bool"
  fi_readable :: "qstring \<Rightarrow> bool"
  fi_executable :: "qstring \<Rightarrow> bool"
  fi_others :: "qstring \<Rightarrow> bool" \<comment> \<open>some permission is granted to the group or to others\<close>
  fi_canonical :: "qstring \<Rightarrow> qstring" \<comment> \<open>\<open>canonicalFilePath\<close>\<close>
  fi_absolute_path :: "qstring \<Rightarrow> qstring" \<comment> \<open>\<open>absoluteFilePath\<close>\<close>
  fi_clean :: "qstring \<Rightarrow> qstring" \<comment> \<open>\<open>QDir::cleanPath\<close>\<close>
  fi_rclone :: qstring \<comment> \<open>\<^verbatim>\<open>QStandardPaths::findExecutable("rclone")\<close>\<close>
  fi_null :: qstring \<comment> \<open>\<open>QProcess::nullDevice\<close>\<close>
  fi_system_env :: "(qstring, qstring) table"

text \<open>
  \<^verbatim>\<open>$\<close> in a \<open>QRegularExpression\<close> without options: the end of the text, or before a line feed
  that ends it.
\<close>

definition at_end :: "qstring \<Rightarrow> bool" where
  "at_end s \<longleftrightarrow> s = [] \<or> s = [10]"

lemma at_end_simps [simp]: "at_end []" "at_end (u # s) \<longleftrightarrow> u = 10 \<and> s = []"
  by (auto simp: at_end_def)

text \<open>The class \<^verbatim>\<open>[A-Za-z0-9_-]\<close>.\<close>

definition word_char :: "qchar \<Rightarrow> bool" where
  "word_char u \<longleftrightarrow> is_alnum u \<or> u \<in> set (qs ''_-'')"

text \<open>A directory tree for examples: everything is absolute, private and its own canonical path.\<close>

definition demo_host :: files where
  "demo_host = \<lparr>fi_absolute = (\<lambda>p. take 1 p = qs ''/''), fi_file = (\<lambda>p. True), fi_dir = (\<lambda>p. True),
     fi_symlink = (\<lambda>p. False), fi_readable = (\<lambda>p. True), fi_executable = (\<lambda>p. True),
     fi_others = (\<lambda>p. False), fi_canonical = (\<lambda>p. p), fi_absolute_path = (\<lambda>p. p),
     fi_clean = (\<lambda>p. p), fi_rclone = qs ''/bin/rclone'', fi_null = qs ''/dev/null'',
     fi_system_env = [(qs ''PATH'', qs ''/bin''), (qs ''RCLONE_CONFIG'', qs ''/home/c'')]\<rparr>"

end
