(* ===== verification/Jobs.thy ===== *)
theory Jobs
  imports Platform "HOL-Library.Multiset"
begin

text \<open>
  The contract of a service that issues an identifier for every start and reports its
  completion later: \<open>FileTransfer\<close> and \<open>StorageBridge\<close> both keep it. A step issues new
  identifiers and completes others; \<open>held\<close> are the identifiers a state still owes a
  completion, \<open>running\<close> those among them that count against the limit.
\<close>

type_synonym 's job_step = "'s \<Rightarrow> qstring list \<Rightarrow> qstring list \<Rightarrow> 's \<Rightarrow> bool"

lemma map_filter_Nil [simp]: "List.map_filter f [] = []"
  by (simp add: List.map_filter_def)

lemma map_filter_append [simp]: "List.map_filter f (a @ b) = List.map_filter f a @ List.map_filter f b"
  by (simp add: List.map_filter_def)

lemma map_filter_one [simp]: "List.map_filter f [x] = (case f x of None \<Rightarrow> [] | Some y \<Rightarrow> [y])"
  by (simp add: List.map_filter_def split: option.split)

lemma tkeys_tput: "tkeys (tput k v t) = (if has_key t k then tkeys t else tkeys t @ [k])"
  by (simp add: tkeys_def tput_def AList.update_keys has_key_def tget_def map_of_eq_None_iff)

lemma mset_tkeys_tdel:
  "distinct (tkeys t) \<Longrightarrow> has_key t k \<Longrightarrow> mset (tkeys t) = add_mset k (mset (tkeys (tdel k t)))"
proof (induction t)
  case (Cons e t)
  show ?case
  proof (cases "fst e = k")
    case True
    then have "\<not> has_key t k" using Cons.prems(1) by (simp add: in_tkeys [symmetric]) (simp add: tkeys_def)
    then have "tdel k t = t" by (simp add: tdel_absent has_key_def)
    then show ?thesis using True by (cases e) (simp add: tdel_def tkeys_def)
  next
    case False
    then show ?thesis using Cons by (cases e) (auto simp: tdel_def tkeys_def has_key_def tget_def)
  qed
qed simp

lemma held_key: "tkeys t \<noteq> [] \<Longrightarrow> \<exists>k. has_key t k"
  unfolding in_tkeys [symmetric] using hd_in_set by blast

text \<open>Runs of such a service, with everything issued and completed; identifiers are fresh.\<close>

inductive job_run :: "'s job_step \<Rightarrow> 's \<Rightarrow> qstring list \<Rightarrow> qstring list \<Rightarrow> 's \<Rightarrow> bool"
  for step s0 where
  run_start: "job_run step s0 [] [] s0"
| run_step: "job_run step s0 issued gone s \<Longrightarrow> step s new fin s' \<Longrightarrow> distinct new \<Longrightarrow>
     set new \<inter> set issued = {} \<Longrightarrow> job_run step s0 (issued @ new) (gone @ fin) s'"

locale job_service =
  fixes step :: "'s job_step"
    and s0 :: 's
    and held :: "'s \<Rightarrow> qstring list"
    and running :: "'s \<Rightarrow> nat"
    and limit :: nat
    and inv :: "qstring list \<Rightarrow> 's \<Rightarrow> bool" \<comment> \<open>of the issued identifiers and the state\<close>
    and rank :: "'s \<Rightarrow> nat"
  assumes held_start: "held s0 = []"
    and running_start: "running s0 = 0"
    and inv_start: "inv [] s0"
    and inv_step: "step s new fin s' \<Longrightarrow> inv issued s \<Longrightarrow> distinct new \<Longrightarrow>
          set new \<inter> set issued = {} \<Longrightarrow> inv (issued @ new) s'"
    and conserves: "step s new fin s' \<Longrightarrow> inv issued s \<Longrightarrow> distinct (held s) \<Longrightarrow> distinct new \<Longrightarrow>
          set new \<inter> set issued = {} \<Longrightarrow> set (held s) \<subseteq> set issued \<Longrightarrow>
          mset fin + mset (held s') = mset new + mset (held s)"
    and limited: "step s new fin s' \<Longrightarrow> inv issued s \<Longrightarrow> running s \<le> limit \<Longrightarrow> running s' \<le> limit"
    and progress: "held s \<noteq> [] \<Longrightarrow> inv issued s \<Longrightarrow>
          \<exists>fin s'. step s [] fin s' \<and> (fin \<noteq> [] \<or> rank s' < rank s)"
begin

lemma accounting:
  "job_run step s0 issued gone s \<Longrightarrow>
     distinct issued \<and> mset gone + mset (held s) = mset issued \<and> running s \<le> limit \<and> inv issued s"
proof (induction rule: job_run.induct)
  case run_start
  then show ?case by (simp add: held_start running_start inv_start)
next
  case (run_step issued gone s new fin s')
  have "distinct issued" and sum: "mset gone + mset (held s) = mset issued" and inv: "inv issued s"
    using run_step.IH by simp_all
  then have all: "mset (gone @ held s) = mset issued" by simp
  then have "distinct (gone @ held s)" using \<open>distinct issued\<close> mset_eq_imp_distinct_iff by blast
  then have held: "distinct (held s)" by simp
  have sub: "set (held s) \<subseteq> set issued" using all by (metis set_append set_mset_mset sup_ge2)
  have "mset fin + mset (held s') = mset new + mset (held s)"
    using conserves [OF run_step.hyps(2) inv held run_step.hyps(3,4) sub] .
  then have "mset (gone @ fin) + mset (held s') = mset (issued @ new)"
    using sum by (metis (no_types, lifting) add.assoc add.commute mset_append)
  moreover have "distinct (issued @ new)" using run_step \<open>distinct issued\<close> by auto
  ultimately show ?case
    using limited [OF run_step.hyps(2) inv] inv_step [OF run_step.hyps(2) inv run_step.hyps(3,4)] run_step.IH
    by simp
qed

text \<open>No identifier completes twice, and none completes that was not issued.\<close>

lemma completes_once:
  assumes "job_run step s0 issued gone s"
  shows "distinct gone \<and> set gone \<inter> set (held s) = {} \<and> set gone \<union> set (held s) = set issued"
proof -
  note a = accounting [OF assms]
  have perm: "mset (gone @ held s) = mset issued" using a by simp
  then have "distinct (gone @ held s)" using a mset_eq_imp_distinct_iff by blast
  moreover have "set (gone @ held s) = set issued" using perm by (metis set_mset_mset)
  ultimately show ?thesis by auto
qed

text \<open>Whatever is owed can still be delivered, by steps that issue nothing new.\<close>

lemma can_drain:
  "job_run step s0 issued gone s \<Longrightarrow> \<exists>rest s'. job_run step s0 issued (gone @ rest) s' \<and> held s' = []"
proof (induction s arbitrary: gone rule: wf_induct_rule [OF wf_measures [of "[\<lambda>s. length (held s), rank]"]])
  case (1 s)
  show ?case
  proof (cases "held s = []")
    case True
    then show ?thesis using "1.prems" by (metis append_Nil2)
  next
    case False
    then obtain fin s' where st: "step s [] fin s'" "fin \<noteq> [] \<or> rank s' < rank s"
      using progress accounting [OF "1.prems"] by blast
    have run: "job_run step s0 issued (gone @ fin) s'"
      using job_run.run_step [OF "1.prems" st(1)] by simp
    have "mset (gone @ fin @ held s') = mset (gone @ held s)"
      using accounting [OF run] accounting [OF "1.prems"] by (simp add: add.assoc)
    then have "length (gone @ fin @ held s') = length (gone @ held s)" by (rule mset_eq_length)
    then have "(s', s) \<in> measures [\<lambda>s. length (held s), rank]" using st(2) by (cases fin) auto
    from "1.IH" [OF this run] show ?thesis by (metis append.assoc)
  qed
qed

end

end
