(* ===== verification/Peer.thy ===== *)
theory Peer
  imports Protocol LocalFiles Jobs
begin

text \<open>
  \<open>src/Peer.cpp\<close>: a peer of the account relay. It keeps one connection to the relay, the
  requests of the application, the tickets and links of direct connections to other peers and
  the attempts to open such links. Every slot, timer and method is a function from state to
  state; what it sends, opens, closes or emits is appended to \<open>out\<close>. \<open>peer_env\<close> holds what one
  event gets from outside: the clock, fresh identifiers and sockets, whether a send was taken,
  the application's handler and the network interfaces.
\<close>

section \<open>State\<close>

datatype transport = Remote | Local

record pending =
  n_peer :: qstring
  n_payload :: jobject
  n_transport :: "transport option"
  n_socket :: "sock option"
  n_deadline :: msecs

record ticket =
  t_peer :: qstring
  t_expires :: msecs

record peer_link =
  l_peer :: qstring
  l_ticket :: qstring
  l_fingerprint :: qstring
  l_expires :: msecs
  l_deadline :: msecs
  l_outgoing :: bool
  l_authenticated :: bool

record attempt =
  m_urls :: "qstring list"
  m_ticket :: qstring
  m_fingerprint :: qstring
  m_expires :: msecs

record peer_options =
  g_relay_url :: qurl
  g_credential :: bytes
  g_peer_id :: qstring
  g_name :: qstring
  g_service :: qstring
  g_metadata :: jobject
  g_host_files :: bool
  g_local_enabled :: bool
  g_local_hosting :: bool
  g_listen_address :: address
  g_local_identity :: bool \<comment> \<open>\<open>hasIdentity(localTls)\<close>\<close>
  g_fingerprint :: qstring \<comment> \<open>\<open>certificateFingerprint(localTls)\<close>\<close>
  g_local_addresses :: "qstring list"
  g_local_timeout :: int
  g_request_timeout :: int

text \<open>Work a zero timer will do.\<close>

datatype later =
    StartRequest qstring
  | RefuseRequest qstring
  | NextLocal qstring
  | PairingError qstring

datatype effect =
    RelaySend jobject
  | RelayOpen
  | RelayAbort
  | LinkSend sock jobject
  | LinkOpen sock qurl
  | LinkClose sock int
  | LinkAbort sock
  | Completed qstring jobject "transport option"
  | StateChanged
  | PeersChanged
  | PairingEvent jobject

record peer =
  options :: peer_options
  hosting :: bool \<comment> \<open>a handler is set\<close>
  listening :: "int option" \<comment> \<open>the port of the local server\<close>
  requests :: "(qstring, pending) table"
  tickets :: "(qstring, ticket) table"
  links :: "(sock, peer_link) table"
  outbound :: "(qstring, sock) table"
  attempts :: "(qstring, attempt) table"
  connecting :: "qstring list"
  retrying :: bool
  directory :: "json list"
  account :: qstring
  peer_error :: qstring
  running :: bool
  ready :: bool
  fatal :: bool
  backoff :: int
  laters :: "later list"
  out :: "effect list"

record peer_env =
  e_now :: msecs
  e_fresh :: qstring
  e_sock :: sock
  e_relay_takes :: "jobject \<Rightarrow> bool"
  e_link_takes :: "sock \<Rightarrow> jobject \<Rightarrow> bool"
  e_handle :: "qstring \<Rightarrow> jobject \<Rightarrow> jobject option" \<comment> \<open>\<open>None\<close> when the handler throws\<close>
  e_interfaces :: "interface list"
  e_contains :: "address \<Rightarrow> nat \<Rightarrow> address \<Rightarrow> bool" \<comment> \<open>\<open>IpSubnet::contains\<close>\<close>
  e_build_url :: "string \<Rightarrow> qstring \<Rightarrow> int \<Rightarrow> qstring" \<comment> \<open>\<open>QUrl\<close> of scheme, host and port\<close>
  e_payload_bytes :: "jobject \<Rightarrow> int" \<comment> \<open>size of the compact JSON text\<close>

definition put_out :: "effect \<Rightarrow> peer \<Rightarrow> peer" where
  "put_out x st = st\<lparr>out := out st @ [x]\<rparr>"

text \<open>\<open>send\<close> on the relay connection and on a link: whether the socket takes the frame.\<close>

definition relay_send :: "peer_env \<Rightarrow> jobject \<Rightarrow> peer \<Rightarrow> bool \<times> peer" where
  "relay_send e m st = (if e_relay_takes e m then (True, put_out (RelaySend m) st) else (False, st))"

definition link_send :: "peer_env \<Rightarrow> sock \<Rightarrow> jobject \<Rightarrow> peer \<Rightarrow> bool \<times> peer" where
  "link_send e s m st = (if e_link_takes e s m then (True, put_out (LinkSend s m) st) else (False, st))"

section \<open>Requests\<close>

definition finish :: "qstring \<Rightarrow> jobject \<Rightarrow> peer \<Rightarrow> peer" where
  "finish rid result st =
     (case tget (requests st) rid of
        None \<Rightarrow> st
      | Some r \<Rightarrow> put_out (Completed rid result (n_transport r)) (st\<lparr>requests := tdel rid (requests st)\<rparr>))"

definition abandon :: "qstring \<Rightarrow> peer \<Rightarrow> peer" where
  "abandon peer st = st\<lparr>connecting := filter (\<lambda>p. p \<noteq> peer) (connecting st), attempts := tdel peer (attempts st)\<rparr>"

text \<open>The bodies of the two dispatch loops: an unsent request of the peer is sent, once.\<close>

definition remote_one :: "peer_env \<Rightarrow> qstring \<Rightarrow> qstring \<Rightarrow> peer \<Rightarrow> peer" where
  "remote_one e peer rid st =
     (case tget (requests st) rid of
        None \<Rightarrow> st
      | Some r \<Rightarrow>
          if n_peer r \<noteq> peer \<or> n_transport r \<noteq> None then st
          else
            let st = st\<lparr>requests := tput rid (r\<lparr>n_transport := Some Remote\<rparr>) (requests st)\<rparr> in
            case relay_send e (jobj [(''type'', jtext ''request''), (''id'', JStr rid), (''peerId'', JStr peer),
                (''payload'', JObj (n_payload r))]) st of
              (ok, st) \<Rightarrow> if ok then st else finish rid (error_object ''connection_lost'') st)"

definition remote :: "peer_env \<Rightarrow> qstring \<Rightarrow> peer \<Rightarrow> peer" where
  "remote e peer st = (let st = abandon peer st in fold (remote_one e peer) (tkeys (requests st)) st)"

definition local_one :: "peer_env \<Rightarrow> sock \<Rightarrow> qstring \<Rightarrow> qstring \<Rightarrow> peer \<Rightarrow> peer" where
  "local_one e s peer rid st =
     (case tget (requests st) rid of
        None \<Rightarrow> st
      | Some r \<Rightarrow>
          if n_peer r \<noteq> peer \<or> n_transport r \<noteq> None then st
          else
            let st = st\<lparr>requests := tput rid (r\<lparr>n_transport := Some Local, n_socket := Some s\<rparr>) (requests st)\<rparr> in
            case link_send e s (jobj [(''type'', jtext ''request''), (''id'', JStr rid),
                (''payload'', JObj (n_payload r))]) st of
              (ok, st) \<Rightarrow> if ok then st else finish rid (error_object ''connection_lost'') st)"

definition local :: "peer_env \<Rightarrow> sock \<Rightarrow> peer \<Rightarrow> peer" where
  "local e s st =
     (case tget (links st) s of
        None \<Rightarrow> st
      | Some l \<Rightarrow>
          if \<not> l_authenticated l then st
          else
            let st = abandon (l_peer l) st
            in fold (local_one e s (l_peer l)) (tkeys (requests st)) st)"

definition usable_link :: "peer_env \<Rightarrow> qstring \<Rightarrow> peer \<Rightarrow> sock option" where
  "usable_link e peer st =
     (case tget (outbound st) peer of
        None \<Rightarrow> None
      | Some s \<Rightarrow>
          case tget (links st) s of
            None \<Rightarrow> None
          | Some l \<Rightarrow> if l_authenticated l \<and> l_expires l > e_now e then Some s else None)"

definition start_request :: "peer_env \<Rightarrow> qstring \<Rightarrow> peer \<Rightarrow> peer" where
  "start_request e rid st =
     (case tget (requests st) rid of
        None \<Rightarrow> st
      | Some r \<Rightarrow>
          let peer = n_peer r in
          if \<not> ready st then finish rid (error_object ''not_connected'') st
          else if \<not> list_ex (\<lambda>d. jval (to_object d) ''peerId'' = JStr peer) (directory st)
          then finish rid (error_object ''host_unavailable'') st
          else case usable_link e peer st of
              Some s \<Rightarrow> local e s st
            | None \<Rightarrow>
                if \<not> g_local_enabled (options st) then remote e peer st
                else if peer \<in> set (connecting st) then st
                else snd (relay_send e (jobj [(''type'', jtext ''connect''), (''peerId'', JStr peer)])
                  (st\<lparr>connecting := connecting st @ [peer]\<rparr>)))"

section \<open>Links\<close>

definition finish_all :: "string \<Rightarrow> qstring list \<Rightarrow> peer \<Rightarrow> peer" where
  "finish_all code = fold (\<lambda>rid. finish rid (error_object code))"

definition lost :: "sock \<Rightarrow> peer \<Rightarrow> peer" where
  "lost s st =
     (case tget (links st) s of
        None \<Rightarrow> st
      | Some l \<Rightarrow>
          let st = st\<lparr>links := tdel s (links st),
                outbound := (if tget (outbound st) (l_peer l) = Some s then tdel (l_peer l) (outbound st)
                  else outbound st)\<rparr>;
              st = put_out (LinkAbort s) st;
              st = finish_all ''connection_lost''
                (map fst (filter (\<lambda>(rid, r). n_socket r = Some s) (requests st))) st
          in if l_outgoing l \<and> \<not> l_authenticated l then st\<lparr>laters := laters st @ [NextLocal (l_peer l)]\<rparr> else st)"

definition reset_local :: "peer \<Rightarrow> peer" where
  "reset_local st =
     (let sockets = tkeys (links st);
          st = st\<lparr>links := [], outbound := [], attempts := [], connecting := [], tickets := []\<rparr>
      in fold (\<lambda>s. put_out (LinkAbort s)) sockets st)"

text \<open>The host part of an IPv4 address within a prefix shorter than 32 is all ones.\<close>

definition directed_broadcast :: "bytes \<Rightarrow> nat \<Rightarrow> bool" where
  "directed_broadcast b prefix \<longleftrightarrow>
     (let host = word_rcat b :: 32 word; mask = drop_bit prefix (- 1 :: 32 word)
      in and host mask = mask)"

fun on_some_subnet :: "peer_env \<Rightarrow> address \<Rightarrow> interface list \<Rightarrow> bool" where
  "on_some_subnet e a [] = False"
| "on_some_subnet e a (i # is) =
     (if if_prefix i \<noteq> 0 \<and> e_contains e (if_address i) (if_prefix i) a
         \<and> \<not> (addr_family a = Ipv4 \<and> if_prefix i < 32 \<and> directed_broadcast (addr_bytes a) (if_prefix i))
      then True else on_some_subnet e a is)"

definition on_link :: "lib \<Rightarrow> peer_env \<Rightarrow> qurl \<Rightarrow> qurl \<Rightarrow> bool" where
  "on_link L e relay_url url =
     (case parse_address L (url_host url) of
        None \<Rightarrow> False
      | Some a \<Rightarrow>
          if addr_multicast a \<or> addr_unspecified a \<or> addr_text a = qs ''255.255.255.255'' then False
          else if addr_loopback a then loopback L (url_host relay_url)
          else on_some_subnet e a (e_interfaces e))"

definition next_local :: "lib \<Rightarrow> peer_env \<Rightarrow> qstring \<Rightarrow> peer \<Rightarrow> peer" where
  "next_local L e peer st =
     (if \<not> running st \<or> \<not> ready st \<or> peer \<notin> set (connecting st) then st
      else case tget (attempts st) peer of
          None \<Rightarrow> remote e peer st
        | Some a \<Rightarrow>
            case m_urls a of
              [] \<Rightarrow> remote e peer st
            | u # us \<Rightarrow>
                if m_expires a \<le> e_now e then remote e peer st
                else
                  let url = parse_url L u; s = e_sock e;
                      st = st\<lparr>attempts := tput peer (a\<lparr>m_urls := us\<rparr>) (attempts st),
                        links := tput s \<lparr>l_peer = peer, l_ticket = m_ticket a, l_fingerprint = m_fingerprint a,
                          l_expires = m_expires a, l_deadline = e_now e + g_local_timeout (options st),
                          l_outgoing = True, l_authenticated = False\<rparr> (links st),
                        outbound := tput peer s (outbound st)\<rparr>
                  in if url_scheme url = qs ''wss'' \<and> pin_certificate L (m_fingerprint a) = None then lost s st
                     else put_out (LinkOpen s url) st)"

text \<open>\<open>connected\<close> of an outgoing link; \<open>secure\<close> is its scheme, \<open>fp\<close> the peer's certificate.\<close>

definition link_connected :: "peer_env \<Rightarrow> sock \<Rightarrow> bool \<Rightarrow> qstring \<Rightarrow> peer \<Rightarrow> peer" where
  "link_connected e s secure fp st =
     (case tget (links st) s of
        None \<Rightarrow> st
      | Some l \<Rightarrow>
          if secure \<and> fp \<noteq> l_fingerprint l then put_out (LinkAbort s) st
          else snd (link_send e s (jobj [(''type'', jtext ''hello''), (''ticket'', JStr (l_ticket l))]) st))"

definition peer_handle :: "peer_env \<Rightarrow> qstring \<Rightarrow> jobject \<Rightarrow> peer \<Rightarrow> jobject" where
  "peer_handle e peer payload st =
     (if \<not> ready st \<or> \<not> g_host_files (options st) \<or> \<not> hosting st then error_object ''not_hosting''
      else case e_handle e peer payload of None \<Rightarrow> error_object ''host_error'' | Some r \<Rightarrow> r)"

text \<open>A text message on a link that is not authenticated yet.\<close>

definition link_hello :: "peer_env \<Rightarrow> sock \<Rightarrow> peer_link \<Rightarrow> jobject \<Rightarrow> peer \<Rightarrow> peer" where
  "link_hello e s l m st =
     (let hello = (to_string (jval m ''type'') = qs ''hello''); ticket = to_string (jval m ''ticket'') in
      if l_outgoing l \<and> hello \<and> to_bool (jval m ''ok'')
      then local e s (st\<lparr>links := tput s (l\<lparr>l_authenticated := True\<rparr>) (links st)\<rparr>)
      else case (if \<not> l_outgoing l \<and> hello \<and> ready st then tget (tickets st) ticket else None) of
          None \<Rightarrow> put_out (LinkClose s 1008) st
        | Some t \<Rightarrow>
            if t_expires t \<le> e_now e then put_out (LinkClose s 1008) st
            else snd (link_send e s (jobj [(''type'', jtext ''hello''), (''ok'', JBool True)])
              (st\<lparr>tickets := tdel ticket (tickets st), links := tput s (l\<lparr>l_peer := t_peer t,
                 l_expires := t_expires t, l_authenticated := True\<rparr>) (links st)\<rparr>)))"

definition link_message :: "peer_env \<Rightarrow> sock \<Rightarrow> jobject \<Rightarrow> peer \<Rightarrow> peer" where
  "link_message e s m st =
     (case tget (links st) s of
        None \<Rightarrow> st
      | Some l \<Rightarrow>
          let type = to_string (jval m ''type''); rid = to_string (jval m ''id'') in
          if \<not> l_authenticated l then link_hello e s l m st
          else if \<not> ready st \<or> l_expires l \<le> e_now e then put_out (LinkClose s 1000) st
          else if type = qs ''request'' \<and> \<not> l_outgoing l \<and> identifier_ok rid \<and> is_object (jval m ''payload'')
          then snd (link_send e s (jobj [(''type'', jtext ''response''), (''id'', jval m ''id''),
              (''result'', JObj (peer_handle e (l_peer l) (to_object (jval m ''payload'')) st))]) st)
          else if type = qs ''response'' \<and> l_outgoing l
             \<and> (case tget (requests st) rid of None \<Rightarrow> False | Some r \<Rightarrow> n_socket r = Some s)
          then finish rid (to_object (jval m ''result'')) st
          else put_out (LinkClose s 1002) st)"

section \<open>The relay connection\<close>

definition schedule_reconnect :: "peer \<Rightarrow> peer" where
  "schedule_reconnect st =
     (if running st \<and> \<not> fatal st \<and> \<not> retrying st
      then st\<lparr>retrying := True, backoff := min (backoff st * 2) 30000\<rparr> else st)"

definition open_relay :: "peer \<Rightarrow> peer" where
  "open_relay st = (if running st then put_out RelayOpen st else st)"

definition peer_authenticate :: "lib \<Rightarrow> peer_env \<Rightarrow> peer \<Rightarrow> peer" where
  "peer_authenticate L e st = snd (relay_send e (jobj [(''type'', jtext ''auth''),
     (''credential'', JStr (from_utf8 L (g_credential (options st))))]) st)"

definition relay_error :: "qstring \<Rightarrow> peer \<Rightarrow> peer" where
  "relay_error text st =
     (if \<not> running st then st
      else schedule_reconnect (put_out StateChanged
        (if peer_error st = [] then st\<lparr>peer_error := text\<rparr> else st)))"

definition relay_disconnected :: "peer \<Rightarrow> peer" where
  "relay_disconnected st =
     (let st = reset_local (st\<lparr>ready := False, directory := [], account := []\<rparr>);
          st = finish_all ''connection_lost'' (tkeys (requests st)) st
      in schedule_reconnect (put_out PeersChanged (put_out StateChanged st)))"

definition local_urls :: "peer_env \<Rightarrow> peer \<Rightarrow> json list" where
  "local_urls e st =
     (case listening st of
        None \<Rightarrow> []
      | Some port \<Rightarrow>
          let g = options st;
              addresses = (if g_local_addresses g \<noteq> [] then g_local_addresses g
                else if addr_loopback (g_listen_address g) then [addr_text (g_listen_address g)]
                else map (addr_text \<circ> if_address) (filter (\<lambda>i. \<not> if_loopback i \<and> addr_family (if_address i) = Ipv4)
                  (e_interfaces e)))
          in map (\<lambda>a. JStr (e_build_url e (if g_local_identity g then ''wss'' else ''ws'') a port)) addresses)"

definition relay_authenticated :: "peer_env \<Rightarrow> jobject \<Rightarrow> peer \<Rightarrow> peer" where
  "relay_authenticated e m st =
     (let st = st\<lparr>account := to_string (jval m ''accountId'')\<rparr>; g = options st in
      snd (relay_send e (jobj [(''type'', jtext ''register''), (''peerId'', JStr (g_peer_id g)),
        (''name'', JStr (g_name g)), (''service'', JStr (g_service g)), (''host'', JBool (g_host_files g)),
        (''metadata'', JObj (g_metadata g)), (''localUrls'', JArr (local_urls e st)),
        (''fingerprint'', JStr (g_fingerprint g))]) st))"

definition lost_hosts :: "peer \<Rightarrow> sock list" where
  "lost_hosts st =
     (let active = map (\<lambda>d. to_string (jval (to_object d) ''peerId'')) (directory st) in
      map fst (filter (\<lambda>(s, l). l_peer l \<notin> set active \<and> l_outgoing l) (links st)))"

definition relay_peers :: "jobject \<Rightarrow> peer \<Rightarrow> peer" where
  "relay_peers m st =
     (let st = st\<lparr>directory := to_array (jval m ''peers'')\<rparr>
      in put_out PeersChanged (fold lost (lost_hosts st) st))"

text \<open>\<open>QString::toLongLong\<close> gives 0 for a text that is no number.\<close>

definition date_member :: "lib \<Rightarrow> jobject \<Rightarrow> msecs" where
  "date_member L m = (case to_longlong L (to_string (jval m ''expires'')) of None \<Rightarrow> 0 | Some i \<Rightarrow> i)"

definition relay_ticket :: "lib \<Rightarrow> jobject \<Rightarrow> peer \<Rightarrow> peer" where
  "relay_ticket L m st =
     (if length (tickets st) \<ge> 128 then st
      else st\<lparr>tickets := tput (to_string (jval m ''ticket''))
        \<lparr>t_peer = to_string (jval m ''peerId''), t_expires = date_member L m\<rparr> (tickets st)\<rparr>)"

definition relay_connect :: "lib \<Rightarrow> peer_env \<Rightarrow> jobject \<Rightarrow> peer \<Rightarrow> peer" where
  "relay_connect L e m st =
     (let peer = to_string (jval m ''peerId''); info = to_object (jval m ''descriptor'') in
      if peer \<notin> set (connecting st) then st
      else
        let urls = map url_text (filter (\<lambda>u. endpoint L u ''wss'' ''ws'' \<and> on_link L e (g_relay_url (options st)) u)
              (map (\<lambda>v. parse_url L (to_string v)) (to_array (jval info ''localUrls''))))
        in next_local L e peer (st\<lparr>attempts := tput peer \<lparr>m_urls = urls, m_ticket = to_string (jval m ''ticket''),
             m_fingerprint = to_string (jval info ''fingerprint''), m_expires = date_member L m\<rparr> (attempts st)\<rparr>))"

definition peer_message :: "lib \<Rightarrow> peer_env \<Rightarrow> jobject \<Rightarrow> peer \<Rightarrow> peer" where
  "peer_message L e m st =
     (let type = to_string (jval m ''type''); rid = to_string (jval m ''id'') in
      if type = qs ''authenticated'' then relay_authenticated e m st
      else if type = qs ''registered''
      then put_out StateChanged (st\<lparr>ready := True, backoff := 1000, peer_error := []\<rparr>)
      else if type = qs ''error''
      then put_out StateChanged (st\<lparr>peer_error := to_string (jval m ''error''), fatal := True\<rparr>)
      else if \<not> ready st then st
      else if type = qs ''pairing'' then put_out (PairingEvent m) st
      else if type = qs ''peers'' then relay_peers m st
      else if type = qs ''ticket'' then relay_ticket L m st
      else if type = qs ''connect'' then relay_connect L e m st
      else if type = qs ''request''
      then snd (relay_send e (jobj [(''type'', jtext ''response''), (''id'', jval m ''id''), (''result'',
        JObj (peer_handle e (to_string (jval m ''peerId'')) (to_object (jval m ''payload'')) st))]) st)
      else if type = qs ''response''
         \<and> (case tget (requests st) rid of None \<Rightarrow> False | Some r \<Rightarrow> n_transport r = Some Remote)
      then finish rid (to_object (jval m ''result'')) st
      else st)"

section \<open>The timer\<close>

text \<open>
  \<open>slot\<close> is what the application does when a request completes, before the loop goes on: the
  signal is emitted inside it. \<open>requests[id]\<close> of an identifier that is gone by then inserts an
  entry with default values, whose invalid date reads as 0.
\<close>

definition finish_with :: "(qstring \<Rightarrow> peer \<Rightarrow> peer) \<Rightarrow> qstring \<Rightarrow> jobject \<Rightarrow> peer \<Rightarrow> peer" where
  "finish_with slot rid result st =
     (if has_key (requests st) rid then slot rid (finish rid result st) else st)"

definition request_entry :: "qstring \<Rightarrow> peer \<Rightarrow> peer" where
  "request_entry rid st =
     (if has_key (requests st) rid then st
      else st\<lparr>requests := tput rid \<lparr>n_peer = [], n_payload = fmempty, n_transport = None, n_socket = None,
        n_deadline = 0\<rparr> (requests st)\<rparr>)"

definition sweep_request :: "(qstring \<Rightarrow> peer \<Rightarrow> peer) \<Rightarrow> msecs \<Rightarrow> qstring \<Rightarrow> peer \<Rightarrow> peer" where
  "sweep_request slot t rid st =
     (let st = request_entry rid st in
      case tget (requests st) rid of
        None \<Rightarrow> st
      | Some r \<Rightarrow> if n_deadline r \<le> t then finish_with slot rid (error_object ''timeout'') st else st)"

definition expired_link :: "msecs \<Rightarrow> peer_link \<Rightarrow> bool" where
  "expired_link t l \<longleftrightarrow> (l_authenticated l \<and> l_expires l \<le> t) \<or> (\<not> l_authenticated l \<and> l_deadline l \<le> t)"

definition sweep_link :: "msecs \<Rightarrow> sock \<Rightarrow> peer \<Rightarrow> peer" where
  "sweep_link t s st =
     (case tget (links st) s of None \<Rightarrow> st | Some l \<Rightarrow> if expired_link t l then lost s st else st)"

definition peer_sweep :: "(qstring \<Rightarrow> peer \<Rightarrow> peer) \<Rightarrow> msecs \<Rightarrow> peer \<Rightarrow> peer" where
  "peer_sweep slot t st =
     (let st = fold (sweep_request slot t) (tkeys (requests st)) st;
          st = st\<lparr>tickets := filter (\<lambda>(k, v). \<not> t_expires v \<le> t) (tickets st)\<rparr>
      in fold (sweep_link t) (tkeys (links st)) st)"

section \<open>The methods\<close>

definition peer_stop :: "peer \<Rightarrow> peer" where
  "peer_stop st =
     (let st = reset_local (st\<lparr>running := False, retrying := False, listening := None\<rparr>);
          st = put_out RelayAbort (st\<lparr>ready := False\<rparr>);
          st = finish_all ''stopped'' (tkeys (requests st)) st;
          st = st\<lparr>directory := [], account := [], options := (options st)\<lparr>g_credential := []\<rparr>, hosting := False\<rparr>
      in put_out PeersChanged (put_out StateChanged st))"

definition options_ok :: "lib \<Rightarrow> peer_options \<Rightarrow> bool" where
  "options_ok L g \<longleftrightarrow> endpoint L (g_relay_url g) ''wss'' ''ws'' \<and> g_credential g \<noteq> []
     \<and> int (length (g_credential g)) \<le> 16384 \<and> identifier_ok (g_peer_id g) \<and> identifier_ok (g_service g)
     \<and> length (g_name g) \<le> 128 \<and> 50 \<le> g_local_timeout g \<and> g_local_timeout g \<le> 10000
     \<and> 100 \<le> g_request_timeout g \<and> g_request_timeout g \<le> 120000"

text \<open>\<open>bound\<close> is the port or the error of binding the local server.\<close>

definition peer_start :: "lib \<Rightarrow> peer_options \<Rightarrow> bool \<Rightarrow> qstring + int \<Rightarrow> peer \<Rightarrow> bool \<times> peer" where
  "peer_start L g has_handler bound st =
     (let st = (peer_stop st)\<lparr>peer_error := []\<rparr> in
      if \<not> options_ok L g
      then (False, put_out StateChanged (st\<lparr>peer_error := qs ''Invalid peer identity, credential, URL or timeout.''\<rparr>))
      else
        let st = st\<lparr>options := g, hosting := has_handler, fatal := False, backoff := 1000\<rparr> in
        if g_local_enabled g \<and> g_local_hosting g \<and> g_host_files g then
          (case listener (g_listen_address g) (g_local_identity g)
                (case bound of Inl e \<Rightarrow> Some e | Inr port \<Rightarrow> None) of
             ListenError e \<Rightarrow> (False, put_out StateChanged (st\<lparr>peer_error := e\<rparr>))
           | Listening \<Rightarrow> (True, open_relay (st\<lparr>running := True,
               listening := (case bound of Inl e \<Rightarrow> None | Inr port \<Rightarrow> Some port)\<rparr>)))
        else (True, open_relay (st\<lparr>running := True\<rparr>)))"

definition incoming_link :: "peer_env \<Rightarrow> peer \<Rightarrow> peer" where
  "incoming_link e st =
     (if listening st = None then st
      else if length (links st) \<ge> 64 then put_out (LinkClose (e_sock e) 1000) st
      else st\<lparr>links := tput (e_sock e) \<lparr>l_peer = [], l_ticket = [], l_fingerprint = [], l_expires = 0,
        l_deadline = e_now e + 5000, l_outgoing = False, l_authenticated = False\<rparr> (links st)\<rparr>)"

definition peer_request :: "peer_env \<Rightarrow> qstring \<Rightarrow> jobject \<Rightarrow> peer \<Rightarrow> peer" where
  "peer_request e peer payload st =
     (if length (requests st) \<ge> 32 \<or> e_payload_bytes e payload > wire_limit - 1024
      then st\<lparr>laters := laters st @ [RefuseRequest (e_fresh e)]\<rparr>
      else st\<lparr>requests := tput (e_fresh e) \<lparr>n_peer = peer, n_payload = payload, n_transport = None,
          n_socket = None, n_deadline = e_now e + g_request_timeout (options st)\<rparr> (requests st),
        laters := laters st @ [StartRequest (e_fresh e)]\<rparr>)"

text \<open>The pairing calls send a frame when ready; an identifier they return is told of a failure.\<close>

datatype pairing_call = CreateOffer | ClaimOffer qstring qstring | ConfirmPairing qstring | CancelPairing qstring

definition pairing_frame :: "qstring \<Rightarrow> pairing_call \<Rightarrow> jobject" where
  "pairing_frame rid c =
     (case c of
        CreateOffer \<Rightarrow> jobj [(''type'', jtext ''pair-offer''), (''id'', JStr rid)]
      | ClaimOffer code host \<Rightarrow> jobj [(''type'', jtext ''pair-claim''), (''id'', JStr rid), (''code'', JStr code),
          (''host'', JStr host)]
      | ConfirmPairing pid \<Rightarrow> jobj [(''type'', jtext ''pair-confirm''), (''pairingId'', JStr pid)]
      | CancelPairing req \<Rightarrow> jobj [(''type'', jtext ''pair-cancel''), (''id'', JStr req)])"

definition pairing_request :: "peer_env \<Rightarrow> pairing_call \<Rightarrow> peer \<Rightarrow> peer" where
  "pairing_request e c st =
     (if ready st then if c = CancelPairing [] then st else snd (relay_send e (pairing_frame (e_fresh e) c) st)
      else case c of
          ConfirmPairing pid \<Rightarrow> st
        | CancelPairing req \<Rightarrow> st
        | _ \<Rightarrow> st\<lparr>laters := laters st @ [PairingError (e_fresh e)]\<rparr>)"

definition refresh_peers :: "peer_env \<Rightarrow> peer \<Rightarrow> peer" where
  "refresh_peers e st = (if ready st then snd (relay_send e (jobj [(''type'', jtext ''list'')]) st) else st)"

definition run_later :: "lib \<Rightarrow> peer_env \<Rightarrow> later \<Rightarrow> peer \<Rightarrow> peer" where
  "run_later L e w st =
     (case w of
        StartRequest rid \<Rightarrow> start_request e rid st
      | RefuseRequest rid \<Rightarrow> put_out (Completed rid (error_object ''request_too_large_or_busy'') None) st
      | NextLocal peer \<Rightarrow> next_local L e peer st
      | PairingError rid \<Rightarrow> put_out (PairingEvent (jobj [(''id'', JStr rid), (''status'', jtext ''error''),
          (''error'', jtext ''not_connected'')])) st)"

section \<open>Events\<close>

datatype peer_event =
    RelayConnected | RelayFailed qstring | RelayGone | RelayMessage jobject | RetryTimer | AuthTimer | SweepTimer
  | LinkUp sock bool qstring | LinkGone sock | LinkBinary sock | LinkText sock jobject | IncomingLink
  | Later
  | CallStart peer_options bool "qstring + int" | CallStop | CallRequest qstring jobject | CallPairing pairing_call
  | CallRefresh

text \<open>
  One event of the owner's thread. The signals it emits are handled after it: what the
  application does in them are the following events. \<open>AuthTimer\<close> fires only while connected.
\<close>

definition peer_step :: "lib \<Rightarrow> peer_env \<Rightarrow> peer_event \<Rightarrow> peer \<Rightarrow> peer" where
  "peer_step L e ev st =
     (case ev of
        RelayConnected \<Rightarrow> peer_authenticate L e st
      | RelayFailed text \<Rightarrow> relay_error text st
      | RelayGone \<Rightarrow> relay_disconnected st
      | RelayMessage m \<Rightarrow> peer_message L e m st
      | RetryTimer \<Rightarrow> if retrying st then open_relay (st\<lparr>retrying := False\<rparr>) else st
      | AuthTimer \<Rightarrow> peer_authenticate L e st
      | SweepTimer \<Rightarrow> if running st then peer_sweep (\<lambda>rid st. st) (e_now e) st else st
      | LinkUp s secure fp \<Rightarrow> link_connected e s secure fp st
      | LinkGone s \<Rightarrow> lost s st
      | LinkBinary s \<Rightarrow> put_out (LinkClose s 1000) st
      | LinkText s m \<Rightarrow> link_message e s m st
      | IncomingLink \<Rightarrow> incoming_link e st
      | Later \<Rightarrow> (case laters st of [] \<Rightarrow> st | w # ws \<Rightarrow> run_later L e w (st\<lparr>laters := ws\<rparr>))
      | CallStart g has_handler bound \<Rightarrow> snd (peer_start L g has_handler bound st)
      | CallStop \<Rightarrow> peer_stop st
      | CallRequest peer payload \<Rightarrow> peer_request e peer payload st
      | CallPairing c \<Rightarrow> pairing_request e c st
      | CallRefresh \<Rightarrow> refresh_peers e st)"

end
