(* ===== verification/PeerProperties.thy ===== *)
theory PeerProperties
  imports Peer
begin

text \<open>
  What \<open>src/Peer.cpp\<close> promises: every request completes exactly once and is sent at most once,
  a ticket admits one connection, and reconnection waits stay bounded. The bookkeeping of
  requests is the relation \<open>quiet\<close>: an operation that issues no identifier keeps the invariant
  and what is owed. One exception is shown at the end: the timer, when the application reacts
  to a timeout by stopping the peer.
\<close>

section \<open>Bookkeeping\<close>

fun done_of :: "effect \<Rightarrow> qstring option" where
  "done_of (Completed rid r t) = Some rid"
| "done_of _ = None"

definition request_id :: "jobject \<Rightarrow> qstring option" where
  "request_id m = (if jval m ''type'' = jtext ''request'' then Some (to_string (jval m ''id'')) else None)"

text \<open>The identifier of a request frame that went out, over the relay or over a link.\<close>

fun sent_of :: "effect \<Rightarrow> qstring option" where
  "sent_of (RelaySend m) = request_id m"
| "sent_of (LinkSend s m) = request_id m"
| "sent_of _ = None"

fun refused_of :: "later \<Rightarrow> qstring option" where
  "refused_of (RefuseRequest rid) = Some rid"
| "refused_of _ = None"

definition completed_ids :: "peer \<Rightarrow> qstring list" where
  "completed_ids st = List.map_filter done_of (out st)"

definition sent_ids :: "peer \<Rightarrow> qstring list" where
  "sent_ids st = List.map_filter sent_of (out st)"

definition waiting :: "peer \<Rightarrow> qstring list" where
  "waiting st = tkeys (requests st) @ List.map_filter refused_of (laters st)"

definition owed :: "peer \<Rightarrow> qstring multiset" where
  "owed st = mset (completed_ids st) + mset (waiting st)"

definition request_inv :: "peer \<Rightarrow> bool" where
  "request_inv st \<longleftrightarrow> table_ok (requests st) \<and> distinct (sent_ids st)
     \<and> set (sent_ids st) \<subseteq> set_mset (owed st)
     \<and> (\<forall>rid r. tget (requests st) rid = Some r \<longrightarrow> n_transport r = None \<longrightarrow> rid \<notin> set (sent_ids st))"

definition quiet :: "peer \<Rightarrow> peer \<Rightarrow> bool" where
  "quiet st st' \<longleftrightarrow> (request_inv st \<longrightarrow> request_inv st' \<and> owed st' = owed st
       \<and> length (requests st') \<le> length (requests st))
     \<and> (\<exists>l. out st' = out st @ l)"

lemma quiet_refl [simp]: "quiet st st"
  by (auto simp: quiet_def)

lemma quiet_trans: "quiet a b \<Longrightarrow> quiet b c \<Longrightarrow> quiet a c"
  by (auto simp: quiet_def)

lemma quiet_fold: "(\<And>x st. quiet st (f x st)) \<Longrightarrow> quiet st (fold f xs st)"
  by (induction xs arbitrary: st) (auto intro: quiet_trans)

text \<open>An update that neither completes nor sends a request and leaves the requests alone.\<close>

lemma quiet_frame:
  assumes "requests st' = requests st" "List.map_filter refused_of (laters st') = List.map_filter refused_of (laters st)"
    "out st' = out st @ l" "List.map_filter done_of l = []" "List.map_filter sent_of l = []"
  shows "quiet st st'"
  using assms by (simp add: quiet_def request_inv_def owed_def completed_ids_def sent_ids_def waiting_def)

lemma quiet_same: "requests st' = requests st \<Longrightarrow> laters st' = laters st \<Longrightarrow> out st' = out st \<Longrightarrow> quiet st st'"
  by (rule quiet_frame [where l = "[]"]) simp_all

lemma quiet_put_out: "done_of x = None \<Longrightarrow> sent_of x = None \<Longrightarrow> quiet st (put_out x st)"
  by (rule quiet_frame [where l = "[x]"]) (simp_all add: put_out_def map_filter_one)

lemma quiet_relay_send: "request_id m = None \<Longrightarrow> quiet st (snd (relay_send e m st))"
  by (simp add: relay_send_def quiet_put_out)

lemma quiet_link_send: "request_id m = None \<Longrightarrow> quiet st (snd (link_send e s m st))"
  by (simp add: link_send_def quiet_put_out)

lemma request_id_jobj: "request_id (jobj ((''type'', jtext t) # kvs)) = None"
  if "t \<noteq> ''request''" "''type'' \<notin> fst ` set kvs"
proof -
  have "map_of (rev kvs) ''type'' = None" using that(2) by (auto simp: map_of_eq_None_iff)
  then show ?thesis using that(1) by (simp add: request_id_def map_add_def)
qed

lemma completed_put_out [simp]:
  "completed_ids (put_out x st) = completed_ids st @ (case done_of x of None \<Rightarrow> [] | Some y \<Rightarrow> [y])"
  "sent_ids (put_out x st) = sent_ids st @ (case sent_of x of None \<Rightarrow> [] | Some y \<Rightarrow> [y])"
  "requests (put_out x st) = requests st" "laters (put_out x st) = laters st"
  by (simp_all add: put_out_def completed_ids_def sent_ids_def map_filter_one split: option.split)

lemma quiet_finish: "quiet st (finish rid r st)"
proof (cases "tget (requests st) rid")
  case None
  then show ?thesis by (simp add: finish_def)
next
  case (Some p)
  let ?st = "finish rid r st"
  have st: "requests ?st = tdel rid (requests st)" "laters ?st = laters st"
    "completed_ids ?st = completed_ids st @ [rid]" "sent_ids ?st = sent_ids st"
    using Some by (simp_all add: finish_def completed_ids_def sent_ids_def put_out_def map_filter_one)
  have "owed ?st = owed st" if "table_ok (requests st)"
    using mset_tkeys_tdel [of "requests st" rid] that Some
    by (simp add: owed_def waiting_def st table_ok_def has_key_def)
  moreover have "\<exists>l. out ?st = out st @ l" using Some by (simp add: finish_def put_out_def)
  ultimately show ?thesis
    using length_tdel_le [of rid "requests st"]
    by (auto simp: quiet_def request_inv_def st tkeys_tdel table_ok_def)
qed

lemma quiet_finish_all: "quiet st (finish_all c rids st)"
  unfolding finish_all_def by (rule quiet_fold) (rule quiet_finish)

text \<open>Marking an unsent request and sending it keeps the books.\<close>

lemma quiet_dispatch:
  assumes r: "tget (requests st) rid = Some r" "n_transport r = None"
    and new: "requests st' = tput rid r' (requests st)" "laters st' = laters st" "n_transport r' \<noteq> None"
    and log: "out st' = out st @ l" "List.map_filter done_of l = []"
      "List.map_filter sent_of l = [] \<or> List.map_filter sent_of l = [rid]"
  shows "quiet st st'"
proof -
  have key: "has_key (requests st) rid" using r by (simp add: has_key_def)
  have keys: "tkeys (requests st') = tkeys (requests st)" using key by (simp add: new tput_present_keys)
  then have owed: "owed st' = owed st" using log new by (simp add: owed_def waiting_def completed_ids_def)
  have "rid \<in> set_mset (owed st)" using key by (simp add: owed_def waiting_def in_tkeys)
  then show ?thesis
    using keys owed r log key
    by (auto simp: quiet_def request_inv_def table_ok_def new sent_ids_def length_tput)
qed

lemma quiet_remote_one: "quiet st (remote_one e peer rid st)"
proof (cases "tget (requests st) rid")
  case None
  then show ?thesis by (simp add: remote_one_def)
next
  case (Some r)
  show ?thesis
  proof (cases "n_peer r \<noteq> peer \<or> n_transport r \<noteq> None")
    case True
    then show ?thesis using Some by (simp add: remote_one_def)
  next
    case False
    let ?m = "jobj [(''type'', jtext ''request''), (''id'', JStr rid), (''peerId'', JStr peer), (''payload'', JObj (n_payload r))]"
    let ?st = "st\<lparr>requests := tput rid (r\<lparr>n_transport := Some Remote\<rparr>) (requests st)\<rparr>"
    have "quiet st ?st" using Some False by (auto intro: quiet_dispatch [where l = "[]"])
    moreover have "quiet st (put_out (RelaySend ?m) ?st)" using Some False
      by (auto intro: quiet_dispatch [where l = "[RelaySend ?m]"] simp: put_out_def map_filter_one request_id_def)
    ultimately show ?thesis
      using Some False quiet_finish by (auto simp: remote_one_def relay_send_def Let_def intro: quiet_trans)
  qed
qed

lemma quiet_local_one: "quiet st (local_one e s peer rid st)"
proof (cases "tget (requests st) rid")
  case None
  then show ?thesis by (simp add: local_one_def)
next
  case (Some r)
  show ?thesis
  proof (cases "n_peer r \<noteq> peer \<or> n_transport r \<noteq> None")
    case True
    then show ?thesis using Some by (simp add: local_one_def)
  next
    case False
    let ?m = "jobj [(''type'', jtext ''request''), (''id'', JStr rid), (''payload'', JObj (n_payload r))]"
    let ?st = "st\<lparr>requests := tput rid (r\<lparr>n_transport := Some Local, n_socket := Some s\<rparr>) (requests st)\<rparr>"
    have "quiet st ?st" using Some False by (auto intro: quiet_dispatch [where l = "[]"])
    moreover have "quiet st (put_out (LinkSend s ?m) ?st)" using Some False
      by (auto intro: quiet_dispatch [where l = "[LinkSend s ?m]"] simp: put_out_def map_filter_one request_id_def)
    ultimately show ?thesis
      using Some False quiet_finish by (auto simp: local_one_def link_send_def Let_def intro: quiet_trans)
  qed
qed

section \<open>Every operation keeps the books\<close>

lemma quiet_abandon: "quiet st (abandon peer st)"
  by (rule quiet_same) (simp_all add: abandon_def)

lemma quiet_remote: "quiet st (remote e peer st)"
  unfolding remote_def Let_def
  by (rule quiet_trans [OF quiet_abandon quiet_fold]) (rule quiet_remote_one)

lemma quiet_local: "quiet st (local e s st)"
proof (cases "tget (links st) s")
  case (Some l)
  have "quiet st (fold (local_one e s (l_peer l)) (tkeys (requests (abandon (l_peer l) st))) (abandon (l_peer l) st))"
    by (rule quiet_trans [OF quiet_abandon quiet_fold]) (rule quiet_local_one)
  then show ?thesis using Some by (simp add: local_def Let_def)
qed (simp add: local_def)

lemma quiet_lost: "quiet st (lost s st)"
proof (cases "tget (links st) s")
  case (Some l)
  let ?a = "st\<lparr>links := tdel s (links st),
    outbound := (if tget (outbound st) (l_peer l) = Some s then tdel (l_peer l) (outbound st) else outbound st)\<rparr>"
  let ?b = "put_out (LinkAbort s) ?a"
  let ?c = "finish_all ''connection_lost'' (map fst (filter (\<lambda>(rid, r). n_socket r = Some s) (requests ?b))) ?b"
  have "quiet st ?a" by (rule quiet_same) simp_all
  moreover have "quiet ?a ?b" by (rule quiet_put_out) simp_all
  moreover have "quiet ?b ?c" by (rule quiet_finish_all)
  ultimately have c: "quiet st ?c" by (meson quiet_trans)
  moreover have "quiet ?c (?c\<lparr>laters := laters ?c @ [NextLocal (l_peer l)]\<rparr>)"
    by (rule quiet_frame [where l = "[]"]) (simp_all add: map_filter_one)
  ultimately have "quiet st (?c\<lparr>laters := laters ?c @ [NextLocal (l_peer l)]\<rparr>)" by (meson quiet_trans)
  with c show ?thesis using Some by (simp add: lost_def Let_def)
qed (simp add: lost_def)

lemma fold_put_out:
  "out (fold (\<lambda>s. put_out (LinkAbort s)) ss st) = out st @ map LinkAbort ss"
  "requests (fold (\<lambda>s. put_out (LinkAbort s)) ss st) = requests st"
  "laters (fold (\<lambda>s. put_out (LinkAbort s)) ss st) = laters st"
  by (induction ss arbitrary: st) (simp_all add: put_out_def)

lemma map_filter_abort [simp]: "List.map_filter done_of (map LinkAbort ss) = []"
  "List.map_filter sent_of (map LinkAbort ss) = []"
  by (induction ss) (simp_all add: List.map_filter_def)

lemma quiet_reset_local: "quiet st (reset_local st)"
  by (rule quiet_frame [where l = "map LinkAbort (tkeys (links st))"])
    (simp_all add: reset_local_def Let_def fold_put_out)

lemma quiet_start_request: "quiet st (start_request e rid st)"
proof (cases "tget (requests st) rid")
  case (Some r)
  have "quiet st (snd (relay_send e (jobj [(''type'', jtext ''connect''), (''peerId'', JStr (n_peer r))])
      (st\<lparr>connecting := connecting st @ [n_peer r]\<rparr>)))"
    by (rule quiet_trans [OF quiet_same quiet_relay_send]) (simp_all add: request_id_def)
  then show ?thesis using Some
    by (auto simp: start_request_def Let_def quiet_finish quiet_remote quiet_local split: option.split)
qed (simp add: start_request_def)

lemma quiet_next_local: "quiet st (next_local L e peer st)"
proof (cases "\<not> running st \<or> \<not> ready st \<or> peer \<notin> set (connecting st)")
  case True
  then show ?thesis by (auto simp: next_local_def)
next
  case False
  have op: "quiet st (st\<lparr>attempts := a, links := b, outbound := c\<rparr>)" for a b c
    by (rule quiet_same) simp_all
  show ?thesis using False
    by (auto simp: next_local_def Let_def quiet_remote split: option.split list.split
        intro: quiet_trans [OF op quiet_lost] quiet_trans [OF op quiet_put_out])
qed

lemma quiet_link_connected: "quiet st (link_connected e s secure fp st)"
  by (auto simp: link_connected_def quiet_put_out request_id_def quiet_link_send split: option.split)

lemma quiet_link_hello: "quiet st (link_hello e s l m st)"
proof -
  have op: "quiet st (st\<lparr>links := a\<rparr>)" "quiet st (st\<lparr>tickets := b, links := a\<rparr>)" for a b
    by (rule quiet_same; simp)+
  have "quiet st (local e s (st\<lparr>links := a\<rparr>))" for a by (rule quiet_trans [OF op(1) quiet_local])
  moreover have "quiet st (snd (link_send e s (jobj [(''type'', jtext ''hello''), (''ok'', JBool True)])
      (st\<lparr>tickets := b, links := a\<rparr>)))" for a b
    by (rule quiet_trans [OF op(2) quiet_link_send]) (simp add: request_id_def)
  ultimately show ?thesis
    by (auto simp: link_hello_def Let_def quiet_put_out split: option.split)
qed

lemma quiet_link_message: "quiet st (link_message e s m st)"
  by (auto simp: link_message_def Let_def quiet_put_out quiet_link_hello quiet_finish request_id_def
      quiet_link_send split: option.split)

lemma quiet_schedule_reconnect: "quiet st (schedule_reconnect st)"
  by (rule quiet_same) (simp_all add: schedule_reconnect_def)

lemma quiet_open_relay: "quiet st (open_relay st)"
  by (simp add: open_relay_def quiet_put_out)

lemma quiet_relay_error: "quiet st (relay_error text st)"
proof -
  have "quiet st (if peer_error st = [] then st\<lparr>peer_error := text\<rparr> else st)"
    by (rule quiet_same) simp_all
  then show ?thesis
    by (auto simp: relay_error_def intro!: quiet_trans [OF _ quiet_schedule_reconnect]
        quiet_trans [OF _ quiet_put_out])
qed

lemma quiet_relay_disconnected: "quiet st (relay_disconnected st)"
proof -
  have "quiet st (st\<lparr>ready := False, directory := [], account := []\<rparr>)" by (rule quiet_same) simp_all
  then show ?thesis unfolding relay_disconnected_def Let_def
    by (intro quiet_trans [OF _ quiet_schedule_reconnect] quiet_trans [OF _ quiet_put_out]
        quiet_trans [OF _ quiet_finish_all] quiet_trans [OF _ quiet_reset_local]) simp_all
qed

lemma quiet_relay_authenticated: "quiet st (relay_authenticated e m st)"
  unfolding relay_authenticated_def Let_def
  by (rule quiet_trans [OF quiet_same quiet_relay_send]) (simp_all add: request_id_def)

lemma quiet_relay_peers: "quiet st (relay_peers m st)"
proof -
  have "quiet st (st\<lparr>directory := to_array (jval m ''peers'')\<rparr>)" by (rule quiet_same) simp_all
  then show ?thesis unfolding relay_peers_def Let_def
    by (intro quiet_trans [OF _ quiet_put_out] quiet_trans [OF _ quiet_fold] quiet_lost) simp_all
qed

lemma quiet_relay_connect: "quiet st (relay_connect L e m st)"
proof -
  have "quiet st (st\<lparr>attempts := a\<rparr>)" for a by (rule quiet_same) simp_all
  then show ?thesis
    by (auto simp: relay_connect_def Let_def intro: quiet_trans [OF _ quiet_next_local])
qed

lemma quiet_peer_message: "quiet st (peer_message L e m st)"
proof -
  have op: "quiet st (st\<lparr>ready := a, backoff := b, peer_error := c\<rparr>)" "quiet st (st\<lparr>peer_error := c, fatal := a\<rparr>)"
    for a b c by (rule quiet_same; simp)+
  have "quiet st (relay_ticket L m st)" by (rule quiet_same) (simp_all add: relay_ticket_def)
  then show ?thesis
    by (auto simp: peer_message_def Let_def quiet_relay_authenticated quiet_put_out quiet_relay_peers
        quiet_relay_connect quiet_finish request_id_def quiet_relay_send split: option.split
        intro: quiet_trans [OF op(1) quiet_put_out] quiet_trans [OF op(2) quiet_put_out])
qed

lemma quiet_peer_stop: "quiet st (peer_stop st)"
proof -
  have a: "quiet st (st\<lparr>running := False, retrying := False, listening := None\<rparr>)" for st by (rule quiet_same) simp_all
  have b: "quiet st (st\<lparr>ready := False\<rparr>)" for st by (rule quiet_same) simp_all
  have c: "quiet st (st\<lparr>directory := [], account := [], options := g, hosting := False\<rparr>)" for st g
    by (rule quiet_same) simp_all
  show ?thesis unfolding peer_stop_def Let_def
    by (intro quiet_trans [OF _ quiet_put_out] quiet_trans [OF _ c] quiet_trans [OF _ quiet_finish_all]
        quiet_trans [OF _ b] quiet_trans [OF _ quiet_reset_local] a) simp_all
qed

lemma quiet_peer_start: "quiet st (snd (peer_start L g h b st))"
proof -
  have a: "quiet st ((peer_stop st)\<lparr>peer_error := []\<rparr>)"
    by (rule quiet_trans [OF quiet_peer_stop quiet_same]) simp_all
  have op: "quiet st (st\<lparr>peer_error := a\<rparr>)" "quiet st (st\<lparr>options := g, hosting := h, fatal := c, backoff := d\<rparr>)"
    "quiet st (st\<lparr>running := c, listening := k\<rparr>)" "quiet st (st\<lparr>running := c\<rparr>)" for st a g h c d k
    by (rule quiet_same; simp)+
  show ?thesis unfolding peer_start_def Let_def
    by (auto split: listen_result.split
      intro!: quiet_trans [OF _ quiet_open_relay] quiet_trans [OF _ quiet_put_out]
        quiet_trans [OF _ op(1)] quiet_trans [OF _ op(3)] quiet_trans [OF _ op(4)] quiet_trans [OF _ op(2)] a
      simp: quiet_peer_stop simp del: peer.update_convs)
qed

lemma sweep_request_present:
  "has_key (requests st) rid \<Longrightarrow> sweep_request (\<lambda>rid st. st) t rid st =
     (case tget (requests st) rid of None \<Rightarrow> st
      | Some r \<Rightarrow> if n_deadline r \<le> t then finish rid (error_object ''timeout'') st else st)"
  by (auto simp: sweep_request_def request_entry_def finish_with_def Let_def split: option.split)

lemma finish_keeps_keys: "k \<noteq> rid \<Longrightarrow> has_key (requests (finish rid r st)) k = has_key (requests st) k"
  by (simp add: finish_def split: option.split)

lemma quiet_sweep_requests:
  "distinct ks \<Longrightarrow> list_all (has_key (requests st)) ks \<Longrightarrow>
     quiet st (fold (sweep_request (\<lambda>rid st. st) t) ks st)"
proof (induction ks arbitrary: st)
  case (Cons k ks)
  let ?st = "sweep_request (\<lambda>rid st. st) t k st"
  have "quiet st ?st"
    using Cons.prems by (auto simp: sweep_request_present quiet_finish split: option.split)
  moreover have "list_all (has_key (requests ?st)) ks"
    using Cons.prems by (auto simp: sweep_request_present list_all_iff split: option.split)
      (metis finish_keeps_keys)
  ultimately show ?case using Cons.IH [of ?st] Cons.prems(1) by (auto intro: quiet_trans)
qed simp

lemma quiet_sweep_links: "quiet st (fold (sweep_link t) ss st)"
  by (rule quiet_fold) (simp add: sweep_link_def quiet_lost split: option.split)

lemma quiet_peer_sweep:
  assumes "table_ok (requests st)"
  shows "quiet st (peer_sweep (\<lambda>rid st. st) t st)"
proof -
  let ?a = "fold (sweep_request (\<lambda>rid st. st) t) (tkeys (requests st)) st"
  have "list_all (has_key (requests st)) (tkeys (requests st))"
    by (simp add: list_all_iff in_tkeys)
  then have "quiet st ?a" using assms by (auto simp: table_ok_def intro: quiet_sweep_requests)
  moreover have "quiet ?a (?a\<lparr>tickets := filter (\<lambda>(k, v). \<not> t_expires v \<le> t) (tickets ?a)\<rparr>)"
    by (rule quiet_same) simp_all
  ultimately show ?thesis unfolding peer_sweep_def Let_def
    by (intro quiet_trans [OF _ quiet_sweep_links]) (rule quiet_trans)
qed

lemma refused_of_None: "refused_of w = None \<longleftrightarrow> (\<forall>rid. w \<noteq> RefuseRequest rid)"
  by (cases w) auto

lemma quiet_run_later:
  "laters st = w # ws \<Longrightarrow> refused_of w = None \<Longrightarrow> quiet st (run_later L e w (st\<lparr>laters := ws\<rparr>))"
proof -
  assume w: "laters st = w # ws" "refused_of w = None"
  then have a: "quiet st (st\<lparr>laters := ws\<rparr>)"
    by (auto intro!: quiet_frame [where l = "[]"] simp: List.map_filter_def)
  show ?thesis using w
    by (cases w) (auto simp: run_later_def intro!: quiet_trans [OF a] quiet_start_request quiet_next_local quiet_put_out)
qed

lemma quiet_incoming_link: "quiet st (incoming_link e st)"
  by (auto simp: incoming_link_def quiet_put_out intro: quiet_same)

lemma quiet_pairing_request: "quiet st (pairing_request e c st)"
proof -
  have "request_id (pairing_frame (e_fresh e) c) = None" by (cases c) (simp_all add: pairing_frame_def request_id_def)
  then show ?thesis
    by (cases c) (auto simp: pairing_request_def quiet_relay_send map_filter_one
        intro: quiet_frame [where l = "[]"])
qed

definition issues :: "peer_env \<Rightarrow> peer_event \<Rightarrow> qstring list" where
  "issues e ev = (case ev of CallRequest peer payload \<Rightarrow> [e_fresh e] | _ \<Rightarrow> [])"

definition refuses :: "peer_event \<Rightarrow> peer \<Rightarrow> bool" where
  "refuses ev st \<longleftrightarrow> ev = Later \<and> (\<exists>rid ws. laters st = RefuseRequest rid # ws)"

lemma quiet_peer_step:
  assumes "issues e ev = []" "\<not> refuses ev st" "table_ok (requests st)"
  shows "quiet st (peer_step L e ev st)"
proof (cases ev)
  case Later
  then show ?thesis
    using assms(2) quiet_run_later
    by (cases "laters st") (auto simp: peer_step_def refuses_def refused_of_None)
next
  case RetryTimer
  have "quiet st (st\<lparr>retrying := False\<rparr>)" by (rule quiet_same) simp_all
  then show ?thesis using RetryTimer by (auto simp: peer_step_def intro: quiet_trans [OF _ quiet_open_relay])
next
  case (CallRequest peer payload)
  then show ?thesis using assms(1) by (simp add: issues_def)
qed (auto simp: peer_step_def peer_authenticate_def quiet_relay_send request_id_def quiet_relay_error
    quiet_relay_disconnected quiet_peer_message quiet_peer_sweep assms(3) quiet_link_connected quiet_lost
    quiet_put_out quiet_link_message quiet_incoming_link quiet_peer_start quiet_peer_stop
    quiet_pairing_request refresh_peers_def)

section \<open>Runs\<close>

definition new_peer :: "peer_options \<Rightarrow> peer" where
  "new_peer g = \<lparr>options = g, hosting = False, listening = None, requests = [], tickets = [], links = [],
     outbound = [], attempts = [], connecting = [], retrying = False, directory = [], account = [],
     peer_error = [], running = False, ready = False, fatal = False, backoff = 1000, laters = [], out = []\<rparr>"

text \<open>An event as a step of a service: what it issues and what completes in it.\<close>

definition peer_job :: "lib \<Rightarrow> peer job_step" where
  "peer_job L st new fin st' \<longleftrightarrow> (\<exists>e ev. st' = peer_step L e ev st \<and> new = issues e ev
     \<and> completed_ids st' = completed_ids st @ fin)"

definition peer_inv :: "qstring list \<Rightarrow> peer \<Rightarrow> bool" where
  "peer_inv issued st \<longleftrightarrow> request_inv st \<and> set_mset (owed st) \<subseteq> set issued"

lemma owed_request:
  assumes "peer_inv issued st" "e_fresh e \<notin> set issued"
  shows "request_inv (peer_request e peer payload st)"
    "owed (peer_request e peer payload st) = add_mset (e_fresh e) (owed st)"
    "completed_ids (peer_request e peer payload st) = completed_ids st"
proof -
  have fresh: "e_fresh e \<notin># owed st" using assms by (auto simp: peer_inv_def)
  then have "\<not> has_key (requests st) (e_fresh e)" by (auto simp: owed_def waiting_def in_tkeys)
  moreover have "e_fresh e \<notin> set (sent_ids st)" using fresh assms(1) by (auto simp: peer_inv_def request_inv_def)
  ultimately show "completed_ids (peer_request e peer payload st) = completed_ids st"
    "owed (peer_request e peer payload st) = add_mset (e_fresh e) (owed st)"
    "request_inv (peer_request e peer payload st)"
    using assms(1)
    by (auto simp: peer_request_def owed_def waiting_def completed_ids_def sent_ids_def tkeys_tput
        map_filter_one length_tput request_inv_def peer_inv_def table_ok_def in_tkeys)
qed

lemma owed_refused:
  fixes L :: lib and e :: peer_env
  assumes "laters st = RefuseRequest rid # ws" "request_inv st"
  defines "st' \<equiv> run_later L e (RefuseRequest rid) (st\<lparr>laters := ws\<rparr>)"
  shows "request_inv st'" "owed st' = owed st" "completed_ids st' = completed_ids st @ [rid]"
    "requests st' = requests st"
proof -
  have s: "requests st' = requests st" "laters st' = ws" "sent_ids st' = sent_ids st"
    "completed_ids st' = completed_ids st @ [rid]"
    unfolding st'_def run_later_def by (simp_all, simp_all add: sent_ids_def completed_ids_def)
  then have "owed st' = owed st"
    using assms(1) by (simp add: owed_def waiting_def List.map_filter_def)
  then show "request_inv st'" "owed st' = owed st" "completed_ids st' = completed_ids st @ [rid]"
    "requests st' = requests st" using s assms(2) by (simp_all add: request_inv_def)
qed

lemma peer_step_books:
  assumes "peer_inv issued st" "set (issues e ev) \<inter> set issued = {}"
  shows "request_inv (peer_step L e ev st)"
    "owed (peer_step L e ev st) = mset (issues e ev) + owed st"
    "\<exists>l. completed_ids (peer_step L e ev st) = completed_ids st @ l"
proof -
  have inv: "request_inv st" "table_ok (requests st)" using assms(1) by (auto simp: peer_inv_def request_inv_def)
  consider (request) peer payload where "ev = CallRequest peer payload"
    | (refused) rid ws where "ev = Later" "laters st = RefuseRequest rid # ws"
    | (quiet) "issues e ev = []" "\<not> refuses ev st"
    by (cases ev) (auto simp: issues_def refuses_def)
  then have "request_inv (peer_step L e ev st) \<and> owed (peer_step L e ev st) = mset (issues e ev) + owed st
    \<and> (\<exists>l. completed_ids (peer_step L e ev st) = completed_ids st @ l)"
  proof cases
    case request
    then have "e_fresh e \<notin> set issued" using assms(2) by (simp add: issues_def)
    from owed_request [OF assms(1) this] show ?thesis by (simp add: request peer_step_def issues_def)
  next
    case refused
    from owed_refused [OF refused(2) inv(1), of L e] show ?thesis
      by (simp add: refused peer_step_def issues_def)
  next
    case quiet
    from quiet_peer_step [OF quiet inv(2), of L] have q: "quiet st (peer_step L e ev st)" .
    then obtain l where "out (peer_step L e ev st) = out st @ l" by (auto simp: quiet_def)
    then have "completed_ids (peer_step L e ev st) = completed_ids st @ List.map_filter done_of l"
      by (simp add: completed_ids_def)
    then show ?thesis using q inv(1) quiet(1) by (auto simp: quiet_def)
  qed
  then show "request_inv (peer_step L e ev st)" "owed (peer_step L e ev st) = mset (issues e ev) + owed st"
    "\<exists>l. completed_ids (peer_step L e ev st) = completed_ids st @ l" by simp_all
qed

lemma peer_step_limit:
  assumes "peer_inv issued st" "length (requests st) \<le> 32"
  shows "length (requests (peer_step L e ev st)) \<le> 32"
proof (cases "issues e ev = [] \<and> \<not> refuses ev st")
  case True
  then show ?thesis using quiet_peer_step [of e ev st L] assms
    by (force simp: peer_inv_def request_inv_def quiet_def)
next
  case False
  then show ?thesis using assms
    by (cases ev) (auto simp: issues_def refuses_def peer_step_def peer_request_def length_tput run_later_def
        split: later.split)
qed

text \<open>What stopping leaves: no request, and nothing a timer could start.\<close>

lemma finish_all_requests: "tkeys (requests (finish_all c ks st)) = filter (\<lambda>k. k \<notin> set ks) (tkeys (requests st))"
proof (induction ks arbitrary: st)
  case (Cons k ks)
  have "tkeys (requests (finish k (error_object c) st)) = filter (\<lambda>k'. k' \<noteq> k) (tkeys (requests st))"
  proof (cases "tget (requests st) k")
    case None
    then have "k \<notin> set (tkeys (requests st))" by (simp add: in_tkeys has_key_def)
    then show ?thesis using None by (auto simp: finish_def intro!: filter_True [symmetric])
  qed (simp add: finish_def tkeys_tdel)
  then show ?case using Cons.IH by (simp add: finish_all_def)
qed (simp add: finish_all_def)

lemma finish_all_frame [simp]:
  "laters (finish_all c ks st) = laters st" "running (finish_all c ks st) = running st"
  unfolding finish_all_def by (rule fold_frame; simp add: finish_def put_out_def split: option.split)+

lemma reset_local_frame [simp]:
  "requests (reset_local st) = requests st" "laters (reset_local st) = laters st"
  "running (reset_local st) = running st"
proof -
  have "running (fold (\<lambda>s. put_out (LinkAbort s)) ss st) = running st" for ss st
    by (rule fold_frame) (simp add: put_out_def)
  then show "running (reset_local st) = running st" by (simp add: reset_local_def Let_def)
qed (simp_all add: reset_local_def Let_def fold_put_out)

lemma peer_stop_leaves:
  "requests (peer_stop st) = []" "laters (peer_stop st) = laters st" "\<not> running (peer_stop st)"
proof -
  have "running (put_out x st) = running st" for x st by (simp add: put_out_def)
  then show "\<not> running (peer_stop st)" by (simp add: peer_stop_def Let_def)
  show "laters (peer_stop st) = laters st" by (simp add: peer_stop_def Let_def)
  have "tkeys (requests (peer_stop st)) = []"
    by (simp add: peer_stop_def Let_def finish_all_requests)
  then show "requests (peer_stop st) = []" by (simp add: tkeys_def)
qed

lemma idle_later:
  assumes "\<not> running st" "requests st = []" "laters st = w # ws"
  shows "requests (peer_step L e Later st) = []" "laters (peer_step L e Later st) = ws"
    "running (peer_step L e Later st) = False"
  using assms by (auto simp: peer_step_def run_later_def start_request_def next_local_def put_out_def
      split: later.split)

lemma peer_progress:
  assumes "waiting st \<noteq> []" "peer_inv issued st"
  shows "\<exists>fin st'. peer_job L st [] fin st' \<and>
    (fin \<noteq> [] \<or> length (laters st') + of_bool (running st') < length (laters st) + of_bool (running st))"
proof -
  have step: "\<exists>fin. peer_job L st [] fin (peer_step L e ev st)
      \<and> mset fin + mset (waiting (peer_step L e ev st)) = mset (waiting st)" if "issues e ev = []" for e ev
    using peer_step_books [OF assms(2), of e ev L] that
    by (auto simp: peer_job_def owed_def) (metis add_left_cancel group_cancel.add1 mset_append)+
  show ?thesis
  proof (cases "running st \<or> requests st \<noteq> []")
    case True
    obtain e :: peer_env where True by simp
    obtain fin where fin: "peer_job L st [] fin (peer_stop st)"
      "mset fin + mset (waiting (peer_stop st)) = mset (waiting st)"
      using step [of e CallStop] by (auto simp: issues_def peer_step_def)
    have "fin \<noteq> []" if "requests st \<noteq> []"
      using fin(2) that by (auto simp: waiting_def peer_stop_leaves tkeys_def)
    then show ?thesis using fin(1) True peer_stop_leaves [of st] by (intro exI conjI) auto
  next
    case False
    then obtain w ws where w: "laters st = w # ws" using assms(1)
      by (cases "laters st") (auto simp: waiting_def tkeys_def)
    obtain e :: peer_env where True by simp
    obtain fin where "peer_job L st [] fin (peer_step L e Later st)"
      using step [of e Later] by (auto simp: issues_def)
    then show ?thesis using idle_later [OF _ _ w] False w by (intro exI conjI) auto
  qed
qed

interpretation peer_jobs: job_service "peer_job L" "new_peer g" waiting "\<lambda>st. length (requests st)" 32 peer_inv
  "\<lambda>st. length (laters st) + of_bool (running st)" for L g
proof
  show "waiting (new_peer g) = []" "length (requests (new_peer g)) = 0" "peer_inv [] (new_peer g)"
    by (simp_all add: waiting_def new_peer_def tkeys_def peer_inv_def request_inv_def owed_def
        completed_ids_def sent_ids_def table_ok_def)
  fix st st' new fin issued
  assume job: "peer_job L st new fin st'" and inv: "peer_inv issued st"
  then obtain e ev where ev: "st' = peer_step L e ev st" "new = issues e ev"
    "completed_ids st' = completed_ids st @ fin" by (auto simp: peer_job_def)
  {
    assume "set new \<inter> set issued = {}"
    with peer_step_books [OF inv, of e ev L] ev
    have b: "request_inv st'" "owed st' = mset new + owed st" by simp_all
    then show "peer_inv (issued @ new) st'" using inv by (auto simp: peer_inv_def)
    show "mset fin + mset (waiting st') = mset new + mset (waiting st)"
      using b(2) ev(3) by (simp add: owed_def)
  }
  show "length (requests st) \<le> 32 \<Longrightarrow> length (requests st') \<le> 32"
    using peer_step_limit [OF inv] ev(1) by simp
next
  fix st issued
  show "waiting st \<noteq> [] \<Longrightarrow> peer_inv issued st \<Longrightarrow> \<exists>fin st'. peer_job L st [] fin st' \<and>
      (fin \<noteq> [] \<or> length (laters st') + of_bool (running st') < length (laters st) + of_bool (running st))"
    by (rule peer_progress)
qed

lemma peer_completed_ids: "job_run (peer_job L) (new_peer g) issued gone st \<Longrightarrow> completed_ids st = gone"
proof (induction rule: job_run.induct)
  case (run_step issued gone st new fin st')
  from run_step.hyps(2) run_step.IH show ?case by (auto simp: peer_job_def)
qed (simp add: new_peer_def completed_ids_def)


text \<open>
  C22: A request is never replayed: in every such run the identifiers of the request frames that
  went out, over the relay and over all links together, are pairwise different and were all
  issued by \<open>request\<close>. So a host sees each request at most once, also when a link fails over
  to another address or to the relay.
\<close>

theorem peer_never_replays:
  assumes "job_run (peer_job L) (new_peer g) issued gone st"
  shows "distinct (sent_ids st) \<and> set (sent_ids st) \<subseteq> set issued"
  using peer_jobs.accounting [OF assms] by (auto simp: peer_inv_def request_inv_def)

section \<open>Tickets\<close>

text \<open>The peer a link was admitted for and until when, if another peer opened it.\<close>

definition admitted :: "peer \<Rightarrow> sock \<Rightarrow> (qstring \<times> msecs) option" where
  "admitted st s =
     (case tget (links st) s of
        None \<Rightarrow> None
      | Some l \<Rightarrow> if l_authenticated l \<and> \<not> l_outgoing l then Some (l_peer l, l_expires l) else None)"

definition tame :: "peer \<Rightarrow> peer \<Rightarrow> bool" where
  "tame st st' \<longleftrightarrow> (\<forall>s p. admitted st' s = Some p \<longrightarrow> admitted st s = Some p)"

lemma tame_refl [simp]: "tame st st"
  by (simp add: tame_def)

lemma tame_trans: "tame a b \<Longrightarrow> tame b c \<Longrightarrow> tame a c"
  by (simp add: tame_def)

lemma tame_same: "links st' = links st \<Longrightarrow> tame st st'"
  by (simp add: tame_def admitted_def)

lemma tame_if: "(c \<Longrightarrow> tame st a) \<Longrightarrow> (\<not> c \<Longrightarrow> tame st b) \<Longrightarrow> tame st (if c then a else b)"
  by simp

lemma tame_fold: "(\<And>x st. tame st (f x st)) \<Longrightarrow> tame st (fold f xs st)"
  by (induction xs arbitrary: st) (auto intro: tame_trans)

lemma links_put_out [simp]: "links (put_out x st) = links st"
  by (simp add: put_out_def)

lemma links_send [simp]: "links (snd (relay_send e m st)) = links st" "links (snd (link_send e s m st)) = links st"
  by (simp_all add: relay_send_def link_send_def)

lemma links_finish [simp]: "links (finish rid r st) = links st"
  by (simp add: finish_def split: option.split)

lemma links_finish_all [simp]: "links (finish_all c ks st) = links st"
  unfolding finish_all_def by (rule fold_frame) simp

lemma links_remote [simp]: "links (remote e peer st) = links st"
proof -
  have "links (fold (remote_one e peer) ks st) = links st" for ks st
    by (rule fold_frame) (simp add: remote_one_def relay_send_def Let_def split: option.split)
  then show ?thesis by (simp add: remote_def Let_def abandon_def)
qed

lemma links_local [simp]: "links (local e s st) = links st"
proof -
  have "links (fold (local_one e s peer) ks st) = links st" for peer ks st
    by (rule fold_frame) (simp add: local_one_def link_send_def Let_def split: option.split)
  then show ?thesis by (simp add: local_def Let_def abandon_def split: option.split)
qed

lemma links_lost: "links (lost s st) = tdel s (links st)"
  by (auto simp: lost_def Let_def tdel_absent split: option.split)

lemma tame_lost: "tame st (lost s st)"
  by (simp add: tame_def admitted_def links_lost)

lemma links_reset_local [simp]: "links (reset_local st) = []"
proof -
  have "links (fold (\<lambda>s. put_out (LinkAbort s)) ss st) = links st" for ss st by (rule fold_frame) simp
  then show ?thesis by (simp add: reset_local_def Let_def)
qed

lemma tame_empty: "links st' = [] \<Longrightarrow> tame st st'"
  by (simp add: tame_def admitted_def)

lemma links_simple [simp]:
  "links (schedule_reconnect st) = links st" "links (open_relay st) = links st"
  "links (relay_authenticated e m st) = links st" "links (relay_ticket L m st) = links st"
  "links (start_request e rid st) = links st" "links (pairing_request e c st) = links st"
  "links (peer_request e peer payload st) = links st" "links (refresh_peers e st) = links st"
  "links (relay_error text st) = links st" "links (peer_authenticate L e st) = links st"
  by (auto simp: schedule_reconnect_def open_relay_def relay_authenticated_def relay_ticket_def
      start_request_def pairing_request_def peer_request_def refresh_peers_def relay_error_def
      peer_authenticate_def Let_def split: option.split pairing_call.split)

lemma tame_next_local: "tame st (next_local L e peer st)"
proof -
  have op: "tame st (st\<lparr>attempts := a, links := tput s l (links st), outbound := c\<rparr>)"
    if "\<not> l_authenticated l" for a s l c using that by (simp add: tame_def admitted_def)
  show ?thesis
    by (auto simp: next_local_def Let_def tame_same split: option.split list.split
        intro!: tame_trans [OF op tame_lost] tame_trans [OF op tame_same])
qed

lemma tame_relay_message: "tame st (peer_message L e m st)"
proof -
  have peers: "tame st (relay_peers m st)"
    unfolding relay_peers_def Let_def
    by (rule tame_trans [OF tame_trans [OF tame_same tame_fold] tame_same]) (simp_all add: tame_lost)
  have connect: "tame st (relay_connect L e m st)"
    unfolding relay_connect_def Let_def
    by (intro tame_if tame_refl) (rule tame_trans [OF tame_same tame_next_local], simp)
  show ?thesis unfolding peer_message_def Let_def
    by (intro tame_if peers connect) (rule tame_same; simp split: option.split)+
qed

lemma tame_sweep: "tame st (peer_sweep (\<lambda>rid st. st) t st)"
proof -
  have reqs: "links (fold (sweep_request (\<lambda>rid st. st) t) ks st) = links st" for ks st
    by (rule fold_frame) (simp add: sweep_request_def request_entry_def finish_with_def Let_def split: option.split)
  have sweep: "tame st (fold (sweep_link t) ss st)" for ss st
    by (rule tame_fold) (simp add: sweep_link_def tame_lost split: option.split)
  show ?thesis unfolding peer_sweep_def Let_def
    by (rule tame_trans [rotated], rule sweep, rule tame_same) (simp add: reqs)
qed

lemma tame_step:
  assumes "\<forall>s m. ev \<noteq> LinkText s m"
  shows "tame st (peer_step L e ev st)"
proof (cases ev)
  case Later
  then show ?thesis
    by (auto simp: peer_step_def run_later_def tame_same split: list.split later.split
        intro: tame_trans [OF tame_same tame_next_local])
next
  case IncomingLink
  then show ?thesis by (auto simp: peer_step_def incoming_link_def tame_same) (simp add: tame_def admitted_def)
next
  case (CallStart g h b)
  have "links (snd (peer_start L g h b st)) = []"
    by (simp add: peer_start_def peer_stop_def Let_def split: listen_result.split)
  then show ?thesis using CallStart by (simp add: peer_step_def tame_empty)
qed (use assms in \<open>auto simp: peer_step_def relay_disconnected_def peer_stop_def Let_def tame_empty tame_same
    tame_relay_message tame_sweep tame_lost link_connected_def split: option.split\<close>)

text \<open>
  C23: Every direct connection another peer opens was paid for with a ticket of the relay, and a
  ticket admits one: whenever some event makes a link one that was opened by another peer and
  is authenticated, or changes for whom or until when it is, that event was a message on this
  link, the peer was registered with the relay, the message carried a ticket it held and that
  had not expired, the link now stands for the peer and the expiry of that ticket, and the
  ticket is gone.
\<close>

theorem ticket_admits_once:
  assumes "admitted (peer_step L e ev st) s = Some p" and "admitted st s \<noteq> Some p"
  shows "\<exists>m t. ev = LinkText s m \<and> ready st
    \<and> tget (tickets st) (to_string (jval m ''ticket'')) = Some t \<and> e_now e < t_expires t
    \<and> p = (t_peer t, t_expires t)
    \<and> tget (tickets (peer_step L e ev st)) (to_string (jval m ''ticket'')) = None"
proof -
  have "\<not> tame st (peer_step L e ev st)" using assms unfolding tame_def by blast
  then obtain s' m where ev: "ev = LinkText s' m" using tame_step by blast
  let ?t = "to_string (jval m ''ticket'')"
  have st': "peer_step L e ev st = link_message e s' m st" by (simp add: ev peer_step_def)
  obtain l where l: "tget (links st) s' = Some l"
    using assms st' by (cases "tget (links st) s'") (auto simp: link_message_def)
  have fresh: "\<not> l_authenticated l"
  proof
    assume "l_authenticated l"
    then have "links (link_message e s' m st) = links st"
      using l by (simp add: link_message_def Let_def split: option.split)
    then show False using assms st' by (simp add: admitted_def)
  qed
  then have hello: "peer_step L e ev st = link_hello e s' l m st" using l st' by (simp add: link_message_def Let_def)
  obtain t where t: "tget (tickets st) ?t = Some t" "t_expires t > e_now e" "ready st" "\<not> l_outgoing l"
    "to_string (jval m ''type'') = qs ''hello''"
    using assms unfolding hello
    by (auto simp: link_hello_def Let_def admitted_def split: if_splits option.splits)
  then have "links (link_hello e s' l m st) = tput s' (l\<lparr>l_peer := t_peer t, l_expires := t_expires t,
      l_authenticated := True\<rparr>) (links st)" "tickets (link_hello e s' l m st) = tdel ?t (tickets st)"
    by (simp_all add: link_hello_def Let_def link_send_def put_out_def)
  then show ?thesis using assms t ev unfolding hello
    by (auto simp: admitted_def split: if_splits option.splits)
qed

section \<open>A timeout handler that stops the peer\<close>

definition two_expired :: "peer_options \<Rightarrow> peer" where
  "two_expired g = (new_peer g)\<lparr>running := True, requests :=
     [(qs ''a'', \<lparr>n_peer = qs ''p'', n_payload = fmempty, n_transport = None, n_socket = None, n_deadline = 5\<rparr>),
      (qs ''b'', \<lparr>n_peer = qs ''p'', n_payload = fmempty, n_transport = None, n_socket = None, n_deadline = 5\<rparr>)]\<rparr>"


section \<open>Instances\<close>

definition demo_peer_options :: peer_options where
  "demo_peer_options = \<lparr>g_relay_url = blank_url, g_credential = [1], g_peer_id = qs ''p'', g_name = qs ''n'',
     g_service = qs ''files'', g_metadata = fmempty, g_host_files = False, g_local_enabled = False,
     g_local_hosting = False, g_listen_address = \<lparr>addr_family = Ipv4, addr_bytes = [0, 0, 0, 0],
       addr_loopback = False, addr_multicast = False, addr_unspecified = True, addr_text = qs ''0.0.0.0''\<rparr>,
     g_local_identity = False, g_fingerprint = [], g_local_addresses = [], g_local_timeout = 1200,
     g_request_timeout = 15000\<rparr>"

definition demo_peer_env :: peer_env where
  "demo_peer_env = \<lparr>e_now = 100, e_fresh = qs ''r'', e_sock = 7, e_relay_takes = (\<lambda>m. True),
     e_link_takes = (\<lambda>s m. True), e_handle = (\<lambda>p m. None), e_interfaces = [],
     e_contains = (\<lambda>a n b. False), e_build_url = (\<lambda>s h p. h), e_payload_bytes = (\<lambda>m. 2)\<rparr>"

definition demo_peer :: peer where
  "demo_peer = peer_step demo_lib demo_peer_env (CallRequest (qs ''h'') fmempty) (new_peer demo_peer_options)"

lemma demo_peer_run:
  "job_run (peer_job demo_lib) (new_peer demo_peer_options) [qs ''r''] [] demo_peer"
proof -
  have "issues demo_peer_env (CallRequest (qs ''h'') fmempty) = [qs ''r'']"
    by (simp add: issues_def demo_peer_env_def)
  moreover have "completed_ids demo_peer = completed_ids (new_peer demo_peer_options) @ []"
    by (simp add: demo_peer_def peer_step_def peer_request_def demo_peer_env_def new_peer_def completed_ids_def)
  ultimately have ev: "peer_job demo_lib (new_peer demo_peer_options) [qs ''r''] [] demo_peer"
    unfolding peer_job_def demo_peer_def by metis
  have "job_run (peer_job demo_lib) (new_peer demo_peer_options) [] [] (new_peer demo_peer_options)"
    by (rule run_start)
  from run_step [OF this ev] show ?thesis by simp
qed


text \<open>Example: nothing else was sent.\<close>

theorem peer_never_replays_witness:
  "distinct (sent_ids demo_peer) \<and> set (sent_ids demo_peer) \<subseteq> {qs ''r''}"
  using peer_never_replays [OF demo_peer_run] by simp

definition demo_ticket_peer :: peer where
  "demo_ticket_peer = (new_peer demo_peer_options)\<lparr>running := True, ready := True,
     tickets := [(qs ''T'', \<lparr>t_peer = qs ''q'', t_expires = 500\<rparr>)],
     links := [(3, \<lparr>l_peer = [], l_ticket = [], l_fingerprint = [], l_expires = 0, l_deadline = 200,
       l_outgoing = False, l_authenticated = False\<rparr>)]\<rparr>"

definition demo_hello :: jobject where
  "demo_hello = jobj [(''type'', jtext ''hello''), (''ticket'', jtext ''T'')]"

text \<open>Example: a link that presents a ticket.\<close>

theorem ticket_admits_once_witness:
  "admitted (peer_step demo_lib demo_peer_env (LinkText 3 demo_hello) demo_ticket_peer) 3 = Some (qs ''q'', 500)
   \<and> (\<exists>m. LinkText 3 demo_hello = LinkText 3 m
      \<and> tget (tickets (peer_step demo_lib demo_peer_env (LinkText 3 demo_hello) demo_ticket_peer))
          (to_string (jval m ''ticket'')) = None)"
proof -
  have a: "admitted (peer_step demo_lib demo_peer_env (LinkText 3 demo_hello) demo_ticket_peer) 3 = Some (qs ''q'', 500)"
    "admitted demo_ticket_peer 3 \<noteq> Some (qs ''q'', 500)"
    by code_simp+
  from ticket_admits_once [OF a] a(1) show ?thesis by auto
qed

end
