(* ===== verification/FileShare.thy ===== *)
theory FileShare
  imports Protocol
begin

text \<open>
  \<open>src/FileShare.cpp\<close>: the file share of a POSIX host. A request names an operation and a
  relative path; \<open>resolve\<close> checks the path by name, \<open>confined\<close> opens it component by
  component below the pinned root without following links, and \<open>handle_request\<close> lists,
  reads, writes or makes a directory. The system calls and the file provider's wrappers of
  them are the functions of \<open>native\<close>, over an abstract state \<open>'f\<close> of the file system and
  descriptors \<open>'n\<close>; a reading operation is given the states at its first check, at the read
  and at the final check, between which others may change files.
\<close>

named_theorems share_defs \<open>definitions of the file share\<close>

section \<open>What the platform provides\<close>

datatype kind = Regular | Directory | OtherKind

record filestat =
  f_dev :: int
  f_ino :: int
  f_size :: int
  f_kind :: kind
  f_sec :: int
  f_nsec :: int

text \<open>The \<open>QFileInfo\<close> accessors.\<close>

record fileinfo =
  i_dir :: bool
  i_symlink :: bool
  i_exists :: bool
  i_canonical :: qstring

record ('f, 'n) native =
  n_absolute :: "qstring \<Rightarrow> bool" \<comment> \<open>\<open>QDir::isAbsolutePath\<close>\<close>
  n_utf16 :: "qstring \<Rightarrow> bool" \<comment> \<open>\<open>QString::isValidUtf16\<close>\<close>
  n_control :: "qstring \<Rightarrow> bool" \<comment> \<open>\<open>Presentation::isControlFile\<close>\<close>
  n_encode :: "qstring \<Rightarrow> bytes" \<comment> \<open>\<open>FileDevice::encodeName\<close>\<close>
  n_decode :: "bytes \<Rightarrow> qstring" \<comment> \<open>\<open>FileDevice::decodeName\<close>\<close>
  n_clean :: "qstring \<Rightarrow> qstring" \<comment> \<open>\<open>QDir::cleanPath\<close>\<close>
  n_join :: "qstring \<Rightarrow> qstring \<Rightarrow> qstring" \<comment> \<open>\<open>QDir(a).filePath(b)\<close>\<close>
  n_info :: "'f \<Rightarrow> qstring \<Rightarrow> fileinfo"
  n_lstat :: "'f \<Rightarrow> bytes \<Rightarrow> filestat option"
  n_open :: "'f \<Rightarrow> bytes \<Rightarrow> 'n option" \<comment> \<open>a directory by absolute name, no link followed\<close>
  n_openat :: "'f \<Rightarrow> 'n \<Rightarrow> bytes \<Rightarrow> bool \<Rightarrow> 'n option" \<comment> \<open>no link followed; must the entry be a directory\<close>
  n_fstat :: "'f \<Rightarrow> 'n \<Rightarrow> filestat option"
  n_readdir :: "'f \<Rightarrow> 'n \<Rightarrow> bytes list option" \<comment> \<open>\<open>fdopendir\<close> and the names in \<open>readdir\<close> order\<close>
  n_fstatat :: "'f \<Rightarrow> 'n \<Rightarrow> bytes \<Rightarrow> filestat option"
  n_pread :: "'f \<Rightarrow> 'n \<Rightarrow> int \<Rightarrow> int \<Rightarrow> bytes option" \<comment> \<open>size, offset\<close>
  n_mkdirat :: "'n \<Rightarrow> bytes \<Rightarrow> 'f \<Rightarrow> bool \<times> 'f"
  n_creatat :: "'n \<Rightarrow> bytes \<Rightarrow> 'f \<Rightarrow> 'n option \<times> 'f" \<comment> \<open>\<open>O_CREAT | O_EXCL | O_WRONLY\<close>\<close>
  n_write :: "'n \<Rightarrow> bytes \<Rightarrow> 'f \<Rightarrow> int \<times> 'f"
  n_fsync :: "'n \<Rightarrow> 'f \<Rightarrow> bool"
  n_linkat :: "'n \<Rightarrow> bytes \<Rightarrow> bytes \<Rightarrow> 'f \<Rightarrow> bool \<times> 'f"
  n_unlinkat :: "'n \<Rightarrow> bytes \<Rightarrow> 'f \<Rightarrow> 'f"

section \<open>Paths\<close>

definition slash :: qchar where
  "slash = unit_of CHR ''/''"

definition path_parts :: "qstring \<Rightarrow> qstring list" where
  "path_parts path = (if path = [] then [] else split_on slash path)"

definition part_ok :: "('f, 'n) native \<Rightarrow> qstring \<Rightarrow> bool" where
  "part_ok N part \<longleftrightarrow> part \<noteq> [] \<and> part \<noteq> qs ''.'' \<and> part \<noteq> qs ''..''
     \<and> take 13 part \<noteq> qs ''.iiwebserver-'' \<and> \<not> n_control N part"

definition relative :: "('f, 'n) native \<Rightarrow> qstring \<Rightarrow> bool" where
  "relative N path \<longleftrightarrow> length path \<le> 4096 \<and> n_utf16 N path \<and> \<not> n_absolute N path
     \<and> unit_of (CHR 0x5C) \<notin> set path \<and> unit_of CHR '':'' \<notin> set path \<and> 0 \<notin> set path
     \<and> (path = [] \<or> list_all (part_ok N) (split_on slash path))"

record share =
  sh_root :: qstring
  sh_dev :: int
  sh_ino :: int

text \<open>The constructor; an unusable root leaves the root empty, which refuses every request.\<close>

definition file_share :: "('f, 'n) native \<Rightarrow> 'f \<Rightarrow> qstring \<Rightarrow> share" where
  "file_share N f rt =
     (let info = n_info N f rt;
          base = (if n_absolute N rt \<and> i_dir info \<and> \<not> i_symlink info
            \<and> i_canonical info = n_clean N rt then i_canonical info else [])
      in case (if base = [] then None else n_lstat N f (n_encode N base)) of
           None \<Rightarrow> \<lparr>sh_root = base, sh_dev = 0, sh_ino = 0\<rparr>
         | Some s \<Rightarrow> \<lparr>sh_root = base, sh_dev = f_dev s, sh_ino = f_ino s\<rparr>)"

text \<open>\<open>None\<close> stands for the empty string \<open>resolve\<close> returns on failure.\<close>

fun resolve_parts :: "('f, 'n) native \<Rightarrow> 'f \<Rightarrow> bool \<Rightarrow> qstring \<Rightarrow> qstring list \<Rightarrow> qstring option" where
  "resolve_parts N f missing current [] = Some current"
| "resolve_parts N f missing current (p # ps) =
     (let current' = n_join N current p; info = n_info N f current' in
      if i_symlink info \<or> (i_exists info \<and> i_canonical info \<noteq> current')
         \<or> (\<not> i_exists info \<and> \<not> (missing \<and> ps = [])) then None
      else resolve_parts N f missing current' ps)"

text \<open>\<open>guard\<close> is the result of the application's guard, true when there is none.\<close>

definition resolve :: "('f, 'n) native \<Rightarrow> 'f \<Rightarrow> bool \<Rightarrow> share \<Rightarrow> qstring \<Rightarrow> bool \<Rightarrow> qstring option" where
  "resolve N f guard sh path missing =
     (if sh_root sh = [] \<or> \<not> relative N path \<or> \<not> guard
         \<or> i_canonical (n_info N f (sh_root sh)) \<noteq> sh_root sh then None
      else resolve_parts N f missing (sh_root sh) (path_parts path))"

fun open_parts :: "('f, 'n) native \<Rightarrow> 'f \<Rightarrow> bool \<Rightarrow> 'n \<Rightarrow> qstring list \<Rightarrow> 'n option" where
  "open_parts N f directory fd [] = Some fd"
| "open_parts N f directory fd (p # ps) =
     (case n_openat N f fd (n_encode N p) (directory \<or> ps \<noteq> []) of
        None \<Rightarrow> None
      | Some next \<Rightarrow> open_parts N f directory next ps)"

definition confined :: "('f, 'n) native \<Rightarrow> 'f \<Rightarrow> share \<Rightarrow> qstring \<Rightarrow> bool \<Rightarrow> 'n option" where
  "confined N f sh path directory =
     (case n_open N f (n_encode N (sh_root sh)) of
        None \<Rightarrow> None
      | Some fd \<Rightarrow>
          case n_fstat N f fd of
            None \<Rightarrow> None
          | Some s \<Rightarrow>
              if f_dev s \<noteq> sh_dev sh \<or> f_ino s \<noteq> sh_ino sh then None
              else open_parts N f directory fd (path_parts path))"

definition file_version :: "filestat \<Rightarrow> qstring" where
  "file_version s = number_text (f_dev s) @ qs '':'' @ number_text (f_ino s) @ qs '':''
     @ number_text (f_size s) @ qs '':'' @ number_text (f_sec s) @ qs '':'' @ number_text (f_nsec s)"

section \<open>Operations\<close>

definition chunk_bytes :: int where
  "chunk_bytes = 256 * 1024"

definition list_entry :: "qstring \<Rightarrow> filestat \<Rightarrow> json" where
  "list_entry name s = JObj (jobj [(''name'', JStr name), (''directory'', JBool (f_kind s = Directory)),
     (''size'', JStr (number_text (f_size s))), (''version'', JStr (file_version s))])"

text \<open>The entry a directory name stands for, if it is listed at all.\<close>

definition visible_entry :: "('f, 'n) native \<Rightarrow> 'f \<Rightarrow> 'n \<Rightarrow> bytes \<Rightarrow> json option" where
  "visible_entry N f fd name =
     (if name = bs ''.'' \<or> name = bs ''..'' \<or> \<not> relative N (n_decode N name) then None
      else case n_fstatat N f fd name of
          None \<Rightarrow> None
        | Some s \<Rightarrow> if f_kind s = OtherKind then None else Some (list_entry (n_decode N name) s))"

text \<open>The \<open>readdir\<close> loop with its counter, its result list and the \<open>more\<close> flag.\<close>

fun list_loop :: "('f, 'n) native \<Rightarrow> 'f \<Rightarrow> 'n \<Rightarrow> int \<Rightarrow> int \<Rightarrow> json list \<Rightarrow> bytes list \<Rightarrow> json list \<times> bool" where
  "list_loop N f fd offset index entries [] = (entries, False)"
| "list_loop N f fd offset index entries (name # names) =
     (case visible_entry N f fd name of
        None \<Rightarrow> list_loop N f fd offset index entries names
      | Some entry \<Rightarrow>
          if index < offset then list_loop N f fd offset (index + 1) entries names
          else if length entries = 256 then (entries, True)
          else list_loop N f fd offset (index + 1) (entries @ [entry]) names)"

text \<open>An optional decimal member: absent is 0, \<open>None\<close> when it is no number.\<close>

definition number_member :: "lib \<Rightarrow> jobject \<Rightarrow> string \<Rightarrow> int option" where
  "number_member L m k =
     (if contains m k then to_longlong L (to_string (jval m k)) else Some 0)"

definition share_list :: "lib \<Rightarrow> ('f, 'n) native \<Rightarrow> share \<Rightarrow> 'f \<Rightarrow> qstring \<Rightarrow> jobject \<Rightarrow> jobject" where
  "share_list L N sh f path m =
     (case number_member L m ''cursor'' of
        None \<Rightarrow> error_object ''invalid_cursor''
      | Some offset \<Rightarrow>
          if offset < 0 \<or> offset > 1000000 then error_object ''invalid_cursor''
          else case confined N f sh path True of
              None \<Rightarrow> error_object ''not_directory''
            | Some fd \<Rightarrow>
                case n_readdir N f fd of
                  None \<Rightarrow> error_object ''not_directory''
                | Some names \<Rightarrow>
                    let (entries, more) = list_loop N f fd offset 0 [] names
                    in jobj [(''ok'', JBool True), (''entries'', JArr entries),
                      (''nextCursor'', JStr (if more
                         then number_text (offset + int (length entries)) else []))])"

definition share_read ::
  "lib \<Rightarrow> ('f, 'n) native \<Rightarrow> share \<Rightarrow> 'f \<Rightarrow> 'f \<Rightarrow> 'f \<Rightarrow> bool \<Rightarrow> qstring \<Rightarrow> jobject \<Rightarrow> jobject" where
  "share_read L N sh f f1 f2 stat_only path m =
     (case confined N f sh path False of
        None \<Rightarrow> error_object ''not_file''
      | Some fd \<Rightarrow>
          case n_fstat N f fd of
            None \<Rightarrow> error_object ''not_file''
          | Some s \<Rightarrow>
              if f_kind s \<noteq> Regular then error_object ''not_file''
              else
                let revision = file_version s in
                if contains m ''version'' \<and> to_string (jval m ''version'') \<noteq> revision
                then error_object ''file_changed''
                else if stat_only
                then jobj [(''ok'', JBool True), (''size'', JStr (number_text (f_size s))),
                  (''version'', JStr revision)]
                else case number_member L m ''offset'' of
                    None \<Rightarrow> error_object ''invalid_offset''
                  | Some offset \<Rightarrow>
                      if offset < 0 \<or> offset > f_size s then error_object ''invalid_offset''
                      else case n_pread N f1 fd (min chunk_bytes (f_size s - offset)) offset of
                          None \<Rightarrow> error_object ''read_failed''
                        | Some b \<Rightarrow>
                            case n_fstat N f2 fd of
                              None \<Rightarrow> error_object ''read_failed''
                            | Some after \<Rightarrow>
                                if file_version after \<noteq> revision then error_object ''file_changed''
                                else jobj [(''ok'', JBool True),
                                  (''data'', JStr (from_latin1 (b64_encode L b))),
                                  (''offset'', JStr (number_text offset)),
                                  (''size'', JStr (number_text (f_size s))),
                                  (''version'', JStr revision),
                                  (''eof'', JBool (offset + int (length b) = f_size s))])"

text \<open>
  The write loop: it stops when everything is written or a write returns nothing or an error.
\<close>

function write_loop :: "('f, 'n) native \<Rightarrow> 'n \<Rightarrow> bytes \<Rightarrow> int \<Rightarrow> 'f \<Rightarrow> int \<times> 'f" where
  "write_loop N fd b written f =
     (if written < int (length b) then
        (case n_write N fd (drop (nat written) b) f of
           (count, f') \<Rightarrow> if count \<le> 0 then (written, f') else write_loop N fd b (written + count) f')
      else (written, f))"
  by pat_completeness auto
termination by (relation "measure (\<lambda>(N, fd, b, w, f). nat (int (length b) - w))") auto

declare write_loop.simps [simp del]

definition parent_path :: "qstring \<Rightarrow> qstring" where
  "parent_path path =
     (if slash \<in> set path then rev (tl (dropWhile (\<lambda>u. u \<noteq> slash) (rev path))) else [])"

definition last_part :: "qstring \<Rightarrow> qstring" where
  "last_part path = last (split_on slash path)"

definition temporary_name :: "qstring \<Rightarrow> bytes" where
  "temporary_name uid = bs ''.iiwebserver-'' @ to_latin1 uid"

text \<open>Writing the new file under a temporary name and publishing it with a link.\<close>

definition publish :: "('f, 'n) native \<Rightarrow> 'n \<Rightarrow> qstring \<Rightarrow> bytes \<Rightarrow> bytes \<Rightarrow> 'f \<Rightarrow> jobject \<times> 'f" where
  "publish N dir uid name b f =
     (case n_creatat N dir (temporary_name uid) f of
        (None, f1) \<Rightarrow> (error_object ''write_failed'', f1)
      | (Some fd, f1) \<Rightarrow>
          case write_loop N fd b 0 f1 of (written, f2) \<Rightarrow>
            case (if written = int (length b) \<and> n_fsync N fd f2
                  then n_linkat N dir (temporary_name uid) name f2 else (False, f2)) of
              (ok, f3) \<Rightarrow>
                (if ok then jobj [(''ok'', JBool True), (''size'', JStr (number_text written))]
                 else error_object ''write_failed_or_exists'',
                 n_unlinkat N dir (temporary_name uid) f3))"

definition share_write ::
  "lib \<Rightarrow> ('f, 'n) native \<Rightarrow> share \<Rightarrow> qstring \<Rightarrow> bool \<Rightarrow> qstring \<Rightarrow> jobject \<Rightarrow> 'f \<Rightarrow> jobject \<times> 'f" where
  "share_write L N sh uid mkdir path m f =
     (if path = [] then (error_object ''invalid_path'', f)
      else
        let name = n_encode N (last_part path) in
        case confined N f sh (parent_path path) True of
          None \<Rightarrow> (error_object ''not_directory'', f)
        | Some dir \<Rightarrow>
            if mkdir then
              (case n_mkdirat N dir name f of
                 (ok, f') \<Rightarrow> (if ok then jobj [(''ok'', JBool True)]
                   else error_object ''create_failed_or_exists'', f'))
            else
              let encoded = to_latin1 (to_string (jval m ''data'')) in
              if int (length encoded) > (chunk_bytes + 2) div 3 * 4
              then (error_object ''write_too_large'', f)
              else case b64_decode L encoded of
                  None \<Rightarrow> (error_object ''invalid_data'', f)
                | Some b \<Rightarrow>
                    if \<not> is_string (jval m ''data'') \<or> int (length b) > chunk_bytes
                    then (error_object ''invalid_data'', f)
                    else publish N dir uid name b f)"

definition handle_request ::
  "lib \<Rightarrow> ('f, 'n) native \<Rightarrow> share \<Rightarrow> bool \<Rightarrow> qstring \<Rightarrow> 'f \<Rightarrow> 'f \<Rightarrow> jobject \<Rightarrow> 'f \<Rightarrow> jobject \<times> 'f" where
  "handle_request L N sh guard uid f1 f2 m f =
     (let op = to_string (jval m ''op''); path = to_string (jval m ''path'') in
      if contains m ''path'' \<and> \<not> is_string (jval m ''path'') then (error_object ''invalid_path'', f)
      else case resolve N f guard sh path (op = qs ''write'' \<or> op = qs ''mkdir'') of
          None \<Rightarrow> (error_object ''invalid_or_unavailable_path'', f)
        | Some absolute \<Rightarrow>
            if absolute = [] then (error_object ''invalid_or_unavailable_path'', f)
            else if op = qs ''list'' then (share_list L N sh f path m, f)
            else if op = qs ''read'' \<or> op = qs ''stat''
            then (share_read L N sh f f1 f2 (op = qs ''stat'') path m, f)
            else if op = qs ''write'' \<or> op = qs ''mkdir''
            then share_write L N sh uid (op = qs ''mkdir'') path m f
            else (error_object ''unsupported_operation'', f))"

end
