(* ===== verification/FileShareExamples.thy ===== *)
theory FileShareExamples
  imports FileShare
begin

text \<open>
  A small file system for the examples of the file share's theorems: directories are
  numbers, names are links from a directory and a name to a number, and every file has its
  bytes. The calls do what they are documented to do on it; directory 0 is the root.
\<close>

record demo_fs =
  fs_links :: "((nat \<times> bytes) \<times> nat) list"
  fs_data :: "nat \<Rightarrow> bytes"

definition fs_dir :: "demo_fs \<Rightarrow> nat \<Rightarrow> bytes \<Rightarrow> nat option" where
  "fs_dir f d nm = map_of (fs_links f) (d, nm)"

definition fs_fresh :: "demo_fs \<Rightarrow> nat" where
  "fs_fresh f = Suc (sum_list (map snd (fs_links f)))"

definition fs_stat :: "demo_fs \<Rightarrow> nat \<Rightarrow> filestat" where
  "fs_stat f n = (if n = 0 then \<lparr>f_dev = 1, f_ino = 0, f_size = 0, f_kind = Directory, f_sec = 0, f_nsec = 0\<rparr>
     else \<lparr>f_dev = 1, f_ino = int n, f_size = int (length (fs_data f n)), f_kind = Regular, f_sec = 5, f_nsec = 7\<rparr>)"

definition fs_link :: "nat \<Rightarrow> bytes \<Rightarrow> nat \<Rightarrow> demo_fs \<Rightarrow> demo_fs" where
  "fs_link d nm h f = f\<lparr>fs_links := ((d, nm), h) # fs_links f\<rparr>"

definition fs_creat :: "nat \<Rightarrow> bytes \<Rightarrow> demo_fs \<Rightarrow> nat option \<times> demo_fs" where
  "fs_creat d nm f = (if fs_dir f d nm \<noteq> None then (None, f)
     else (Some (fs_fresh f), (fs_link d nm (fs_fresh f) f)\<lparr>fs_data := (fs_data f)(fs_fresh f := [])\<rparr>))"

definition fs_hardlink :: "nat \<Rightarrow> bytes \<Rightarrow> bytes \<Rightarrow> demo_fs \<Rightarrow> bool \<times> demo_fs" where
  "fs_hardlink d src dst f =
     (case (fs_dir f d src, fs_dir f d dst) of
        (Some h, None) \<Rightarrow> (True, fs_link d dst h f)
      | _ \<Rightarrow> (False, f))"

definition demo_native :: "(demo_fs, nat) native" where
  "demo_native = \<lparr>
     n_absolute = (\<lambda>p. take 1 p = [slash]), n_utf16 = (\<lambda>p. True), n_control = (\<lambda>p. False),
     n_encode = to_latin1, n_decode = from_latin1, n_clean = (\<lambda>p. p), n_join = (\<lambda>a b. a @ slash # b),
     n_info = (\<lambda>f p. \<lparr>i_dir = True, i_symlink = False, i_exists = True, i_canonical = p\<rparr>),
     n_lstat = (\<lambda>f p. Some (fs_stat f 0)),
     n_open = (\<lambda>f p. Some 0),
     n_openat = (\<lambda>f d nm directory. fs_dir f d nm),
     n_fstat = (\<lambda>f n. Some (fs_stat f n)),
     n_readdir = (\<lambda>f d. Some (map (snd \<circ> fst) (filter (\<lambda>e. fst (fst e) = d) (fs_links f)))),
     n_fstatat = (\<lambda>f d nm. map_option (fs_stat f) (fs_dir f d nm)),
     n_pread = (\<lambda>f n size offset. Some (take (nat size) (drop (nat offset) (fs_data f n)))),
     n_mkdirat = (\<lambda>d nm f. (False, f)),
     n_creatat = fs_creat,
     n_write = (\<lambda>n b f. (int (length b), f\<lparr>fs_data := (fs_data f)(n := fs_data f n @ b)\<rparr>)),
     n_fsync = (\<lambda>n f. True),
     n_linkat = fs_hardlink,
     n_unlinkat = (\<lambda>d nm f. f\<lparr>fs_links := filter (\<lambda>e. fst e \<noteq> (d, nm)) (fs_links f)\<rparr>)\<rparr>"

definition demo_files :: demo_fs where
  "demo_files = \<lparr>fs_links = [((0, bs ''a''), 1)], fs_data = (\<lambda>n. if n = 1 then [104, 105] else [])\<rparr>"

definition demo_share :: share where
  "demo_share = \<lparr>sh_root = qs ''/r'', sh_dev = 1, sh_ino = 0\<rparr>"

section \<open>The calls do what is documented\<close>

lemma fs_fresh_unused: "fs_dir f d nm \<noteq> Some (fs_fresh f)"
proof
  assume "fs_dir f d nm = Some (fs_fresh f)"
  then have "fs_fresh f \<in> set (map snd (fs_links f))"
    unfolding fs_dir_def by (metis map_of_SomeD image_eqI set_map snd_conv)
  then show False using member_le_sum_list [of "fs_fresh f" "map snd (fs_links f)"]
    by (simp add: fs_fresh_def)
qed

lemma fs_dir_link: "fs_dir (fs_link d nm h f) = (fs_dir f)(d := (fs_dir f d)(nm \<mapsto> h))"
  by (auto simp: fs_dir_def fs_link_def fun_eq_iff)

lemma fs_dir_data [simp]: "fs_dir (f\<lparr>fs_data := x\<rparr>) = fs_dir f"
  by (simp add: fs_dir_def fun_eq_iff)

lemma map_of_filter_key: "map_of (filter (\<lambda>e. fst e \<noteq> k) t) = (map_of t)(k := None)"
  by (induction t) (auto simp: fun_eq_iff)

lemma fs_dir_unlink:
  "fs_dir (f\<lparr>fs_links := filter (\<lambda>e. fst e \<noteq> (d, nm)) (fs_links f)\<rparr>)
     = (fs_dir f)(d := (fs_dir f d)(nm := None))"
  by (auto simp: fs_dir_def fun_eq_iff map_of_filter_key)

lemma latin1_unit: "(if u < 256 then ucast u else byte_of CHR ''?'') = byte_of c \<Longrightarrow> c \<noteq> CHR ''?'' \<Longrightarrow>
    u = unit_of c"
  by (cases "u < 256")
    (simp_all add: word_unat_eq_iff [where 'a = 8] word_unat_eq_iff [where 'a = 16] unat_ucast
      unat_byte_of unat_unit_of word_less_nat_alt flip: byte_of_eq)

lemma to_latin1_prefix:
  "take (length s) (to_latin1 p) = bs s \<Longrightarrow> CHR ''?'' \<notin> set s \<Longrightarrow> take (length s) p = qs s"
proof (induction s arbitrary: p)
  case (Cons c s)
  then show ?case
    by (cases p) (auto simp: to_latin1_def bs_def qs_def dest: latin1_unit)
qed simp

lemma demo_encode:
  "take 13 (n_encode demo_native p) = bs ''.iiwebserver-'' \<longrightarrow> take 13 p = qs ''.iiwebserver-''"
  using to_latin1_prefix [of "''.iiwebserver-''" p] by (simp add: demo_native_def numeral_eq_Suc)

end
