(* ===== verification/FileShareProperties.thy ===== *)
theory FileShareProperties
  imports FileShareExamples
begin

text \<open>
  What the file share promises: it stays below its pinned root, its pages tile a directory,
  its chunks add up to the file, and writing publishes a complete new file or changes
  nothing. What is used of the system calls is a named predicate over \<open>native\<close>.
\<close>

section \<open>Confinement\<close>

text \<open>A descriptor reached from another one by opening safe names, one component at a time.\<close>

inductive below :: "('f, 'n) native \<Rightarrow> 'f \<Rightarrow> 'n \<Rightarrow> qstring list \<Rightarrow> 'n \<Rightarrow> bool" for N f where
  below_here: "below N f fd [] fd"
| below_step: "n_openat N f fd (n_encode N p) d = Some next \<Longrightarrow> part_ok N p \<Longrightarrow>
     below N f next ps fd' \<Longrightarrow> below N f fd (p # ps) fd'"

inductive_cases below_ConsE: "below N f fd (p # ps) fd'"

lemma open_parts_below:
  "open_parts N f d fd ps = Some fd' \<Longrightarrow> list_all (part_ok N) ps \<Longrightarrow> below N f fd ps fd'"
  by (induction N f d fd ps rule: open_parts.induct)
    (auto intro: below_here below_step split: option.splits)

text \<open>The pinned root: the directory of the recorded device and inode.\<close>

definition pinned :: "('f, 'n) native \<Rightarrow> 'f \<Rightarrow> share \<Rightarrow> 'n \<Rightarrow> bool" where
  "pinned N f sh fd \<longleftrightarrow> n_open N f (n_encode N (sh_root sh)) = Some fd
     \<and> (\<exists>s. n_fstat N f fd = Some s \<and> f_dev s = sh_dev sh \<and> f_ino s = sh_ino sh)"

lemma confined_below:
  assumes "confined N f sh path d = Some fd" "list_all (part_ok N) (path_parts path)"
  shows "\<exists>base. pinned N f sh base \<and> below N f base (path_parts path) fd"
  using assms open_parts_below
  by (fastforce simp: confined_def pinned_def split: option.splits if_splits)

lemma relative_parts: "relative N path \<Longrightarrow> list_all (part_ok N) (path_parts path)"
  by (auto simp: relative_def path_parts_def)

lemma resolve_relative:
  "resolve N f guard sh path missing = Some a \<Longrightarrow>
     relative N path \<and> guard \<and> i_canonical (n_info N f (sh_root sh)) = sh_root sh"
  by (simp add: resolve_def split: if_splits)

lemma last_slash:
  assumes "slash \<in> set path"
  obtains a b where "path = a @ slash # b" "slash \<notin> set b" "parent_path path = a"
proof -
  let ?r = "dropWhile (\<lambda>u. u \<noteq> slash) (rev path)"
  have "?r \<noteq> []" using assms by (simp add: dropWhile_eq_Nil_conv)
  then obtain t where r: "?r = slash # t"
    using hd_dropWhile [of "\<lambda>u. u \<noteq> slash" "rev path"] by (cases ?r) auto
  have "rev path = takeWhile (\<lambda>u. u \<noteq> slash) (rev path) @ slash # t"
    using takeWhile_dropWhile_id [of "\<lambda>u. u \<noteq> slash" "rev path"] r by simp
  then have "path = rev t @ slash # rev (takeWhile (\<lambda>u. u \<noteq> slash) (rev path))"
    by (metis rev_append rev_rev_ident append_Cons append_Nil append_assoc rev.simps(2))
  moreover have "slash \<notin> set (takeWhile (\<lambda>u. u \<noteq> slash) (rev path))"
    using set_takeWhileD by fastforce
  moreover have "parent_path path = rev t" using assms r by (simp add: parent_path_def)
  ultimately show thesis using that by (metis set_rev)
qed

text \<open>A path is its parent's parts and its last part.\<close>

lemma parent_and_last:
  assumes "relative N path" "path \<noteq> []"
  shows "split_on slash path = path_parts (parent_path path) @ [last_part path]"
proof (cases "slash \<in> set path")
  case False
  then show ?thesis by (simp add: split_on_no parent_path_def path_parts_def last_part_def)
next
  case True
  then obtain a b where ab: "path = a @ slash # b" "slash \<notin> set b" "parent_path path = a"
    by (rule last_slash)
  have sp: "split_on slash path = split_on slash a @ [b]"
    unfolding ab(1) by (simp add: split_on_append split_on_no [OF ab(2)])
  moreover have "a \<noteq> []"
  proof
    assume "a = []"
    then have "[] \<in> set (split_on slash path)" by (simp add: sp)
    then show False using assms by (auto simp: relative_def list_all_iff part_ok_def)
  qed
  ultimately show ?thesis using ab(3) by (simp add: path_parts_def last_part_def)
qed


section \<open>Listing\<close>

definition visible :: "('f, 'n) native \<Rightarrow> 'f \<Rightarrow> 'n \<Rightarrow> bytes list \<Rightarrow> json list" where
  "visible N f fd names = List.map_filter (visible_entry N f fd) names"

lemma visible_Cons: "visible N f fd (name # names) =
    (case visible_entry N f fd name of None \<Rightarrow> visible N f fd names
     | Some e \<Rightarrow> e # visible N f fd names)"
  by (simp add: visible_def List.map_filter_def split: option.split)

lemma list_loop_filling:
  assumes "offset \<le> index" "length es \<le> 256"
  shows "list_loop N f fd offset index es names =
    (es @ take (256 - length es) (visible N f fd names),
     length es + length (visible N f fd names) > 256)"
  using assms
proof (induction names arbitrary: index es)
  case Nil
  then show ?case by (simp add: visible_def List.map_filter_def)
next
  case (Cons name names)
  then show ?case
    by (auto simp: visible_Cons take_Cons' split: option.split)
qed

lemma list_loop_page:
  assumes "0 \<le> index" "index \<le> offset"
  shows "list_loop N f fd offset index [] names =
    (take 256 (drop (nat (offset - index)) (visible N f fd names)),
     length (visible N f fd names) > nat (offset - index) + 256)"
  using assms
proof (induction names arbitrary: index)
  case Nil
  then show ?case by (simp add: visible_def List.map_filter_def)
next
  case (Cons name names)
  show ?case
  proof (cases "visible_entry N f fd name")
    case None
    then show ?thesis using Cons by (simp add: visible_Cons)
  next
    case (Some e)
    show ?thesis
    proof (cases "index < offset")
      case True
      then have "nat (offset - index) = Suc (nat (offset - (index + 1)))" by linarith
      then show ?thesis using Some True Cons.IH [of "index + 1"] Cons.prems
        by (simp add: visible_Cons add.commute)
    next
      case False
      then have "index = offset" using Cons.prems by simp
      then show ?thesis
        using Some list_loop_filling [of offset "index + 1" "[e]" N f fd names]
        by (simp add: visible_Cons)
    qed
  qed
qed

lemma list_page:
  assumes "number_member L m ''cursor'' = Some (int k)" "k \<le> 1000000"
    "confined N f sh path True = Some fd" "n_readdir N f fd = Some names"
  defines "v \<equiv> visible N f fd names"
  shows "share_list L N sh f path m = jobj [(''ok'', JBool True),
    (''entries'', JArr (take 256 (drop k v))),
    (''nextCursor'', JStr (if length v > k + 256 then number_text (int (k + 256)) else []))]"
proof -
  have "list_loop N f fd (int k) 0 [] names = (take 256 (drop k v), length v > k + 256)"
    using list_loop_page [of 0 "int k" N f fd names] by (simp add: v_def)
  then show ?thesis using assms by (auto simp: share_list_def Let_def)
qed

text \<open>A client that follows the cursors, starting without one, for at most \<open>n\<close> pages.\<close>

definition list_query :: "qstring \<Rightarrow> qstring \<Rightarrow> jobject" where
  "list_query path cursor =
     (if cursor = [] then jobj [(''op'', jtext ''list''), (''path'', JStr path)]
      else jobj [(''op'', jtext ''list''), (''path'', JStr path), (''cursor'', JStr cursor)])"

fun follow_pages :: "(jobject \<Rightarrow> jobject) \<Rightarrow> qstring \<Rightarrow> nat \<Rightarrow> qstring \<Rightarrow> json list option" where
  "follow_pages serve path 0 cursor = None"
| "follow_pages serve path (Suc n) cursor =
     (let reply = serve (list_query path cursor); next = to_string (jval reply ''nextCursor'') in
      if jval reply ''ok'' \<noteq> JBool True then None
      else if next = [] then Some (to_array (jval reply ''entries''))
      else map_option (\<lambda>es. to_array (jval reply ''entries'') @ es) (follow_pages serve path n next))"

lemma follow_step:
  "serve (list_query path c) = jobj [(''ok'', JBool True), (''entries'', JArr es),
      (''nextCursor'', JStr nxt)] \<Longrightarrow>
    follow_pages serve path (Suc n) c
      = (if nxt = [] then Some es else map_option (\<lambda>xs. es @ xs) (follow_pages serve path n nxt))"
  by (simp add: Let_def)

declare follow_pages.simps(2) [simp del]

lemma number_text_nonempty [simp]: "number_text i \<noteq> []"
proof -
  have "digits j \<noteq> []" for j by (subst digits.simps) simp
  then show ?thesis by (simp add: number_text_def)
qed

lemma list_query_reads [simp]:
  "jval (list_query path c) ''op'' = jtext ''list''" "jval (list_query path c) ''path'' = JStr path"
  by (simp_all add: list_query_def)

lemma list_query_cursor:
  "number_member L (list_query path c) ''cursor'' = (if c = [] then Some 0 else to_longlong L c)"
proof (cases "c = []")
  case True
  then have "\<not> contains (list_query path c) ''cursor''"
    by (simp add: list_query_def contains_def jobj_def jinsert_def)
  then show ?thesis using True by (simp add: number_member_def)
next
  case False
  then have "contains (list_query path c) ''cursor''"
    by (simp add: list_query_def contains_def jobj_def jinsert_def)
  then show ?thesis using False by (simp add: number_member_def list_query_def)
qed

lemma follow_from:
  assumes page: "\<And>k. k * 256 \<le> length v \<Longrightarrow>
    serve (list_query path (if k = 0 then [] else number_text (int (k * 256)))) = jobj [(''ok'', JBool True),
      (''entries'', JArr (take 256 (drop (k * 256) v))),
      (''nextCursor'', JStr (if length v > k * 256 + 256 then number_text (int (k * 256 + 256)) else []))]"
  shows "k * 256 \<le> length v \<Longrightarrow> length v \<le> (k + n) * 256 + 256 \<Longrightarrow>
    follow_pages serve path (Suc n) (if k = 0 then [] else number_text (int (k * 256)))
      = Some (drop (k * 256) v)"
proof (induction n arbitrary: k)
  case (0 k)
  then show ?case using page [of k] by (simp add: follow_step)
next
  case (Suc n k)
  let ?c = "if k = 0 then [] else number_text (int (k * 256))"
  note page = page [OF Suc.prems(1)]
  show ?case
  proof (cases "length v > k * 256 + 256")
    case False
    then show ?thesis using page by (simp add: follow_step)
  next
    case True
    have "follow_pages serve path (Suc n) (number_text (int (k * 256 + 256))) = Some (drop (k * 256 + 256) v)"
      using Suc.IH [of "Suc k"] True Suc.prems by (simp add: add.commute)
    moreover have "take 256 (drop (k * 256) v) @ drop (k * 256 + 256) v = drop (k * 256) v"
      using append_take_drop_id [of 256 "drop (k * 256) v"] by (simp add: add.commute)
    ultimately show ?thesis
      using True follow_step [where serve = serve and path = path and c = ?c and n = "Suc n", OF page]
      by simp
  qed
qed

text \<open>A server whose every page is its part of one list hands that list to the client.\<close>

lemma follow_tiles:
  assumes num: "\<forall>i\<ge>0. to_longlong L (number_text i) = Some i"
    and page: "\<And>k c. k \<le> length v \<Longrightarrow> number_member L (list_query path c) ''cursor'' = Some (int k) \<Longrightarrow>
      serve (list_query path c) = jobj [(''ok'', JBool True), (''entries'', JArr (take 256 (drop k v))),
        (''nextCursor'', JStr (if length v > k + 256 then number_text (int (k + 256)) else []))]"
  shows "follow_pages serve path (Suc (length v div 256)) [] = Some v"
proof -
  have "length v \<le> (0 + length v div 256) * 256 + 256"
    using dividend_less_div_times [of 256 "length v"] by simp
  from follow_from [where serve = serve and path = path, OF page _ this] show ?thesis
    using num by (simp add: list_query_cursor)
qed

lemma handle_list:
  assumes "resolve N f guard sh path False = Some a" "a \<noteq> []"
    "to_string (jval m ''op'') = qs ''list''" "jval m ''path'' = JStr path"
  shows "fst (handle_request L N sh guard uid f1 f2 m f) = share_list L N sh f path m"
  using assms by (simp add: handle_request_def Let_def)

text \<open>
  C13: The pages of a directory tile it: while the directory stays as it is, a client that
  starts without a cursor and follows the cursors gets, after at most one page per 256
  entries and one more, exactly the visible entries in directory order, none twice and none
  left out. Used of Qt: a printed number reads back; and the directory has at most 1000000
  visible entries, the largest cursor that is served.
\<close>

theorem listing_complete:
  assumes "resolve N f guard sh path False = Some a" and "a \<noteq> []"
    and "confined N f sh path True = Some fd" and "n_readdir N f fd = Some names"
    and "\<forall>i\<ge>0. to_longlong L (number_text i) = Some i"
    and "length (visible N f fd names) \<le> 1000000"
  shows "follow_pages (\<lambda>m. fst (handle_request L N sh guard uid f1 f2 m f)) path
    (Suc (length (visible N f fd names) div 256)) [] = Some (visible N f fd names)"
proof (rule follow_tiles [OF assms(5)])
  fix k c
  assume k: "k \<le> length (visible N f fd names)" "number_member L (list_query path c) ''cursor'' = Some (int k)"
  show "fst (handle_request L N sh guard uid f1 f2 (list_query path c) f) = jobj [(''ok'', JBool True),
      (''entries'', JArr (take 256 (drop k (visible N f fd names)))), (''nextCursor'',
        JStr (if length (visible N f fd names) > k + 256 then number_text (int (k + 256)) else []))]"
    using handle_list [OF assms(1,2)] list_page [OF k(2) _ assms(3,4)] k(1) assms(6) by simp
qed

section \<open>Reading\<close>

text \<open>
  A chunk is never taken from two versions of a file: when a read succeeds, the file had
  the reported version, size and kind when it was opened and the same version after the
  bytes were read, the client's version agrees with it if it gave one, the offset lies within
  the size, at most 256 KiB were asked for there, and the end-of-file flag says whether the
  chunk reaches the size.
\<close>

theorem read_single_version:
  assumes "jval (share_read L N sh f f1 f2 False path m) ''ok'' = JBool True"
  shows "\<exists>fd s after offset b. confined N f sh path False = Some fd \<and> n_fstat N f fd = Some s
    \<and> f_kind s = Regular \<and> n_fstat N f2 fd = Some after \<and> file_version after = file_version s
    \<and> (contains m ''version'' \<longrightarrow> to_string (jval m ''version'') = file_version s)
    \<and> number_member L m ''offset'' = Some offset \<and> 0 \<le> offset \<and> offset \<le> f_size s
    \<and> n_pread N f1 fd (min 262144 (f_size s - offset)) offset = Some b
    \<and> jval (share_read L N sh f f1 f2 False path m) ''data'' = JStr (from_latin1 (b64_encode L b))
    \<and> jval (share_read L N sh f f1 f2 False path m) ''version'' = JStr (file_version s)
    \<and> jval (share_read L N sh f f1 f2 False path m) ''eof'' = JBool (offset + int (length b) = f_size s)"
proof -
  let ?r = "share_read L N sh f f1 f2 False path m"
  obtain fd where fd: "confined N f sh path False = Some fd"
    using assms by (cases "confined N f sh path False") (auto simp: share_read_def Let_def split: if_splits)
  obtain s where s: "n_fstat N f fd = Some s"
    using assms fd by (cases "n_fstat N f fd") (auto simp: share_read_def Let_def split: if_splits)
  have ver: "f_kind s = Regular" "contains m ''version'' \<longrightarrow> to_string (jval m ''version'') = file_version s"
    using assms fd s by (auto simp: share_read_def Let_def split: if_splits)
  obtain offset where offset: "number_member L m ''offset'' = Some offset"
    using assms fd s ver by (cases "number_member L m ''offset''") (auto simp: share_read_def Let_def split: if_splits)
  have range: "0 \<le> offset" "offset \<le> f_size s"
    using assms fd s ver offset by (auto simp: share_read_def Let_def split: if_splits)
  obtain b where b: "n_pread N f1 fd (min chunk_bytes (f_size s - offset)) offset = Some b"
    using assms fd s ver offset range
    by (cases "n_pread N f1 fd (min chunk_bytes (f_size s - offset)) offset") (auto simp: share_read_def Let_def split: if_splits)
  obtain after where after: "n_fstat N f2 fd = Some after"
    using assms fd s ver offset range b by (cases "n_fstat N f2 fd") (auto simp: share_read_def Let_def split: if_splits)
  have same: "file_version after = file_version s"
    using assms fd s ver offset range b after by (auto simp: share_read_def Let_def split: if_splits)
  have "?r = jobj [(''ok'', JBool True), (''data'', JStr (from_latin1 (b64_encode L b))),
      (''offset'', JStr (number_text offset)), (''size'', JStr (number_text (f_size s))),
      (''version'', JStr (file_version s)), (''eof'', JBool (offset + int (length b) = f_size s))]"
    using fd s ver offset range b after same by (auto simp: share_read_def Let_def)
  then show ?thesis
    using fd s ver offset range b after same
    by (intro exI [of _ fd] exI [of _ s] exI [of _ after] exI [of _ offset] exI [of _ b])
      (simp add: chunk_bytes_def)
qed

text \<open>A client that reads chunk after chunk of one version from an offset.\<close>

definition read_query :: "qstring \<Rightarrow> qstring \<Rightarrow> nat \<Rightarrow> jobject" where
  "read_query path version k = jobj [(''op'', jtext ''read''), (''path'', JStr path),
     (''version'', JStr version), (''offset'', JStr (number_text (int k)))]"

fun download :: "lib \<Rightarrow> (jobject \<Rightarrow> jobject) \<Rightarrow> qstring \<Rightarrow> qstring \<Rightarrow> nat \<Rightarrow> nat \<Rightarrow> bytes option" where
  "download L serve path version 0 k = None"
| "download L serve path version (Suc n) k =
     (let reply = serve (read_query path version k) in
      if jval reply ''ok'' \<noteq> JBool True then None
      else case b64_decode L (to_latin1 (to_string (jval reply ''data''))) of
          None \<Rightarrow> None
        | Some b \<Rightarrow>
            if jval reply ''eof'' = JBool True then Some b
            else map_option (\<lambda>rest. b @ rest) (download L serve path version n (k + length b)))"

text \<open>
  What \<open>pread\<close> is documented to do on an unchanged regular file: it returns a prefix of the
  bytes at the offset, no more than asked for and at least one before the end.
\<close>

definition reads_file :: "('f, 'n) native \<Rightarrow> 'f \<Rightarrow> 'n \<Rightarrow> filestat \<Rightarrow> bytes \<Rightarrow> bool" where
  "reads_file N f fd s content \<longleftrightarrow>
     n_fstat N f fd = Some s \<and> f_kind s = Regular \<and> f_size s = int (length content)
     \<and> (\<forall>k n. k \<le> length content \<longrightarrow> (\<exists>b. n_pread N f fd (int n) (int k) = Some b
          \<and> b = take (length b) (drop k content) \<and> length b \<le> n
          \<and> (0 < n \<longrightarrow> k < length content \<longrightarrow> b \<noteq> [])))"

lemma read_chunk:
  assumes "confined N f sh path False = Some fd" "reads_file N f fd s content"
    "\<forall>i\<ge>0. to_longlong L (number_text i) = Some i" "k \<le> length content"
  obtains b where "b = take (length b) (drop k content)" "k < length content \<Longrightarrow> b \<noteq> []"
    "share_read L N sh f f f False path (read_query path (file_version s) k) = jobj [(''ok'', JBool True),
       (''data'', JStr (from_latin1 (b64_encode L b))), (''offset'', JStr (number_text (int k))),
       (''size'', JStr (number_text (f_size s))), (''version'', JStr (file_version s)),
       (''eof'', JBool (k + length b = length content))]"
proof -
  let ?n = "min 262144 (length content - k)"
  obtain b where b: "n_pread N f fd (int ?n) (int k) = Some b" "b = take (length b) (drop k content)"
    "length b \<le> ?n" "0 < ?n \<longrightarrow> k < length content \<longrightarrow> b \<noteq> []"
    using assms(2,4) unfolding reads_file_def by blast
  have n: "min chunk_bytes (int (length content) - int k) = int ?n"
    using assms(4) by (simp add: chunk_bytes_def of_nat_diff)
  have offset: "number_member L (read_query path (file_version s) k) ''offset'' = Some (int k)"
    using assms(3) by (simp add: number_member_def read_query_def contains_def jobj_def jinsert_def jval_def)
  have version: "to_string (jval (read_query path (file_version s) k) ''version'') = file_version s"
    by (simp add: read_query_def)
  have "share_read L N sh f f f False path (read_query path (file_version s) k) = jobj [(''ok'', JBool True),
       (''data'', JStr (from_latin1 (b64_encode L b))), (''offset'', JStr (number_text (int k))),
       (''size'', JStr (number_text (f_size s))), (''version'', JStr (file_version s)),
       (''eof'', JBool (int k + int (length b) = f_size s))]"
    using assms(1,2,4) b(1) n offset version by (simp add: share_read_def reads_file_def Let_def)
  moreover have "int k + int (length b) = f_size s \<longleftrightarrow> k + length b = length content"
    using assms(2) by (auto simp: reads_file_def)
  ultimately show thesis using that [of b] b by auto
qed

lemma download_from:
  assumes serve: "\<And>k. serve (read_query path (file_version s) k)
      = share_read L N sh f f f False path (read_query path (file_version s) k)"
    and fd: "confined N f sh path False = Some fd" "reads_file N f fd s content"
    and qt: "\<forall>i\<ge>0. to_longlong L (number_text i) = Some i" "\<forall>b. b64_decode L (b64_encode L b) = Some b"
  shows "k \<le> length content \<Longrightarrow> length content - k \<le> n \<Longrightarrow>
    download L serve path (file_version s) (Suc n) k = Some (drop k content)"
proof (induction n arbitrary: k)
  case (0 k)
  obtain b where b: "b = take (length b) (drop k content)"
    "share_read L N sh f f f False path (read_query path (file_version s) k) = jobj [(''ok'', JBool True),
       (''data'', JStr (from_latin1 (b64_encode L b))), (''offset'', JStr (number_text (int k))),
       (''size'', JStr (number_text (f_size s))), (''version'', JStr (file_version s)),
       (''eof'', JBool (k + length b = length content))]"
    using 0 read_chunk [OF fd qt(1)] by blast
  have "b = []" using b(1) 0 by simp
  then show ?case using 0 b(2) qt(2) by (simp add: serve Let_def)
next
  case (Suc n k)
  obtain b where b: "b = take (length b) (drop k content)" "k < length content \<Longrightarrow> b \<noteq> []"
    "share_read L N sh f f f False path (read_query path (file_version s) k) = jobj [(''ok'', JBool True),
       (''data'', JStr (from_latin1 (b64_encode L b))), (''offset'', JStr (number_text (int k))),
       (''size'', JStr (number_text (f_size s))), (''version'', JStr (file_version s)),
       (''eof'', JBool (k + length b = length content))]"
    using Suc.prems read_chunk [OF fd qt(1)] by blast
  have len: "length b \<le> length content - k" using b(1) by (metis length_drop length_take min.cobounded1)
  show ?case
  proof (cases "k + length b = length content")
    case True
    then have "b = drop k content" using b(1) by simp
    then show ?thesis using True b(3) qt(2) by (simp add: serve Let_def)
  next
    case False
    then have "k < length content" using len Suc.prems(1) by linarith
    then have "b \<noteq> []" by (rule b(2))
    then have "download L serve path (file_version s) (Suc n) (k + length b) = Some (drop (k + length b) content)"
      using len Suc.prems by (intro Suc.IH) (cases b; simp)+
    moreover have "b @ drop (k + length b) content = drop k content"
      using b(1) by (metis append_take_drop_id drop_drop add.commute)
    ultimately show ?thesis
      using False b(3) qt(2) by (simp add: serve Let_def del: download.simps) (simp add: serve Let_def)
  qed
qed

text \<open>
  C14: A client that reads an unchanged file chunk after chunk from the start, with the version
  it was told, gets exactly the file's bytes, after at most one request per byte and one
  more. Used of the platform: \<open>pread\<close> returns a prefix of the bytes at the offset, at least
  one before the end; Base64 and printed numbers read back.
\<close>

theorem download_complete:
  assumes "resolve N f guard sh path False = Some a" and "a \<noteq> []"
    and "confined N f sh path False = Some fd" and "reads_file N f fd s content"
    and "\<forall>i\<ge>0. to_longlong L (number_text i) = Some i"
    and "\<forall>b. b64_decode L (b64_encode L b) = Some b"
  shows "download L (\<lambda>m. fst (handle_request L N sh guard uid f f m f)) path (file_version s)
    (Suc (length content)) 0 = Some content"
proof -
  let ?serve = "\<lambda>m. fst (handle_request L N sh guard uid f f m f)"
  have "?serve (read_query path (file_version s) k)
      = share_read L N sh f f f False path (read_query path (file_version s) k)" for k
    using assms(1,2) by (simp add: handle_request_def Let_def read_query_def)
  from download_from [where serve = ?serve, OF this assms(3-6), of 0 "length content"]
  show ?thesis by simp
qed

section \<open>Writing\<close>

text \<open>
  What the calls that change directories are documented to do, over the names \<open>dirv\<close> a state
  gives to its files and their contents \<open>data\<close>: exclusive creation makes a new empty file
  under a free name, a write appends what it reports, a link adds a free name, an unlink
  removes a name, and a call that fails changes nothing.
\<close>

definition publishes ::
  "('f, 'n) native \<Rightarrow> ('f \<Rightarrow> 'n \<Rightarrow> bytes \<Rightarrow> 'n option) \<Rightarrow> ('f \<Rightarrow> 'n \<Rightarrow> bytes) \<Rightarrow> bool" where
  "publishes N dirv data \<longleftrightarrow>
     (\<forall>d nm f h f'. n_creatat N d nm f = (Some h, f') \<longrightarrow> dirv f d nm = None
        \<and> (\<forall>d' nm'. dirv f d' nm' \<noteq> Some h) \<and> dirv f' = (dirv f)(d := (dirv f d)(nm \<mapsto> h))
        \<and> data f' = (data f)(h := []))
     \<and> (\<forall>d nm f f'. n_creatat N d nm f = (None, f') \<longrightarrow> dirv f' = dirv f \<and> data f' = data f)
     \<and> (\<forall>h b f c f'. n_write N h b f = (c, f') \<longrightarrow> dirv f' = dirv f \<and> c \<le> int (length b)
        \<and> data f' = (data f)(h := data f h @ take (nat c) b))
     \<and> (\<forall>d src dst f f'. n_linkat N d src dst f = (True, f') \<longrightarrow> dirv f d dst = None
        \<and> dirv f' = (dirv f)(d := (dirv f d)(dst := dirv f d src)) \<and> data f' = data f)
     \<and> (\<forall>d src dst f f'. n_linkat N d src dst f = (False, f') \<longrightarrow> dirv f' = dirv f \<and> data f' = data f)
     \<and> (\<forall>d nm f. dirv (n_unlinkat N d nm f) = (dirv f)(d := (dirv f d)(nm := None))
        \<and> data (n_unlinkat N d nm f) = data f)"

lemma publishesD:
  assumes "publishes N dirv data"
  shows "n_creatat N d nm f = (Some h, f') \<Longrightarrow> dirv f d nm = None
        \<and> (\<forall>d' nm'. dirv f d' nm' \<noteq> Some h) \<and> dirv f' = (dirv f)(d := (dirv f d)(nm \<mapsto> h))
        \<and> data f' = (data f)(h := [])"
    and "n_creatat N d nm f = (None, f') \<Longrightarrow> dirv f' = dirv f \<and> data f' = data f"
    and "n_write N h b f = (c, f') \<Longrightarrow> dirv f' = dirv f \<and> c \<le> int (length b)
        \<and> data f' = (data f)(h := data f h @ take (nat c) b)"
    and "n_linkat N d src dst f = (True, f') \<Longrightarrow> dirv f d dst = None
        \<and> dirv f' = (dirv f)(d := (dirv f d)(dst := dirv f d src)) \<and> data f' = data f"
    and "n_linkat N d src dst f = (False, f') \<Longrightarrow> dirv f' = dirv f \<and> data f' = data f"
    and "dirv (n_unlinkat N d nm f) = (dirv f)(d := (dirv f d)(nm := None))"
    and "data (n_unlinkat N d nm f) = data f"
proof -
  note law = assms [unfolded publishes_def]
  show "n_creatat N d nm f = (Some h, f') \<Longrightarrow> dirv f d nm = None
        \<and> (\<forall>d' nm'. dirv f d' nm' \<noteq> Some h) \<and> dirv f' = (dirv f)(d := (dirv f d)(nm \<mapsto> h))
        \<and> data f' = (data f)(h := [])"
    by (rule law [THEN conjunct1, THEN spec, THEN spec, THEN spec, THEN spec, THEN spec, THEN mp]; assumption)
  show "n_creatat N d nm f = (None, f') \<Longrightarrow> dirv f' = dirv f \<and> data f' = data f"
    by (rule law [THEN conjunct2, THEN conjunct1, THEN spec, THEN spec, THEN spec, THEN spec, THEN mp]; assumption)
  show "n_write N h b f = (c, f') \<Longrightarrow> dirv f' = dirv f \<and> c \<le> int (length b)
        \<and> data f' = (data f)(h := data f h @ take (nat c) b)"
    by (rule law [THEN conjunct2, THEN conjunct2, THEN conjunct1, THEN spec, THEN spec, THEN spec, THEN spec, THEN spec, THEN mp]; assumption)
  show "n_linkat N d src dst f = (True, f') \<Longrightarrow> dirv f d dst = None
        \<and> dirv f' = (dirv f)(d := (dirv f d)(dst := dirv f d src)) \<and> data f' = data f"
    by (rule law [THEN conjunct2, THEN conjunct2, THEN conjunct2, THEN conjunct1, THEN spec, THEN spec, THEN spec, THEN spec, THEN spec, THEN mp]; assumption)
  show "n_linkat N d src dst f = (False, f') \<Longrightarrow> dirv f' = dirv f \<and> data f' = data f"
    by (rule law [THEN conjunct2, THEN conjunct2, THEN conjunct2, THEN conjunct2, THEN conjunct1, THEN spec, THEN spec, THEN spec, THEN spec, THEN spec, THEN mp]; assumption)
  show "dirv (n_unlinkat N d nm f) = (dirv f)(d := (dirv f d)(nm := None))"
    by (rule law [THEN conjunct2, THEN conjunct2, THEN conjunct2, THEN conjunct2, THEN conjunct2, THEN spec, THEN spec, THEN spec, THEN conjunct1])
  show "data (n_unlinkat N d nm f) = data f"
    by (rule law [THEN conjunct2, THEN conjunct2, THEN conjunct2, THEN conjunct2, THEN conjunct2, THEN spec, THEN spec, THEN spec, THEN conjunct2])
qed

lemma write_loop_appends:
  "publishes N dirv data \<Longrightarrow> write_loop N h b w f = (w', f') \<Longrightarrow> 0 \<le> w \<Longrightarrow> w \<le> int (length b) \<Longrightarrow>
    data f h = take (nat w) b \<Longrightarrow>
    dirv f' = dirv f \<and> w \<le> w' \<and> w' \<le> int (length b) \<and> data f' = (data f)(h := take (nat w') b)"
proof (induction N h b w f arbitrary: w' f' rule: write_loop.induct)
  case (1 N h b w f)
  obtain c g where cg: "n_write N h (drop (nat w) b) f = (c, g)" by fastforce
  note w = publishesD(3) [OF "1.prems"(1) cg]
  show ?case
  proof (cases "w < int (length b)")
    case False
    then have "w' = w" "f' = f" using "1.prems"(2) by (simp_all add: write_loop.simps [of N h b w f])
    then show ?thesis using "1.prems" by (metis fun_upd_triv order_refl)
  next
    case less: True
    show ?thesis
    proof (cases "c \<le> 0")
      case True
      then have "w' = w" "f' = g" using "1.prems"(2) less cg
        by (simp_all add: write_loop.simps [of N h b w f])
      then show ?thesis using True w "1.prems"(3-5) by simp
    next
      case False
      then have rest: "write_loop N h b (w + c) g = (w', f')" using "1.prems"(2) less cg
        by (simp add: write_loop.simps [of N h b w f])
      have "data g h = take (nat (w + c)) b"
        using w "1.prems"(3,5) False by (simp add: nat_add_distrib take_add)
      moreover have "w + c \<le> int (length b)" using w "1.prems"(3) less by simp
      ultimately show ?thesis
        using "1.IH" [OF less _ False "1.prems"(1) rest] cg w "1.prems"(3) False by auto
    qed
  qed
qed

text \<open>The files a state names keep their contents.\<close>

definition same_files :: "('f \<Rightarrow> 'n \<Rightarrow> bytes \<Rightarrow> 'n option) \<Rightarrow> ('f \<Rightarrow> 'n \<Rightarrow> bytes) \<Rightarrow> 'f \<Rightarrow> 'f \<Rightarrow> bool" where
  "same_files dirv data f f' \<longleftrightarrow> (\<forall>d nm h. dirv f d nm = Some h \<longrightarrow> data f' h = data f h)"

lemma publish_effect:
  assumes law: "publishes N dirv data" and temp: "name \<noteq> temporary_name uid"
    and run: "publish N d uid name b f = (r, f')"
  shows "(jval r ''ok'' = JBool True \<and> dirv f d name = None
      \<and> (\<exists>h. dirv f' = (dirv f)(d := (dirv f d)(name \<mapsto> h)) \<and> data f' h = b)
      \<and> same_files dirv data f f')
    \<or> (jval r ''ok'' = JBool False \<and> dirv f' = dirv f \<and> same_files dirv data f f')"
proof (cases "n_creatat N d (temporary_name uid) f")
  case (Pair ho f1)
  show ?thesis
  proof (cases ho)
    case None
    then have "r = error_object ''write_failed''" "f' = f1" using run Pair by (simp_all add: publish_def)
    then show ?thesis using publishesD(2) [OF law] Pair None by (auto simp: same_files_def)
  next
    case (Some h)
    have made: "dirv f d (temporary_name uid) = None" "\<forall>d' nm'. dirv f d' nm' \<noteq> Some h"
      "dirv f1 = (dirv f)(d := (dirv f d)(temporary_name uid \<mapsto> h))" "data f1 = (data f)(h := [])"
      using publishesD(1) [OF law] Pair Some by auto
    obtain w f2 where loop: "write_loop N h b 0 f1 = (w, f2)" by fastforce
    have wr: "dirv f2 = dirv f1" "w \<le> int (length b)" "data f2 = (data f1)(h := take (nat w) b)"
      using write_loop_appends [OF law loop] made(4) by simp_all
    obtain ok f3 where link: "(if w = int (length b) \<and> n_fsync N h f2
        then n_linkat N d (temporary_name uid) name f2 else (False, f2)) = (ok, f3)" by fastforce
    have r: "r = (if ok then jobj [(''ok'', JBool True), (''size'', JStr (number_text w))]
        else error_object ''write_failed_or_exists'')" "f' = n_unlinkat N d (temporary_name uid) f3"
      using run Pair Some loop link by (auto simp: publish_def)
    show ?thesis
    proof (cases ok)
      case True
      then have w: "w = int (length b)" and l: "n_linkat N d (temporary_name uid) name f2 = (True, f3)"
        using link by (auto split: if_splits)
      note ln = publishesD(4) [OF law l]
      have free: "dirv f d name = None" using ln wr(1) made(3) temp by simp
      have "dirv f' = (dirv f)(d := (dirv f d)(name \<mapsto> h))"
        using ln wr(1) made temp
        by (auto simp: r publishesD(6) [OF law] fun_eq_iff)
      moreover have "data f' h = b" using ln wr(3) w by (simp add: r publishesD(7) [OF law])
      moreover have "same_files dirv data f f'"
        using ln wr(3) made(2,4) by (auto simp: same_files_def r publishesD(7) [OF law])
      ultimately show ?thesis using True r free by auto
    next
      case False
      then have same: "dirv f3 = dirv f2" "data f3 = data f2"
        using link publishesD(5) [OF law] by (auto split: if_splits)
      have "dirv f' = dirv f"
        using same wr(1) made by (auto simp: r publishesD(6) [OF law] fun_eq_iff)
      moreover have "same_files dirv data f f'"
        using same wr(3) made(2,4) by (auto simp: same_files_def r publishesD(7) [OF law])
      ultimately show ?thesis using False r by auto
    qed
  qed
qed


section \<open>Instances\<close>

definition demo_request :: "string \<Rightarrow> string \<Rightarrow> jobject" where
  "demo_request op path = jobj [(''op'', jtext op), (''path'', jtext path), (''data'', jtext ''xyz'')]"

lemma demo_reads_file:
  "reads_file demo_native demo_files 1 (fs_stat demo_files 1) [104, 105]"
  unfolding reads_file_def
proof (intro conjI allI impI)
  fix k n :: nat
  assume "k \<le> length [104 :: 8 word, 105]"
  then show "\<exists>b. n_pread demo_native demo_files 1 (int n) (int k) = Some b
     \<and> b = take (length b) (drop k [104, 105]) \<and> length b \<le> n
     \<and> (0 < n \<longrightarrow> k < length [104 :: 8 word, 105] \<longrightarrow> b \<noteq> [])"
    by (intro exI [of _ "take n (drop k [104, 105])"])
      (auto simp: demo_native_def demo_files_def min_def)
qed (simp_all add: demo_native_def fs_stat_def demo_files_def)

lemma demo_publishes: "publishes demo_native fs_dir fs_data"
  unfolding publishes_def
  by (auto simp: demo_native_def fs_creat_def fs_fresh_unused fs_dir_link fs_dir_unlink fs_hardlink_def
      fs_link_def [THEN arg_cong [where f = fs_data]] fun_eq_iff split: if_splits option.splits)


text \<open>Example: the root with its one file is listed in one page.\<close>

theorem listing_complete_witness:
  "follow_pages (\<lambda>m. fst (handle_request demo_lib demo_native demo_share True [] demo_files demo_files m
       demo_files)) [] 1 [] = Some (visible demo_native demo_files 0 [bs ''a''])
   \<and> length (visible demo_native demo_files 0 [bs ''a'']) = 1"
proof -
  have one: "length (visible demo_native demo_files 0 [bs ''a'']) = 1" by code_simp
  have res: "resolve demo_native demo_files True demo_share [] False = Some (qs ''/r'')" by code_simp
  have fd: "confined demo_native demo_files demo_share [] True = Some 0" by code_simp
  have names: "n_readdir demo_native demo_files 0 = Some [bs ''a'']"
    by (simp add: demo_native_def demo_files_def)
  show ?thesis
    using listing_complete [OF res _ fd names demo_numbers] one by simp
qed

text \<open>Example: reading the file.\<close>

theorem read_single_version_witness:
  "\<exists>s offset. n_fstat demo_native demo_files 1 = Some s \<and> f_kind s = Regular \<and> offset \<le> f_size s
    \<and> jval (share_read demo_lib demo_native demo_share demo_files demo_files demo_files False (qs ''a'')
         (demo_request ''read'' ''a'')) ''version'' = JStr (file_version s)"
proof -
  have ok: "jval (share_read demo_lib demo_native demo_share demo_files demo_files demo_files False (qs ''a'')
     (demo_request ''read'' ''a'')) ''ok'' = JBool True" by code_simp
  have fd: "confined demo_native demo_files demo_share (qs ''a'') False = Some 1" by code_simp
  show ?thesis using read_single_version [OF ok] unfolding fd by auto
qed

text \<open>Example: downloading the file.\<close>

theorem download_complete_witness:
  "download demo_lib (\<lambda>m. fst (handle_request demo_lib demo_native demo_share True [] demo_files demo_files m
     demo_files)) (qs ''a'') (file_version (fs_stat demo_files 1)) 3 0 = Some [104, 105]"
proof -
  have "resolve demo_native demo_files True demo_share (qs ''a'') False = Some (qs ''/r/a'')" by code_simp
  moreover have "confined demo_native demo_files demo_share (qs ''a'') False = Some 1" by code_simp
  moreover have "\<forall>b. b64_decode demo_lib (b64_encode demo_lib b) = Some b" by (simp add: demo_lib_def)
  ultimately show ?thesis
    using download_complete [OF _ _ _ demo_reads_file demo_numbers, of True demo_share "qs ''a''"]
    by (simp add: numeral_3_eq_3)
qed


end
