(* ===== verification/System.thy ===== *)
theory System
  imports RelayLifecycle PeerProperties FileShareProperties
begin

text \<open>
  Two peers and the relay between them: what one peer puts on its connection the relay gets as a
  frame of that socket, and what the relay sends to a socket the peer there gets as a message.
  A frame arrives as it was sent; the JSON text in between is Qt's.
\<close>

section \<open>The asking side\<close>

definition request_frame :: "qstring \<Rightarrow> qstring \<Rightarrow> jobject \<Rightarrow> jobject" where
  "request_frame rid peer payload = jobj [(''type'', jtext ''request''), (''id'', JStr rid), (''peerId'', JStr peer),
     (''payload'', JObj payload)]"

definition marked_remote :: "qstring \<Rightarrow> pending \<Rightarrow> peer \<Rightarrow> peer" where
  "marked_remote rid r st = put_out (RelaySend (request_frame rid (n_peer r) (n_payload r)))
     (st\<lparr>requests := tput rid (r\<lparr>n_transport := Some Remote\<rparr>) (requests st)\<rparr>)"

text \<open>No request but this one waits to be sent to that peer.\<close>

definition only_unsent :: "peer \<Rightarrow> qstring \<Rightarrow> pending \<Rightarrow> bool" where
  "only_unsent st rid r \<longleftrightarrow> tget (requests st) rid = Some r \<and> n_transport r = None
     \<and> (\<forall>rid' r'. tget (requests st) rid' = Some r' \<longrightarrow> rid' \<noteq> rid \<longrightarrow> n_peer r' \<noteq> n_peer r \<or> n_transport r' \<noteq> None)"

lemma remote_one_other:
  "only_unsent st rid r \<Longrightarrow> rid' \<noteq> rid \<Longrightarrow> remote_one e (n_peer r) rid' st = st"
  by (auto simp: only_unsent_def remote_one_def split: option.split)

lemma remote_one_this:
  "only_unsent st rid r \<Longrightarrow> (\<And>m. e_relay_takes e m) \<Longrightarrow> remote_one e (n_peer r) rid st = marked_remote rid r st"
  by (simp add: only_unsent_def remote_one_def marked_remote_def relay_send_def request_frame_def Let_def)

lemma remote_one_done:
  "only_unsent st rid r \<Longrightarrow> remote_one e (n_peer r) rid' (marked_remote rid r st) = marked_remote rid r st"
  by (cases "rid' = rid") (auto simp: only_unsent_def remote_one_def marked_remote_def put_out_def split: option.split)

lemma remote_fold_done:
  "only_unsent st rid r \<Longrightarrow> fold (remote_one e (n_peer r)) ks (marked_remote rid r st) = marked_remote rid r st"
  by (induction ks) (simp_all add: remote_one_done)

lemma remote_fold:
  assumes "only_unsent st rid r" "\<And>m. e_relay_takes e m"
  shows "rid \<in> set ks \<Longrightarrow> fold (remote_one e (n_peer r)) ks st = marked_remote rid r st"
proof (induction ks)
  case (Cons k ks)
  then show ?case
    using remote_one_this [OF assms] remote_one_other [OF assms(1), of k e] remote_fold_done [OF assms(1), of e ks]
    by (cases "k = rid") auto
qed simp

lemma remote_sends:
  assumes "only_unsent st rid r" "\<And>m. e_relay_takes e m"
  shows "remote e (n_peer r) st = marked_remote rid r (abandon (n_peer r) st)"
proof -
  have "only_unsent (abandon (n_peer r) st) rid r" using assms(1) by (simp add: only_unsent_def abandon_def)
  moreover have "rid \<in> set (tkeys (requests (abandon (n_peer r) st)))"
    using assms(1) map_of_SomeD [of "requests st" rid r]
    by (auto simp: only_unsent_def abandon_def tkeys_def tget_def intro: image_eqI [of _ _ "(rid, r)"])
  ultimately show ?thesis unfolding remote_def Let_def by (rule remote_fold [OF _ assms(2)])
qed

section \<open>There and back\<close>

text \<open>
  C2: A request over the relay gets the answer of the host's handler: a ready peer whose request for
  a peer of its directory is the only unsent one there, and that uses no direct link, sends one
  frame; the relay hands it to that host alone; the host peer, serving files, answers with
  what its handler returns for the caller's registered name and payload; the relay returns that
  to the caller alone; and the caller reports exactly that result for its identifier, once, and
  forgets the request. Caller and host are live sessions of one account and service, the caller has fewer
  than 32 and the relay fewer than 1024 open requests.
\<close>

theorem request_over_relay:
  assumes "peer.ready c" and "only_unsent c rid r" and "identifier_ok rid"
    and "list_ex (\<lambda>d. jval (to_object d) ''peerId'' = JStr (n_peer r)) (peer.directory c)"
    and "usable_link ce (n_peer r) c = None" and "\<not> g_local_enabled (peer.options c)" and "\<And>m. e_relay_takes ce m"
    and "relay_reach L st" and "RelayTags.admitted (now e) st s"
    and "target (now e) st s (n_peer r) = Some h" and "client_routes st s < 32" and "length (routes st) < 1024"
    and "active (now e') st h" and "active (now e') st s"
    and "peer.ready hp" and "g_host_files (peer.options hp)" and "peer.hosting hp" and "\<And>m. e_relay_takes he m"
    and "e_handle he (s_id (session_of st s)) (n_payload r) = Some result"
  shows "\<exists>q f a g. peer.out (start_request ce rid c) = peer.out c @ [RelaySend q]
    \<and> news st (relay_step L e (TextFrame s q) st) = [Send h f]
    \<and> peer.out (peer_step L he (RelayMessage f) hp) = peer.out hp @ [RelaySend a]
    \<and> news (relay_step L e (TextFrame s q) st) (relay_step L e' (TextFrame h a) (relay_step L e (TextFrame s q) st)) = [Send s g]
    \<and> peer.out (peer_step L ce' (RelayMessage g) (start_request ce rid c))
        = peer.out (start_request ce rid c) @ [Completed rid result (Some Remote)]
    \<and> tget (peer.requests (peer_step L ce' (RelayMessage g) (start_request ce rid c))) rid = None"
proof -
  let ?q = "request_frame rid (n_peer r) (n_payload r)"
  let ?f = "jobj [(''type'', jtext ''request''), (''id'', JStr (fresh e)), (''peerId'', JStr (s_id (session_of st s))),
    (''payload'', JObj (n_payload r))]"
  let ?a = "jobj [(''type'', jtext ''response''), (''id'', JStr (fresh e)), (''result'', JObj result)]"
  let ?g = "jobj [(''type'', jtext ''response''), (''id'', JStr rid), (''result'', JObj result)]"
  have asked: "start_request ce rid c = marked_remote rid r (abandon (n_peer r) c)"
    using assms(1,2,4-6) remote_sends [OF assms(2,7)] by (simp add: start_request_def only_unsent_def Let_def)
  have q: "to_string (jval ?q ''type'') = qs ''request''" "to_string (jval ?q ''id'') = rid" "is_object (jval ?q ''payload'')"
    "to_string (jval ?q ''peerId'') = n_peer r" "jval ?q ''payload'' = JObj (n_payload r)" by (simp_all add: request_frame_def)
  note relayed = request_response_roundtrip [OF assms(8,9) q(1) _ q(3) _ assms(11,12) refl, where h = h and a = ?a and e' = e', OF _ _ _ _ assms(13,14) refl]
  have served: "peer.out (peer_step L he (RelayMessage ?f) hp) = peer.out hp @ [RelaySend ?a]"
    using assms(15-19) by (simp add: peer_step_def peer_message_def Let_def peer_handle_def relay_send_def put_out_def)
  have completed: "peer_step L ce' (RelayMessage ?g) (start_request ce rid c) = put_out (Completed rid result (Some Remote))
      ((start_request ce rid c)\<lparr>requests := tdel rid (peer.requests (start_request ce rid c))\<rparr>)"
    using assms(1) by (simp add: asked peer_step_def peer_message_def Let_def finish_def marked_remote_def put_out_def abandon_def)
  show ?thesis
  proof (intro exI conjI)
    show "peer.out (start_request ce rid c) = peer.out c @ [RelaySend ?q]"
      by (simp add: asked marked_remote_def put_out_def abandon_def)
    show "peer.out (peer_step L he (RelayMessage ?f) hp) = peer.out hp @ [RelaySend ?a]" by (rule served)
    show "news st (relay_step L e (TextFrame s ?q) st) = [Send h ?f]"
      using relayed q assms(3,10) by simp
    show "news (relay_step L e (TextFrame s ?q) st) (relay_step L e' (TextFrame h ?a) (relay_step L e (TextFrame s ?q) st)) = [Send s ?g]"
      using relayed q assms(3,10) by simp
    show "peer.out (peer_step L ce' (RelayMessage ?g) (start_request ce rid c))
        = peer.out (start_request ce rid c) @ [Completed rid result (Some Remote)]" by (simp add: completed put_out_def)
    show "tget (peer.requests (peer_step L ce' (RelayMessage ?g) (start_request ce rid c))) rid = None"
      by (simp add: completed put_out_def)
  qed
qed

section \<open>Example\<close>

text \<open>A host that serves the example file share, and a client that reads the file \<^verbatim>\<open>a\<close> there.\<close>

definition demo_answer :: jobject where
  "demo_answer = fst (handle_request demo_lib demo_native demo_share True [] demo_files demo_files
     (FileShareProperties.demo_request ''read'' ''a'') demo_files)"

definition demo_host_env :: peer_env where
  "demo_host_env = demo_peer_env\<lparr>e_handle := (\<lambda>p m. if p = qs ''client''
     then Some (fst (handle_request demo_lib demo_native demo_share True [] demo_files demo_files m demo_files)) else None)\<rparr>"

definition demo_host_peer :: peer where
  "demo_host_peer = (new_peer (demo_peer_options\<lparr>g_host_files := True\<rparr>))\<lparr>hosting := True, running := True, ready := True\<rparr>"

definition demo_pending :: pending where
  "demo_pending = \<lparr>n_peer = qs ''host'', n_payload = FileShareProperties.demo_request ''read'' ''a'',
     n_transport = None, n_socket = None, n_deadline = 15000\<rparr>"

definition demo_asking :: peer where
  "demo_asking = (new_peer demo_peer_options)\<lparr>running := True, ready := True,
     directory := [JObj (jobj [(''peerId'', jtext ''host'')])], requests := [(qs ''r1'', demo_pending)]\<rparr>"

text \<open>Example: the client gets the two bytes of the file.\<close>

theorem request_over_relay_witness:
  "\<exists>g. peer.out (peer_step demo_lib demo_peer_env (RelayMessage g) (start_request demo_peer_env (qs ''r1'') demo_asking))
      = peer.out (start_request demo_peer_env (qs ''r1'') demo_asking) @ [Completed (qs ''r1'') demo_answer (Some Remote)]
   \<and> jval demo_answer ''data'' = JStr [104, 105]"
proof -
  have "let st = demo_ready in RelayTags.admitted 1006 st 2 \<and> target 1006 st 2 (qs ''host'') = Some 1
      \<and> client_routes st 2 < 32 \<and> length (routes st) < 1024 \<and> active 1007 st 1 \<and> active 1007 st 2
      \<and> s_id (session_of st 2) = qs ''client''" by code_simp
  then have relay: "RelayTags.admitted (now (demo_env 1006)) demo_ready 2"
    "target (now (demo_env 1006)) demo_ready 2 (n_peer demo_pending) = Some 1"
    "client_routes demo_ready 2 < 32" "length (routes demo_ready) < 1024"
    "active (now (demo_env 1007)) demo_ready 1" "active (now (demo_env 1007)) demo_ready 2"
    and caller: "s_id (session_of demo_ready 2) = qs ''client''"
    by (simp_all add: Let_def demo_env_def demo_pending_def)
  have host: "peer.ready demo_host_peer" "g_host_files (peer.options demo_host_peer)" "peer.hosting demo_host_peer"
    "\<And>m. e_relay_takes demo_host_env m" by (simp_all add: demo_host_peer_def demo_host_env_def demo_peer_env_def new_peer_def)
  have answer: "e_handle demo_host_env (s_id (session_of demo_ready 2)) (n_payload demo_pending) = Some demo_answer"
    by (simp add: caller demo_host_env_def demo_answer_def demo_pending_def)
  have asking: "peer.ready demo_asking" "only_unsent demo_asking (qs ''r1'') demo_pending" "identifier_ok (qs ''r1'')"
    "list_ex (\<lambda>d. jval (to_object d) ''peerId'' = JStr (n_peer demo_pending)) (peer.directory demo_asking)"
    "usable_link demo_peer_env (n_peer demo_pending) demo_asking = None" "\<not> g_local_enabled (peer.options demo_asking)"
    "\<And>m. e_relay_takes demo_peer_env m"
    subgoal by (simp add: demo_asking_def)
    subgoal by (simp add: demo_asking_def only_unsent_def demo_pending_def tget_def)
    subgoal by code_simp
    subgoal by code_simp
    subgoal by code_simp
    subgoal by code_simp
    by (simp add: demo_peer_env_def)
  have "jval demo_answer ''data'' = JStr [104, 105]" by code_simp
  then show ?thesis
    using request_over_relay [OF asking demo_ready_reach relay host answer, where ce' = demo_peer_env] by blast
qed

end
