(* ===== verification/FileTransfer.thy ===== *)
theory FileTransfer
  imports Protocol LocalFiles Jobs
begin

text \<open>
  \<open>src/Transfer.cpp\<close>: file transfers over libcurl. \<open>validate\<close> decides which requests run;
  \<open>setopts\<close> is the configuration handed to libcurl; \<open>write_data\<close>, \<open>read_data\<close>, \<open>seek_data\<close>
  and \<open>progress_data\<close> are its callbacks over the state \<open>io\<close>; \<open>perform\<close> composes the checks
  before the transfer, the polling loop and the classification of its outcome; the rest is
  the table of jobs of \<open>FileTransfer\<close>. What libcurl, the disk and the cancelling thread do is
  the record \<open>run\<close> of their answers in the order the code asks for them.
\<close>

named_theorems transfer_defs \<open>definitions of the transfer callbacks\<close>

section \<open>Requests and results\<close>

datatype transfer_operation = Download | Upload | ListFiles | OtherOperation

record transfer_protocol =
  t_scheme :: qstring
  t_download :: bool
  t_upload :: bool
  t_list :: bool
  t_encrypted :: bool

record transfer_request =
  r_url :: qurl
  r_operation :: transfer_operation
  r_local_path :: qstring
  r_username :: qstring
  r_password :: bytes
  r_bearer_token :: bytes
  r_ca_file :: qstring
  r_client_certificate :: qstring
  r_client_key :: qstring
  r_ssh_known_hosts :: qstring
  r_ssh_private_key :: qstring
  r_ssh_public_key :: qstring
  r_key_password :: bytes
  r_aws_sigv4 :: qstring
  r_http_version :: qstring
  r_allow_cleartext :: bool
  r_maximum_bytes :: int
  r_expected_sha256 :: bytes
  r_connect_timeout :: int
  r_timeout :: int

record transfer_result =
  x_ok :: bool
  x_cancelled :: bool
  x_error :: string
  x_protocol :: qstring
  x_bytes :: int
  x_sha256 :: bytes
  x_response_code :: int
  x_http_version :: string

definition no_result :: transfer_result where
  "no_result = \<lparr>x_ok = False, x_cancelled = False, x_error = '''', x_protocol = [], x_bytes = 0,
     x_sha256 = [], x_response_code = 0, x_http_version = ''''\<rparr>"

text \<open>The linked libcurl: whether it initialised, its protocols and its features.\<close>

record curl =
  c_ready :: bool
  c_protocols :: "qstring list"
  c_ssl :: bool
  c_http2 :: bool
  c_http3 :: bool

section \<open>Validation\<close>

definition wire_scheme :: "qstring \<Rightarrow> qstring" where
  "wire_scheme scheme =
     (if scheme = qs ''webdav'' then qs ''http''
      else if scheme = qs ''webdavs'' then qs ''https''
      else if scheme = qs ''ftpes'' then qs ''ftp'' else scheme)"

definition candidates :: "(string \<times> bool \<times> bool \<times> bool \<times> bool) list" where
  "candidates = [
     (''file'', True, True, False, False), (''http'', True, True, False, False),
     (''https'', True, True, False, True), (''webdav'', True, True, True, False),
     (''webdavs'', True, True, True, True), (''ftp'', True, True, True, False),
     (''ftps'', True, True, True, True), (''ftpes'', True, True, True, True),
     (''sftp'', True, True, True, True), (''scp'', True, True, False, True),
     (''tftp'', True, True, False, False), (''smb'', True, True, False, False),
     (''smbs'', True, True, False, True), (''gopher'', True, False, False, False),
     (''gophers'', True, False, False, True)]"

definition protocol_of :: "string \<times> bool \<times> bool \<times> bool \<times> bool \<Rightarrow> transfer_protocol" where
  "protocol_of = (\<lambda>(s, d, u, l, e).
     \<lparr>t_scheme = qs s, t_download = d, t_upload = u, t_list = l, t_encrypted = e\<rparr>)"

definition protocols :: "curl \<Rightarrow> transfer_protocol list" where
  "protocols C =
     (if \<not> c_ready C then []
      else filter (\<lambda>p. wire_scheme (t_scheme p) \<in> set (c_protocols C)
          \<and> (t_scheme p \<noteq> qs ''ftpes'' \<or> c_ssl C)) (map protocol_of candidates))"

definition http_versions :: "curl \<Rightarrow> qstring list" where
  "http_versions C =
     (if \<not> c_ready C \<or> \<not> list_ex (\<lambda>p. t_scheme p = qs ''http'' \<or> t_scheme p = qs ''https'') (protocols C)
      then []
      else [qs ''1.0'', qs ''1.1''] @ (if c_http2 C then [qs ''2''] else [])
        @ (if c_http3 C then [qs ''3''] else []))"

definition hex_char :: "qchar \<Rightarrow> bool" where
  "hex_char u \<longleftrightarrow> is_lower_hex u \<or> in_range CHR ''A'' CHR ''F'' u"

text \<open>The pattern \<^verbatim>\<open>^[a-fA-F0-9]{64}$\<close>.\<close>

definition checksum_ok :: "qstring \<Rightarrow> bool" where
  "checksum_ok s \<longleftrightarrow> 64 \<le> length s \<and> list_all hex_char (take 64 s) \<and> at_end (drop 64 s)"

text \<open>
  The pattern \<^verbatim>\<open>^W:W:W:W$\<close> with \<open>W\<close> a nonempty word of \<open>word_char\<close>: a word ends at the first
  other character, so matching is scanning \<open>n\<close> words.
\<close>

fun sigv4_words :: "nat \<Rightarrow> qstring \<Rightarrow> bool" where
  "sigv4_words 0 s = False"
| "sigv4_words (Suc n) s =
     (takeWhile word_char s \<noteq> [] \<and>
      (let rest = dropWhile word_char s in
       if n = 0 then at_end rest
       else case rest of u # rest' \<Rightarrow> u = unit_of CHR '':'' \<and> sigv4_words n rest' | [] \<Rightarrow> False))"

definition sigv4_ok :: "qstring \<Rightarrow> bool" where
  "sigv4_ok s = sigv4_words 4 s"

definition is_upload :: "transfer_request \<Rightarrow> bool" where
  "is_upload r \<longleftrightarrow> r_operation r = Upload"

definition http_scheme :: "qstring \<Rightarrow> bool" where
  "http_scheme s \<longleftrightarrow> wire_scheme s = qs ''http'' \<or> wire_scheme s = qs ''https''"

text \<open>The checks that depend on the protocol entry of the scheme.\<close>

definition validate_protocol :: "lib \<Rightarrow> files \<Rightarrow> transfer_protocol option \<Rightarrow> transfer_request \<Rightarrow> string" where
  "validate_protocol L F entry r =
     (case entry of
        None \<Rightarrow> ''unsupported_protocol''
      | Some p \<Rightarrow>
          if (is_upload r \<and> \<not> t_upload p) \<or> (r_operation r = ListFiles \<and> \<not> t_list p)
          then ''unsupported_operation''
          else if url_scheme (r_url r) = qs ''file'' then
            (if url_host (r_url r) \<noteq> [] \<or> url_has_query (r_url r)
                \<or> \<not> fi_absolute F (url_local_file (r_url r)) then ''invalid_url'' else '''')
          else if url_host (r_url r) = [] then ''invalid_url''
          else if \<not> t_encrypted p \<and> \<not> r_allow_cleartext r \<and> \<not> loopback L (url_host (r_url r))
          then ''cleartext_disabled''
          else '''')"

definition validate_fields :: "files \<Rightarrow> transfer_request \<Rightarrow> string" where
  "validate_fields F r =
     (let scheme = url_scheme (r_url r) in
      if r_expected_sha256 r \<noteq> [] \<and> \<not> checksum_ok (from_latin1 (r_expected_sha256 r)) then ''invalid_checksum''
      else if r_timeout r \<le> 0 \<or> r_connect_timeout r \<le> 0 \<or> r_maximum_bytes r < 0 then ''invalid_limits''
      else if (scheme = qs ''sftp'' \<or> scheme = qs ''scp'')
         \<and> (\<not> fi_absolute F (r_ssh_known_hosts r) \<or> \<not> fi_file F (r_ssh_known_hosts r)
            \<or> \<not> fi_readable F (r_ssh_known_hosts r)) then ''ssh_known_hosts_required''
      else if \<not> fi_absolute F (r_local_path r) \<or> 0 \<in> set (r_local_path r) then ''invalid_local_path''
      else if 0 \<in> set (r_username r) \<or> 0 \<in> set (r_password r) \<or> 0 \<in> set (r_key_password r)
         \<or> 0 \<in> set (r_bearer_token r) \<or> 13 \<in> set (r_bearer_token r) \<or> 10 \<in> set (r_bearer_token r)
      then ''invalid_credentials''
      else if (r_bearer_token r \<noteq> [] \<or> r_aws_sigv4 r \<noteq> []) \<and> \<not> http_scheme scheme
      then ''unsupported_authentication''
      else if r_aws_sigv4 r \<noteq> [] \<and> (r_bearer_token r \<noteq> [] \<or> \<not> sigv4_ok (r_aws_sigv4 r))
      then ''invalid_authentication''
      else '''')"

text \<open>The stable error code; the empty string accepts the request.\<close>

definition validate :: "lib \<Rightarrow> curl \<Rightarrow> files \<Rightarrow> transfer_request \<Rightarrow> string" where
  "validate L C F r =
     (let url = r_url r; scheme = url_scheme url in
      if r_operation r = OtherOperation then ''unsupported_operation''
      else if \<not> url_valid url \<or> url_relative url \<or> url_user_info url \<noteq> [] \<or> url_has_fragment url
         \<or> url_port url = 0 \<or> int (length (url_encoded url)) > 16384 then ''invalid_url''
      else if r_http_version r \<noteq> [] \<and> (r_http_version r \<notin> set (http_versions C) \<or> \<not> http_scheme scheme)
      then ''unsupported_http_version''
      else if r_http_version r = qs ''3'' \<and> wire_scheme scheme \<noteq> qs ''https''
      then ''unsupported_http_version''
      else
        let e = validate_protocol L F (find (\<lambda>p. t_scheme p = scheme) (protocols C)) r in
        if e \<noteq> '''' then e else validate_fields F r)"

section \<open>Callbacks\<close>

text \<open>
  \<open>io_hashed\<close> is what was added to the running hash since its last reset, \<open>io_output\<close> what was
  written to the new file, which replaces the old one on commit only.
\<close>

record io =
  io_uploading :: bool
  io_maximum :: int
  io_bytes :: int
  io_error :: string
  io_hashed :: bytes
  io_output :: bytes

definition new_io :: "transfer_request \<Rightarrow> io" where
  "new_io r = \<lparr>io_uploading = is_upload r, io_maximum = r_maximum_bytes r, io_bytes = 0,
     io_error = '''', io_hashed = [], io_output = []\<rparr>"

definition max_int64 :: int where
  "max_int64 = 2 ^ 63 - 1"

text \<open>\<^verbatim>\<open>size && count > size_t(max) / size\<close>\<close>

definition too_many :: "64 word \<Rightarrow> 64 word \<Rightarrow> bool" where
  "too_many sz nmemb \<longleftrightarrow> sz \<noteq> 0 \<and> nmemb > (2 ^ 63 - 1) div sz"

text \<open>\<open>data\<close> are the bytes at the pointer, \<open>wrote\<close> what \<open>QIODevice::write\<close> returns.\<close>

definition write_data ::
  "bool \<Rightarrow> 64 word \<Rightarrow> 64 word \<Rightarrow> bytes \<Rightarrow> int \<Rightarrow> io \<Rightarrow> 64 word \<times> io" where
  "write_data cancelled sz nmemb data wrote io =
     (if too_many sz nmemb then (0, io)
      else
        let n = sint (sz * nmemb) in
        if io_uploading io then (sz * nmemb, io)
        else if cancelled then (0, io)
        else if n > max_int64 - io_bytes io \<or> (io_maximum io \<noteq> 0 \<and> n > io_maximum io - io_bytes io)
        then (0, io\<lparr>io_error := ''size_limit_exceeded''\<rparr>)
        else if wrote \<noteq> n
        then (0, io\<lparr>io_error := ''local_write_failed'', io_output := io_output io @ take (nat wrote) data\<rparr>)
        else (sz * nmemb,
          io\<lparr>io_output := io_output io @ take (nat n) data, io_hashed := io_hashed io @ take (nat n) data,
            io_bytes := io_bytes io + n\<rparr>))"

definition read_abort :: "64 word" where
  "read_abort = 0x10000000"

text \<open>\<open>answer\<close> is what \<open>FileDevice::read\<close> delivers, \<open>None\<close> for a negative result.\<close>

definition read_data ::
  "bool \<Rightarrow> 64 word \<Rightarrow> 64 word \<Rightarrow> bytes option \<Rightarrow> io \<Rightarrow> 64 word \<times> io" where
  "read_data cancelled sz nmemb answer io =
     (if cancelled \<or> too_many sz nmemb then (read_abort, io)
      else case answer of
          None \<Rightarrow> (read_abort, io\<lparr>io_error := ''local_read_failed''\<rparr>)
        | Some b \<Rightarrow> (word_of_nat (length b),
            io\<lparr>io_hashed := io_hashed io @ b, io_bytes := io_bytes io + int (length b)\<rparr>))"

text \<open>\<open>False\<close> is \<open>CURL_SEEKFUNC_CANTSEEK\<close>; \<open>SEEK_SET\<close> is 0.\<close>

definition seek_data :: "int \<Rightarrow> int \<Rightarrow> bool \<Rightarrow> io \<Rightarrow> bool \<times> io" where
  "seek_data offset whence seeked io =
     (if offset \<noteq> 0 \<or> whence \<noteq> 0 \<or> \<not> seeked then (False, io)
      else (True, io\<lparr>io_hashed := [], io_bytes := 0\<rparr>))"

text \<open>
  The result tells libcurl to go on; the reported pair is a progress notification, at most
  one per 100 ms.
\<close>

definition progress_data ::
  "bool \<Rightarrow> int \<Rightarrow> int \<Rightarrow> int \<Rightarrow> int \<Rightarrow> int \<Rightarrow> io \<Rightarrow> bool \<times> (int \<times> int) option \<times> io" where
  "progress_data cancelled dl_total dl_now ul_total ul_now elapsed io =
     (let total = (if io_uploading io then ul_total else dl_total) in
      if cancelled then (False, None, io)
      else if io_maximum io \<noteq> 0 \<and> total > io_maximum io
      then (False, None, io\<lparr>io_error := ''size_limit_exceeded''\<rparr>)
      else (True, if elapsed \<ge> 100 then Some (if io_uploading io then ul_now else dl_now, total) else None, io))"

text \<open>A call libcurl makes, with the cancellation flag and the answers the code gets in it.\<close>

datatype callback =
    WriteCall bool "64 word" "64 word" bytes int
  | ReadCall bool "64 word" "64 word" "bytes option"
  | SeekCall int int bool
  | ProgressCall bool int int int int int

fun call :: "callback \<Rightarrow> io \<Rightarrow> io" where
  "call (WriteCall c sz nmemb data wrote) io = snd (write_data c sz nmemb data wrote io)"
| "call (ReadCall c sz nmemb answer) io = snd (read_data c sz nmemb answer io)"
| "call (SeekCall offset whence seeked) io = snd (seek_data offset whence seeked io)"
| "call (ProgressCall c dt dn ut un el) io = snd (snd (progress_data c dt dn ut un el io))"

section \<open>Options\<close>

datatype setopt =
    Opt string int \<comment> \<open>a long\<close>
  | OptText string bytes
  | OptCall string \<comment> \<open>a callback or its data\<close>
  | OptHeaders "bytes list"

definition opt_if :: "bool \<Rightarrow> setopt \<Rightarrow> setopt list" where
  "opt_if c s = (if c then [s] else [])"

definition http_version_option :: "qstring \<Rightarrow> setopt list" where
  "http_version_option v =
     (if v = qs ''1.0'' then [Opt ''HTTP_VERSION'' 1]
      else if v = qs ''1.1'' then [Opt ''HTTP_VERSION'' 2]
      else if v = qs ''2'' then [Opt ''HTTP_VERSION'' 3]
      else if v = qs ''3'' then [Opt ''HTTP_VERSION'' 30] else [])"

text \<open>The header lines of the request, in order.\<close>

definition request_headers :: "transfer_request \<Rightarrow> bytes list" where
  "request_headers r =
     (if r_bearer_token r \<noteq> [] then [bs ''Authorization: Bearer '' @ r_bearer_token r] else [])
     @ (if \<not> is_upload r \<and> r_operation r = ListFiles \<and> take 6 (url_scheme (r_url r)) = qs ''webdav''
        then [bs ''Depth: 1''] else [])"

text \<open>
  What \<open>perform\<close> sets, in order. \<open>wire_url\<close> is the encoded URL with the scheme of the wire,
  \<open>encode_name\<close> the file provider's \<open>encodeName\<close>, \<open>input_size\<close> the size of the opened input.
\<close>

definition setopts :: "lib \<Rightarrow> (qstring \<Rightarrow> bytes) \<Rightarrow> bytes \<Rightarrow> int \<Rightarrow> transfer_request \<Rightarrow> setopt list" where
  "setopts L encode_name wire_url input_size r =
     (let scheme = url_scheme (r_url r) in
      [OptText ''URL'' wire_url, OptText ''PROTOCOLS_STR'' (to_latin1 (wire_scheme scheme)),
       Opt ''FOLLOWLOCATION'' 0, Opt ''NETRC'' 0, OptText ''PROXY'' [], Opt ''NOSIGNAL'' 1,
       Opt ''SSL_VERIFYPEER'' 1, Opt ''SSL_VERIFYHOST'' 2, Opt ''SSLVERSION'' 6,
       Opt ''CONNECTTIMEOUT_MS'' (r_connect_timeout r), Opt ''TIMEOUT_MS'' (r_timeout r), Opt ''FAILONERROR'' 1]
      @ http_version_option (r_http_version r)
      @ [OptCall ''WRITEFUNCTION'', OptCall ''WRITEDATA'', OptCall ''XFERINFOFUNCTION'', OptCall ''XFERINFODATA'',
         Opt ''NOPROGRESS'' 0]
      @ opt_if (r_maximum_bytes r \<noteq> 0) (Opt ''MAXFILESIZE_LARGE'' (r_maximum_bytes r))
      @ opt_if (r_username r \<noteq> []) (OptText ''USERNAME'' (utf8 L (r_username r)))
      @ opt_if (r_password r \<noteq> []) (OptText ''PASSWORD'' (r_password r))
      @ opt_if (r_ca_file r \<noteq> []) (OptText ''CAINFO'' (encode_name (r_ca_file r)))
      @ opt_if (r_client_certificate r \<noteq> []) (OptText ''SSLCERT'' (encode_name (r_client_certificate r)))
      @ opt_if (r_client_key r \<noteq> []) (OptText ''SSLKEY'' (encode_name (r_client_key r)))
      @ opt_if (r_key_password r \<noteq> []) (OptText ''KEYPASSWD'' (r_key_password r))
      @ opt_if (r_ssh_known_hosts r \<noteq> []) (OptText ''SSH_KNOWNHOSTS'' (encode_name (r_ssh_known_hosts r)))
      @ opt_if (r_ssh_private_key r \<noteq> []) (OptText ''SSH_PRIVATE_KEYFILE'' (encode_name (r_ssh_private_key r)))
      @ opt_if (r_ssh_public_key r \<noteq> []) (OptText ''SSH_PUBLIC_KEYFILE'' (encode_name (r_ssh_public_key r)))
      @ opt_if (r_aws_sigv4 r \<noteq> []) (OptText ''AWS_SIGV4'' (to_latin1 (r_aws_sigv4 r)))
      @ opt_if (scheme = qs ''ftpes'' \<or> scheme = qs ''ftps'') (Opt ''USE_SSL'' 3)
      @ (if is_upload r
         then [Opt ''UPLOAD'' 1, OptCall ''READFUNCTION'', OptCall ''READDATA'', OptCall ''SEEKFUNCTION'',
           OptCall ''SEEKDATA'', Opt ''INFILESIZE_LARGE'' input_size]
         else if r_operation r = ListFiles
         then (if take 6 scheme = qs ''webdav'' then [OptText ''CUSTOMREQUEST'' (bs ''PROPFIND'')]
           else [Opt ''DIRLISTONLY'' 1])
         else [])
      @ opt_if (request_headers r \<noteq> []) (OptHeaders (request_headers r)))"

section \<open>One transfer\<close>

text \<open>One round of the polling loop: the flag at its head and what libcurl reports.\<close>

record tick =
  k_cancelled :: bool
  k_calls :: "callback list"
  k_perform_ok :: bool
  k_running :: bool
  k_poll_ok :: bool

text \<open>
  The loop over the rounds libcurl goes through; \<open>None\<close> while the transfer is still running
  after the given rounds.
\<close>

fun multi_loop :: "tick list \<Rightarrow> io \<Rightarrow> io option" where
  "multi_loop [] io = None"
| "multi_loop (t # ts) io =
     (if k_cancelled t then Some io
      else
        let io' = fold call (k_calls t) io in
        if \<not> k_perform_ok t \<or> \<not> k_running t \<or> \<not> k_poll_ok t then Some io'
        else multi_loop ts io')"

datatype curl_code = CurlOk | FilesizeExceeded | OperationTimedout | AbortedByCallback | FailedInit | OtherCode

text \<open>The messages left by the loop: the last \<open>CURLMSG_DONE\<close> decides.\<close>

definition loop_code :: "bool \<Rightarrow> curl_code list \<Rightarrow> curl_code" where
  "loop_code cancelled messages =
     (if cancelled then AbortedByCallback else if messages = [] then FailedInit else last messages)"

text \<open>Everything \<open>perform\<close> asks of its surroundings, in the order it asks.\<close>

record run =
  q_is_file :: bool
  q_input_open :: bool
  q_input_size :: int
  q_reads :: "bytes option list" \<comment> \<open>the reads of the checksum pass, \<open>None\<close> an error\<close>
  q_hash_cancelled :: bool \<comment> \<open>cancelled during the checksum pass, which then stops\<close>
  q_seek :: bool
  q_output_open :: bool
  q_backend :: bool \<comment> \<open>the two curl handles were created\<close>
  q_setup :: curl_code \<comment> \<open>the first failing option\<close>
  q_add :: bool
  q_ticks :: "tick list"
  q_cancelled :: bool \<comment> \<open>the flag at the end\<close>
  q_messages :: "curl_code list"
  q_response :: int
  q_http :: int
  q_commit :: bool

fun hash_reads :: "bytes option list \<Rightarrow> bytes option" where
  "hash_reads [] = Some []"
| "hash_reads (None # rs) = None"
| "hash_reads (Some b # rs) = map_option (\<lambda>h. b @ h) (hash_reads rs)"

text \<open>\<open>QByteArray::toLower\<close>.\<close>

definition lower_byte :: "8 word \<Rightarrow> 8 word" where
  "lower_byte b = (if byte_of CHR ''A'' \<le> b \<and> b \<le> byte_of CHR ''Z'' then b + 32 else b)"

definition sha_text :: "lib \<Rightarrow> bytes \<Rightarrow> bytes" where
  "sha_text L b = to_hex (sha256 L b)"

text \<open>The checks before the transfer; the empty string lets it run.\<close>

definition preflight :: "lib \<Rightarrow> transfer_request \<Rightarrow> run \<Rightarrow> string" where
  "preflight L r q =
     (if is_upload r then
        if \<not> q_is_file q \<or> \<not> q_input_open q then ''local_read_failed''
        else if r_maximum_bytes r \<noteq> 0 \<and> q_input_size q > r_maximum_bytes r then ''size_limit_exceeded''
        else if r_expected_sha256 r \<noteq> [] then
          (case hash_reads (q_reads q) of
             None \<Rightarrow> ''local_read_failed''
           | Some b \<Rightarrow>
               if q_hash_cancelled q then ''cancelled''
               else if sha_text L b \<noteq> map lower_byte (r_expected_sha256 r) then ''checksum_mismatch''
               else if \<not> q_seek q then ''local_read_failed'' else '''')
        else ''''
      else if \<not> q_output_open q then ''local_write_failed'' else '''')"

definition negotiated :: "int \<Rightarrow> string" where
  "negotiated v = (if v = 1 then ''1.0'' else if v = 2 then ''1.1'' else if v = 3 then ''2''
     else if v = 30 then ''3'' else '''')"

text \<open>The chain that decides the outcome; committing the new file is its last condition.\<close>

definition outcome :: "lib \<Rightarrow> transfer_request \<Rightarrow> run \<Rightarrow> curl_code \<Rightarrow> io \<Rightarrow> string" where
  "outcome L r q code io =
     (if q_cancelled q then ''cancelled''
      else if io_error io \<noteq> '''' then io_error io
      else if code = FilesizeExceeded then ''size_limit_exceeded''
      else if code = OperationTimedout then ''timeout''
      else if code \<noteq> CurlOk then ''transfer_failed''
      else if http_scheme (url_scheme (r_url r)) \<and> q_response q \<ge> 300 \<and> q_response q < 400
      then ''redirect_requires_new_request''
      else if r_expected_sha256 r \<noteq> []
         \<and> sha_text L (io_hashed io) \<noteq> map lower_byte (r_expected_sha256 r) then ''checksum_mismatch''
      else if \<not> io_uploading io \<and> \<not> q_commit q then ''local_commit_failed''
      else '''')"

text \<open>The code and the callback state when the transfer is over, if it ends in the rounds of \<open>q\<close>.\<close>

definition transfer_run :: "transfer_request \<Rightarrow> run \<Rightarrow> (curl_code \<times> io) option" where
  "transfer_run r q =
     (if q_setup q = CurlOk \<and> q_add q
      then map_option (\<lambda>io. (loop_code (q_cancelled q) (q_messages q), io)) (multi_loop (q_ticks q) (new_io r))
      else Some (if q_setup q = CurlOk then FailedInit else q_setup q, new_io r))"

text \<open>
  \<open>perform\<close>: its result and the content it published as the local file, if it did.
\<close>

definition perform :: "lib \<Rightarrow> transfer_request \<Rightarrow> run \<Rightarrow> (transfer_result \<times> bytes option) option" where
  "perform L r q =
     (let early = no_result\<lparr>x_protocol := url_scheme (r_url r)\<rparr>; e = preflight L r q in
      if e \<noteq> '''' then Some (early\<lparr>x_error := e, x_cancelled := (e = ''cancelled'')\<rparr>, None)
      else if \<not> q_backend q then Some (early\<lparr>x_error := ''backend_initialization_failed''\<rparr>, None)
      else map_option (\<lambda>(code, io).
          let e = outcome L r q code io in
          (early\<lparr>x_ok := (e = ''''), x_cancelled := q_cancelled q, x_error := e, x_bytes := io_bytes io,
             x_sha256 := sha_text L (io_hashed io), x_response_code := q_response q,
             x_http_version := negotiated (q_http q)\<rparr>,
           if e = '''' \<and> \<not> io_uploading io then Some (io_output io) else None))
        (transfer_run r q))"

section \<open>The table of jobs\<close>

text \<open>
  \<open>jobs\<close> maps the identifier of a running transfer to its cancellation flag; \<open>deferred\<close> are
  the refusals whose zero timer has not fired yet, in the order they fire; \<open>emitted\<close> are the
  \<open>finished\<close> signals.
\<close>

record transfers =
  jobs :: "(qstring, bool) table"
  deferred :: "(qstring \<times> transfer_result) list"
  emitted :: "(qstring \<times> transfer_result) list"

definition new_transfers :: transfers where
  "new_transfers = \<lparr>jobs = [], deferred = [], emitted = []\<rparr>"

definition start_error :: "lib \<Rightarrow> curl \<Rightarrow> files \<Rightarrow> transfer_request \<Rightarrow> transfers \<Rightarrow> string" where
  "start_error L C F r st =
     (let e = (if c_ready C then validate L C F r else ''backend_unavailable'') in
      if e = '''' \<and> length (jobs st) \<ge> 4 then ''too_many_transfers'' else e)"

text \<open>\<open>jid\<close> is the fresh identifier of the call, which it also returns.\<close>

definition transfer_start ::
  "lib \<Rightarrow> curl \<Rightarrow> files \<Rightarrow> qstring \<Rightarrow> transfer_request \<Rightarrow> transfers \<Rightarrow> transfers" where
  "transfer_start L C F jid r st =
     (let e = start_error L C F r st in
      if e \<noteq> ''''
      then st\<lparr>deferred := deferred st @ [(jid, no_result\<lparr>x_error := e, x_protocol := url_scheme (r_url r)\<rparr>)]\<rparr>
      else st\<lparr>jobs := tput jid False (jobs st)\<rparr>)"

definition deferred_fires :: "transfers \<Rightarrow> transfers" where
  "deferred_fires st =
     (case deferred st of
        [] \<Rightarrow> st
      | d # ds \<Rightarrow> st\<lparr>deferred := ds, emitted := emitted st @ [d]\<rparr>)"

text \<open>The thread of a running job ended with the result of \<open>perform\<close>.\<close>

definition thread_finished :: "qstring \<Rightarrow> transfer_result \<Rightarrow> transfers \<Rightarrow> transfers" where
  "thread_finished jid result st =
     st\<lparr>jobs := tdel jid (jobs st), emitted := emitted st @ [(jid, result)]\<rparr>"

definition transfer_cancel :: "qstring \<Rightarrow> transfers \<Rightarrow> transfers" where
  "transfer_cancel jid st =
     (case tget (jobs st) jid of None \<Rightarrow> st | Some c \<Rightarrow> st\<lparr>jobs := tput jid True (jobs st)\<rparr>)"

definition active_count :: "transfers \<Rightarrow> nat" where
  "active_count st = length (jobs st)"

text \<open>The destructor: every job is cancelled, its completion disconnected and its thread joined.\<close>

definition transfer_destroy :: "transfers \<Rightarrow> transfers" where
  "transfer_destroy st = st\<lparr>jobs := [], deferred := []\<rparr>"

text \<open>The events of the owner thread; a thread ends only while its job is in the table.\<close>

inductive transfer_event :: "lib \<Rightarrow> curl \<Rightarrow> files \<Rightarrow> transfers job_step" for L C F where
  ev_start: "transfer_event L C F st [jid] [] (transfer_start L C F jid r st)"
| ev_deferred: "deferred st = d # ds \<Longrightarrow> transfer_event L C F st [] [fst d] (deferred_fires st)"
| ev_thread: "has_key (jobs st) jid \<Longrightarrow> transfer_event L C F st [] [jid] (thread_finished jid result st)"
| ev_cancel: "transfer_event L C F st [] [] (transfer_cancel jid st)"

inductive_cases transfer_eventE: "transfer_event L C F st new fin st'"

end
