(* ===== verification/FileTransferProperties.thy ===== *)
theory FileTransferProperties
  imports FileTransfer
begin

text \<open>
  What \<open>src/Transfer.cpp\<close> promises: an accepted request stays protected on the wire, a
  download is bounded and replaces the local file only by verified bytes, a cancelled transfer
  ends, and the jobs of a \<open>FileTransfer\<close> complete exactly once.
\<close>

section \<open>Protection of what is sent\<close>

lemma find_in_set: "find P xs = Some x \<Longrightarrow> x \<in> set xs \<and> P x"
  by (auto simp: find_Some_iff)

lemma protocols_candidates: "set (protocols C) \<subseteq> set (map protocol_of candidates)"
  by (auto simp: protocols_def)

lemma protocol_encrypted:
  assumes "find (\<lambda>p. t_scheme p = s) (protocols C) = Some p" "t_encrypted p"
  shows "s \<in> set (map qs [''https'', ''webdavs'', ''ftps'', ''ftpes'', ''sftp'', ''scp'', ''smbs'', ''gophers''])"
proof -
  have "p \<in> set (map protocol_of candidates)" "t_scheme p = s"
    using find_in_set [OF assms(1)] protocols_candidates by auto
  then show ?thesis using assms(2) by (auto simp: candidates_def protocol_of_def)
qed

lemma validate_protocol_entry: "validate_protocol L F e r = '''' \<Longrightarrow> \<exists>p. e = Some p"
  by (cases e) (auto simp: validate_protocol_def)

lemma validate_accepts:
  assumes "validate L C F r = ''''"
  shows "validate_fields F r = ''''"
    and "\<exists>p. find (\<lambda>p. t_scheme p = url_scheme (r_url r)) (protocols C) = Some p
      \<and> validate_protocol L F (Some p) r = ''''"
    and "url_user_info (r_url r) = []"
proof -
  show "validate_fields F r = ''''" "url_user_info (r_url r) = []"
    using assms by (auto simp: validate_def Let_def split: if_splits)
  have "validate_protocol L F (find (\<lambda>p. t_scheme p = url_scheme (r_url r)) (protocols C)) r = ''''"
    using assms by (auto simp: validate_def Let_def split: if_splits)
  then show "\<exists>p. find (\<lambda>p. t_scheme p = url_scheme (r_url r)) (protocols C) = Some p
      \<and> validate_protocol L F (Some p) r = ''''"
    using validate_protocol_entry by metis
qed

lemma accepted_scheme:
  assumes "validate L C F r = ''''" "\<not> r_allow_cleartext r" "\<not> loopback L (url_host (r_url r))"
    "url_scheme (r_url r) \<noteq> qs ''file''"
  shows "url_scheme (r_url r)
    \<in> set (map qs [''https'', ''webdavs'', ''ftps'', ''ftpes'', ''sftp'', ''scp'', ''smbs'', ''gophers''])"
proof -
  obtain p where p: "find (\<lambda>p. t_scheme p = url_scheme (r_url r)) (protocols C) = Some p"
    "validate_protocol L F (Some p) r = ''''" using validate_accepts(2) [OF assms(1)] by blast
  then have "t_encrypted p" using assms(2-4) by (auto simp: validate_protocol_def split: if_splits)
  with p(1) show ?thesis by (rule protocol_encrypted)
qed

text \<open>
  C16: Nothing leaves the machine unprotected unless the caller said so: for an accepted
  request to a host that is not a loopback address, without the cleartext permission, libcurl
  is given a scheme that is encrypted from the first byte, or FTP with TLS required; it is
  restricted to that scheme, follows no redirect, uses no ambient proxy or netrc, and verifies
  peer and host certificate; for SFTP and SCP it gets the caller's readable known-hosts file.
  The URL has no user information and a bearer token can end no header line.
\<close>

theorem accepted_transfer_protected:
  assumes "validate L C F r = ''''" and "url_scheme (r_url r) \<noteq> qs ''file''"
    and "\<not> r_allow_cleartext r" and "\<not> loopback L (url_host (r_url r))"
  shows "(wire_scheme (url_scheme (r_url r)) \<in> set (map qs [''https'', ''ftps'', ''sftp'', ''scp'', ''smbs'', ''gophers''])
      \<or> (wire_scheme (url_scheme (r_url r)) = qs ''ftp'' \<and> Opt ''USE_SSL'' 3 \<in> set (setopts L enc wire n r)))
    \<and> OptText ''PROTOCOLS_STR'' (to_latin1 (wire_scheme (url_scheme (r_url r)))) \<in> set (setopts L enc wire n r)
    \<and> {Opt ''SSL_VERIFYPEER'' 1, Opt ''SSL_VERIFYHOST'' 2, Opt ''FOLLOWLOCATION'' 0, Opt ''NETRC'' 0,
        OptText ''PROXY'' []} \<subseteq> set (setopts L enc wire n r)
    \<and> (url_scheme (r_url r) \<in> {qs ''sftp'', qs ''scp''} \<longrightarrow> fi_readable F (r_ssh_known_hosts r)
        \<and> (r_ssh_known_hosts r \<noteq> [] \<longrightarrow>
            OptText ''SSH_KNOWNHOSTS'' (enc (r_ssh_known_hosts r)) \<in> set (setopts L enc wire n r)))
    \<and> url_user_info (r_url r) = [] \<and> {0, 10, 13} \<inter> set (r_bearer_token r) = {}"
proof -
  note s = accepted_scheme [OF assms(1,3,4,2)]
  have ssl: "Opt ''USE_SSL'' 3 \<in> set (setopts L enc wire n r)" if "url_scheme (r_url r) = qs ''ftpes''"
    using that by (simp add: setopts_def Let_def opt_if_def)
  have "(wire_scheme (url_scheme (r_url r)) \<in> set (map qs [''https'', ''ftps'', ''sftp'', ''scp'', ''smbs'', ''gophers''])
      \<or> (wire_scheme (url_scheme (r_url r)) = qs ''ftp'' \<and> Opt ''USE_SSL'' 3 \<in> set (setopts L enc wire n r)))"
    using s ssl by (auto simp: wire_scheme_def)
  moreover have "url_scheme (r_url r) \<in> {qs ''sftp'', qs ''scp''} \<longrightarrow> fi_readable F (r_ssh_known_hosts r)"
    "{0, 10, 13} \<inter> set (r_bearer_token r) = {}"
    using validate_accepts(1) [OF assms(1)] by (auto simp: validate_fields_def Let_def split: if_splits)
  ultimately show ?thesis using validate_accepts(3) [OF assms(1)]
    by (simp add: setopts_def Let_def opt_if_def)
qed

section \<open>Callbacks\<close>

lemma sint_small:
  assumes "unat (w :: 64 word) < 2 ^ 63"
  shows "sint w = int (unat w)"
proof -
  have less: "uint w < 2 ^ 63"
    using assms by (metis of_nat_less_iff of_nat_numeral of_nat_power uint_nat)
  have "0 \<le> uint w" by simp
  then have "- (2 ^ 63) \<le> uint w" by (rule order_trans [rotated]) simp
  then have "signed_take_bit 63 (uint w) = uint w" using less by (rule signed_take_bit_int_eq_self)
  then show ?thesis by (simp add: sint_uint)
qed

lemma not_too_many:
  assumes "\<not> too_many sz n"
  shows "unat (sz * n) = unat sz * unat n" "unat sz * unat n < 2 ^ 63"
proof -
  have "unat sz * unat n \<le> 2 ^ 63 - 1"
  proof (cases "sz = 0")
    case False
    then have "n \<le> (2 ^ 63 - 1) div sz" using assms by (simp add: too_many_def not_less)
    then have "unat n \<le> (2 ^ 63 - 1) div unat sz" by (simp add: word_le_nat_alt unat_div)
    then show ?thesis by (metis div_times_less_eq_dividend le_trans mult.commute mult_le_mono1)
  qed simp
  then show "unat sz * unat n < 2 ^ 63" by simp
  then show "unat (sz * n) = unat sz * unat n" using unat_mult_lem [of sz n] by simp
qed

text \<open>The product a callback computes is the exact number of bytes: it neither wraps nor turns negative.\<close>

lemma callback_size: "\<not> too_many sz n \<Longrightarrow> sint (sz * n) = int (unat sz * unat n)"
  using not_too_many [of sz n] sint_small [of "sz * n"] by simp

text \<open>
  The calls libcurl makes in a download: it delivers as many bytes as it announces, and it
  neither reads nor rewinds an input it was given none of.
\<close>

fun delivers :: "callback \<Rightarrow> bool" where
  "delivers (WriteCall c sz nmemb data wrote) \<longleftrightarrow> length data = unat sz * unat nmemb"
| "delivers (ProgressCall c dt dn ut un el) \<longleftrightarrow> True"
| "delivers _ \<longleftrightarrow> False"

definition download_io :: "transfer_request \<Rightarrow> io \<Rightarrow> bool" where
  "download_io r io \<longleftrightarrow> \<not> io_uploading io \<and> io_maximum io = r_maximum_bytes r
     \<and> io_bytes io = int (length (io_hashed io)) \<and> io_bytes io \<le> max_int64
     \<and> (r_maximum_bytes r \<noteq> 0 \<longrightarrow> io_bytes io \<le> r_maximum_bytes r)
     \<and> (io_error io = '''' \<longrightarrow> io_output io = io_hashed io)"

lemma write_data_keeps:
  assumes "download_io r io" "length data = unat sz * unat nmemb"
  shows "download_io r (snd (write_data c sz nmemb data wrote io))"
proof (cases "too_many sz nmemb")
  case True
  then show ?thesis using assms by (simp add: write_data_def)
next
  case False
  then have n: "sint (sz * nmemb) = int (length data)" using assms(2) by (simp add: callback_size)
  show ?thesis using assms(1) False by (auto simp: write_data_def download_io_def Let_def n)
qed

lemma call_keeps: "download_io r io \<Longrightarrow> delivers c \<Longrightarrow> download_io r (call c io)"
  by (cases c) (auto simp: write_data_keeps, auto simp: progress_data_def Let_def download_io_def)

lemma calls_keep: "download_io r io \<Longrightarrow> list_all delivers cs \<Longrightarrow> download_io r (fold call cs io)"
  by (induction cs arbitrary: io) (auto intro: call_keeps)

lemma new_download: "\<not> is_upload r \<Longrightarrow> 0 \<le> r_maximum_bytes r \<Longrightarrow> download_io r (new_io r)"
  by (simp add: download_io_def new_io_def max_int64_def)

definition ticks_deliver :: "tick list \<Rightarrow> bool" where
  "ticks_deliver ts \<longleftrightarrow> list_all (\<lambda>t. list_all delivers (k_calls t)) ts"

lemma multi_loop_keeps:
  "multi_loop ts io = Some io' \<Longrightarrow> ticks_deliver ts \<Longrightarrow> download_io r io \<Longrightarrow> download_io r io'"
  by (induction ts io rule: multi_loop.induct)
    (auto simp: ticks_deliver_def Let_def calls_keep split: if_splits)

text \<open>
  A download never holds or writes more than its limit, whatever the server sends: after
  any sequence of callbacks the bytes counted are exactly the bytes hashed, they fit a signed
  64-bit integer and the caller's maximum, and while no error is recorded they are exactly the
  bytes written to the new file. The products of the callback arguments do not overflow.
\<close>

theorem download_bounded:
  assumes "list_all delivers cs" and "\<not> is_upload r" and "0 \<le> r_maximum_bytes r"
  shows "let io = fold call cs (new_io r) in
    io_bytes io = int (length (io_hashed io)) \<and> io_bytes io < 2 ^ 63
    \<and> (r_maximum_bytes r = 0 \<or> io_bytes io \<le> r_maximum_bytes r)
    \<and> (io_error io \<noteq> '''' \<or> io_output io = io_hashed io)"
proof -
  have "download_io r (fold call cs (new_io r))"
    using calls_keep [OF new_download [OF assms(2,3)] assms(1)] .
  then show ?thesis by (auto simp: download_io_def Let_def max_int64_def)
qed

section \<open>Outcomes\<close>

lemma outcome_accepts:
  assumes "outcome L r q code io = ''''"
  shows "\<not> q_cancelled q" "io_error io = ''''" "code = CurlOk"
    "http_scheme (url_scheme (r_url r)) \<longrightarrow> q_response q < 300 \<or> q_response q \<ge> 400"
    "r_expected_sha256 r = [] \<or> sha_text L (io_hashed io) = map lower_byte (r_expected_sha256 r)"
    "io_uploading io \<or> q_commit q"
  using assms by (auto simp: outcome_def split: if_splits)

lemma transfer_run_cases:
  assumes "transfer_run r q = Some (code, io)" "code = CurlOk"
  shows "multi_loop (q_ticks q) (new_io r) = Some io" "\<not> q_cancelled q" "q_messages q \<noteq> []"
  using assms by (auto simp: transfer_run_def loop_code_def split: if_splits)

lemma call_uploading: "io_uploading (call c io) = io_uploading io"
  by (cases c) (auto simp: write_data_def read_data_def seek_data_def progress_data_def Let_def
      split: option.split)

lemma multi_loop_uploading: "multi_loop ts io = Some io' \<Longrightarrow> io_uploading io' = io_uploading io"
proof (induction ts io rule: multi_loop.induct)
  case (2 t ts io)
  have "io_uploading (fold call (k_calls t) io) = io_uploading io"
    by (rule fold_frame) (rule call_uploading)
  then show ?case using 2 by (auto simp: Let_def split: if_splits)
qed simp

lemma transfer_run_uploading: "transfer_run r q = Some (code, io) \<Longrightarrow> io_uploading io = is_upload r"
  by (auto simp: transfer_run_def new_io_def dest!: multi_loop_uploading split: if_splits)

lemma perform_early:
  assumes "perform L r q = Some (x, pub)" "\<not> (preflight L r q = '''' \<and> q_backend q)"
  shows "pub = None \<and> \<not> x_ok x"
  using assms by (auto simp: perform_def Let_def no_result_def split: if_splits)

text \<open>
  C15: The local file is replaced only by a complete, verified download: when \<open>perform\<close> publishes
  a file, it reports success, the file is exactly the bytes the callbacks took, as many as
  reported and within the limit, their SHA-256 is the one reported and, when the caller
  expected one, that one; the transfer was not cancelled, libcurl reported no error and an
  HTTP response was no redirect. A transfer that does not succeed, and an upload, publish
  nothing.
\<close>

theorem published_is_verified:
  assumes "perform L r q = Some (x, pub)" and "ticks_deliver (q_ticks q)" and "0 \<le> r_maximum_bytes r"
  shows "(pub = None \<longleftrightarrow> \<not> x_ok x \<or> is_upload r)
    \<and> (case pub of None \<Rightarrow> True | Some content \<Rightarrow>
        x_bytes x = int (length content) \<and> (r_maximum_bytes r = 0 \<or> x_bytes x \<le> r_maximum_bytes r)
        \<and> x_sha256 x = to_hex (sha256 L content)
        \<and> (r_expected_sha256 r = [] \<or> x_sha256 x = map lower_byte (r_expected_sha256 r))
        \<and> x_error x = '''' \<and> \<not> x_cancelled x \<and> last (q_messages q) = CurlOk
        \<and> (http_scheme (url_scheme (r_url r)) \<longrightarrow> x_response_code x < 300 \<or> x_response_code x \<ge> 400))"
proof (cases "preflight L r q = '''' \<and> q_backend q")
  case False
  then show ?thesis using perform_early [OF assms(1)] by simp
next
  case True
  then obtain code io where run: "transfer_run r q = Some (code, io)"
    and x: "x_ok x = (outcome L r q code io = '''')" "x_error x = outcome L r q code io"
      "x_cancelled x = q_cancelled q" "x_bytes x = io_bytes io" "x_sha256 x = sha_text L (io_hashed io)"
      "x_response_code x = q_response q"
    and pub: "pub = (if outcome L r q code io = '''' \<and> \<not> io_uploading io then Some (io_output io) else None)"
    using assms(1) by (auto simp: perform_def Let_def no_result_def)
  show ?thesis
  proof (cases "outcome L r q code io = '''' \<and> \<not> is_upload r")
    case ok: True
    note o = outcome_accepts [OF conjunct1 [OF ok]]
    note t = transfer_run_cases [OF run o(3)]
    have io: "download_io r io"
      using multi_loop_keeps [OF t(1) assms(2)] new_download assms(3) ok by blast
    have "last (q_messages q) = CurlOk" using run o(3) t by (auto simp: transfer_run_def loop_code_def split: if_splits)
    then show ?thesis using ok io o x pub by (auto simp: download_io_def sha_text_def)
  next
    case False
    have up: "io_uploading io = is_upload r"
      using transfer_run_uploading [OF run] .
    show ?thesis using False x pub up by auto
  qed
qed

text \<open>
  C17: A cancelled transfer ends and changes nothing: once the flag is set before some round of
  the polling loop, \<open>perform\<close> returns with the next round at the latest; it reports no success
  and the local file stays as it was. The loop itself has no other exit condition to wait for.
\<close>

theorem cancelled_transfer_ends:
  assumes "list_ex k_cancelled (q_ticks q)" and "q_cancelled q"
  shows "\<exists>x. perform L r q = Some (x, None) \<and> \<not> x_ok x \<and> x_error x \<noteq> ''''"
proof -
  have "\<exists>io'. multi_loop ts io = Some io'" if "list_ex k_cancelled ts" for ts io
    using that by (induction ts io rule: multi_loop.induct) (auto simp: Let_def)
  then obtain code io where run: "transfer_run r q = Some (code, io)"
    using assms(1) by (fastforce simp: transfer_run_def)
  have "outcome L r q code io = ''cancelled''" using assms(2) by (simp add: outcome_def)
  then show ?thesis using run by (auto simp: perform_def Let_def no_result_def)
qed

section \<open>Jobs\<close>

definition transfer_held :: "transfers \<Rightarrow> qstring list" where
  "transfer_held st = tkeys (jobs st) @ map fst (deferred st)"

lemma transfer_conserves:
  assumes "transfer_event L C F st new fin st'" "distinct (transfer_held st)"
    "set new \<inter> set (transfer_held st) = {}"
  shows "mset fin + mset (transfer_held st') = mset new + mset (transfer_held st)"
  using assms
proof (induction rule: transfer_event.induct)
  case (ev_start st jid r)
  then show ?case by (auto simp: transfer_start_def transfer_held_def Let_def tkeys_tput in_tkeys)
next
  case (ev_deferred st d ds)
  then show ?case by (simp add: deferred_fires_def transfer_held_def)
next
  case (ev_thread st jid result)
  then show ?case
    using mset_tkeys_tdel [of "jobs st" jid] by (simp add: thread_finished_def transfer_held_def)
next
  case (ev_cancel st jid)
  then show ?case
    by (auto simp: transfer_cancel_def transfer_held_def tkeys_tput has_key_def split: option.split)
qed

lemma transfer_limited:
  "transfer_event L C F st new fin st' \<Longrightarrow> length (jobs st) \<le> 4 \<Longrightarrow> length (jobs st') \<le> 4"
proof (induction rule: transfer_event.induct)
  case (ev_start st jid r)
  then show ?case by (auto simp: transfer_start_def start_error_def Let_def length_tput split: if_splits)
next
  case (ev_thread st jid result)
  then show ?case using length_tdel_le [of jid "jobs st"] by (simp add: thread_finished_def)
qed (auto simp: deferred_fires_def transfer_cancel_def length_tput has_key_def split: option.split)

interpretation transfer_jobs: job_service "transfer_event L C F" new_transfers transfer_held
  "\<lambda>st. length (jobs st)" 4 "\<lambda>issued st. True" "\<lambda>st. 0" for L C F
proof
  show "transfer_held new_transfers = []" "length (jobs new_transfers) = 0"
    by (simp_all add: transfer_held_def new_transfers_def tkeys_def)
  fix st st' new fin and issued :: "qstring list"
  assume ev: "transfer_event L C F st new fin st'"
  show "distinct (transfer_held st) \<Longrightarrow> distinct new \<Longrightarrow> set new \<inter> set issued = {} \<Longrightarrow>
      set (transfer_held st) \<subseteq> set issued \<Longrightarrow> mset fin + mset (transfer_held st') = mset new + mset (transfer_held st)"
    using transfer_conserves [OF ev] by (meson disjoint_iff subsetD)
  show "length (jobs st) \<le> 4 \<Longrightarrow> length (jobs st') \<le> 4" using transfer_limited [OF ev] .
next
  fix st
  assume "transfer_held st \<noteq> []"
  then consider (running) k where "has_key (jobs st) k" | (deferred) d ds where "deferred st = d # ds"
    using held_key [of "jobs st"] by (cases "deferred st") (auto simp: transfer_held_def)
  then show "\<exists>fin st'. transfer_event L C F st [] fin st' \<and> (fin \<noteq> [] \<or> (0::nat) < 0)"
  proof cases
    case running
    then show ?thesis using ev_thread by blast
  next
    case deferred
    then show ?thesis using ev_deferred by blast
  qed
qed simp

lemma emitted_ids:
  "job_run (transfer_event L C F) new_transfers issued gone st \<Longrightarrow> map fst (emitted st) = gone"
proof (induction rule: job_run.induct)
  case (run_step issued gone st new fin st')
  from run_step.hyps(2) run_step.IH show ?case
    by (induction rule: transfer_event.induct)
      (auto simp: transfer_start_def deferred_fires_def thread_finished_def transfer_cancel_def Let_def
        split: option.split)
qed (simp add: new_transfers_def)

text \<open>
  Every start completes exactly once: in every run of starts, cancellations, ended threads
  and timers, no identifier is reported finished twice or while it is still running or
  waiting; every issued identifier is either reported or still held; and at most four
  transfers are active.
\<close>

theorem transfers_complete_once:
  assumes "job_run (transfer_event L C F) new_transfers issued gone st"
  shows "distinct (map fst (emitted st))
    \<and> set (map fst (emitted st)) \<inter> set (transfer_held st) = {}
    \<and> set (map fst (emitted st)) \<union> set (transfer_held st) = set issued
    \<and> active_count st \<le> 4"
  using transfer_jobs.completes_once [OF assms] transfer_jobs.accounting [OF assms]
  by (simp add: emitted_ids [OF assms] active_count_def)

text \<open>
  Nothing waits forever: from every state a run can reach, ended threads and fired timers
  alone lead to a state in which nothing is held and exactly the issued identifiers have been
  reported finished.
\<close>

theorem transfers_drain:
  assumes "job_run (transfer_event L C F) new_transfers issued gone st"
  shows "\<exists>rest st'. job_run (transfer_event L C F) new_transfers issued (gone @ rest) st'
    \<and> jobs st' = [] \<and> deferred st' = [] \<and> set (map fst (emitted st')) = set issued"
proof -
  obtain rest st' where run: "job_run (transfer_event L C F) new_transfers issued (gone @ rest) st'"
    and held: "transfer_held st' = []" using transfer_jobs.can_drain [OF assms] by blast
  then have "set (map fst (emitted st')) = set issued"
    using transfer_jobs.completes_once [OF run] by (simp add: emitted_ids [OF run])
  then show ?thesis using run held by (auto simp: transfer_held_def tkeys_def)
qed

section \<open>Instances\<close>

definition demo_url :: qurl where
  "demo_url = blank_url\<lparr>url_valid := True, url_relative := False, url_scheme := qs ''https'', url_host := qs ''h''\<rparr>"

definition demo_transfer :: transfer_request where
  "demo_transfer = \<lparr>r_url = demo_url, r_operation = Download, r_local_path = qs ''/x'', r_username = [],
     r_password = [], r_bearer_token = bs ''tok'', r_ca_file = [], r_client_certificate = [], r_client_key = [],
     r_ssh_known_hosts = [], r_ssh_private_key = [], r_ssh_public_key = [], r_key_password = [],
     r_aws_sigv4 = [], r_http_version = [], r_allow_cleartext = False, r_maximum_bytes = 3,
     r_expected_sha256 = [], r_connect_timeout = 10000, r_timeout = 300000\<rparr>"

definition demo_curl :: curl where
  "demo_curl = \<lparr>c_ready = True, c_protocols = [qs ''file'', qs ''http'', qs ''https''], c_ssl = True,
     c_http2 = False, c_http3 = False\<rparr>"

definition demo_run :: "bool \<Rightarrow> run" where
  "demo_run cancelled = \<lparr>q_is_file = False, q_input_open = False, q_input_size = 0, q_reads = [],
     q_hash_cancelled = False, q_seek = False, q_output_open = True, q_backend = True, q_setup = CurlOk,
     q_add = True,
     q_ticks = [\<lparr>k_cancelled = False, k_calls = [WriteCall False 1 2 [104, 105] 2], k_perform_ok = True,
         k_running = cancelled, k_poll_ok = True\<rparr>,
       \<lparr>k_cancelled = cancelled, k_calls = [], k_perform_ok = True, k_running = True, k_poll_ok = True\<rparr>],
     q_cancelled = cancelled, q_messages = [CurlOk], q_response = 200, q_http = 2, q_commit = True\<rparr>"

text \<open>Example: an HTTPS download with a bearer token.\<close>

theorem accepted_transfer_protected_witness:
  "validate demo_lib demo_curl demo_host demo_transfer = ''''
   \<and> {Opt ''SSL_VERIFYPEER'' 1, Opt ''SSL_VERIFYHOST'' 2, Opt ''FOLLOWLOCATION'' 0, Opt ''NETRC'' 0,
        OptText ''PROXY'' []} \<subseteq> set (setopts demo_lib to_latin1 [] 0 demo_transfer)"
proof -
  have v: "validate demo_lib demo_curl demo_host demo_transfer = ''''" by code_simp
  have s: "url_scheme (r_url demo_transfer) \<noteq> qs ''file''" "\<not> r_allow_cleartext demo_transfer"
    "\<not> loopback demo_lib (url_host (r_url demo_transfer))"
    by (simp_all add: demo_transfer_def demo_url_def loopback_def demo_lib_def)
  show ?thesis using accepted_transfer_protected [OF v s] v by blast
qed

text \<open>Example: the second write would exceed the limit of three bytes.\<close>

theorem download_bounded_witness:
  "let io = fold call [WriteCall False 1 2 [104, 105] 2, WriteCall False 1 2 [104, 105] 2] (new_io demo_transfer) in
    io_bytes io = int (length (io_hashed io)) \<and> io_bytes io < 2 ^ 63
    \<and> (r_maximum_bytes demo_transfer = 0 \<or> io_bytes io \<le> r_maximum_bytes demo_transfer)
    \<and> (io_error io \<noteq> '''' \<or> io_output io = io_hashed io)"
  by (rule download_bounded) (simp_all add: demo_transfer_def is_upload_def)

text \<open>Example: a download of two bytes is published.\<close>

theorem published_is_verified_witness:
  "\<exists>x. perform demo_lib demo_transfer (demo_run False) = Some (x, Some [104, 105])
     \<and> x_bytes x = 2 \<and> x_sha256 x = to_hex (sha256 demo_lib [104, 105]) \<and> x_error x = ''''"
proof -
  have "map_option snd (perform demo_lib demo_transfer (demo_run False)) = Some (Some [104, 105])"
    by code_simp
  then obtain x where x: "perform demo_lib demo_transfer (demo_run False) = Some (x, Some [104, 105])"
    by auto
  have "ticks_deliver (q_ticks (demo_run False))" by (simp add: ticks_deliver_def demo_run_def)
  moreover have "0 \<le> r_maximum_bytes demo_transfer" by (simp add: demo_transfer_def)
  ultimately show ?thesis using published_is_verified [OF x] x by auto
qed

text \<open>Example: the same transfer, cancelled after its first round.\<close>

theorem cancelled_transfer_ends_witness:
  "\<exists>x. perform demo_lib demo_transfer (demo_run True) = Some (x, None) \<and> \<not> x_ok x \<and> x_error x \<noteq> ''''"
  by (rule cancelled_transfer_ends) (simp_all add: demo_run_def)

definition demo_started :: transfers where
  "demo_started = transfer_start demo_lib demo_curl demo_host (qs ''j'') demo_transfer new_transfers"

lemma demo_job_run:
  "job_run (transfer_event demo_lib demo_curl demo_host) new_transfers [qs ''j''] [] demo_started"
proof -
  have ev: "transfer_event demo_lib demo_curl demo_host new_transfers [qs ''j''] [] demo_started"
    unfolding demo_started_def by (rule ev_start)
  have "job_run (transfer_event demo_lib demo_curl demo_host) new_transfers [] [] new_transfers"
    by (rule run_start)
  from run_step [OF this ev] show ?thesis by simp
qed

text \<open>Example: one transfer is running.\<close>

theorem transfers_complete_once_witness:
  "distinct (map fst (emitted demo_started))
    \<and> set (map fst (emitted demo_started)) \<union> set (transfer_held demo_started) = {qs ''j''}
    \<and> active_count demo_started \<le> 4"
  using transfers_complete_once [OF demo_job_run] by simp

text \<open>Example: it can complete.\<close>

theorem transfers_drain_witness:
  "\<exists>rest st'. job_run (transfer_event demo_lib demo_curl demo_host) new_transfers [qs ''j''] ([] @ rest) st'
    \<and> jobs st' = [] \<and> deferred st' = [] \<and> set (map fst (emitted st')) = {qs ''j''}"
  using transfers_drain [OF demo_job_run] by simp

end
