(* ===== verification/StorageBridge.thy ===== *)
theory StorageBridge
  imports Protocol LocalFiles Jobs
begin

text \<open>
  \<open>src/StorageBridge.cpp\<close> on a desktop platform: storage operations that run a child process
  of rclone each, and a file protocol server that keeps one child. The validations, the
  arguments and the environment of a child are functions of the options; the jobs and the
  server are states changed by the calls and by the signals of the child processes. The
  system's files, programs and environment are the record \<open>files\<close>.
\<close>

section \<open>Options\<close>

record bridge_options =
  o_executable :: qstring
  o_config :: qstring
  o_config_password :: bytes
  o_runtime :: qstring
  o_python :: qstring
  o_script :: qstring

datatype storage_operation = Providers | ListPath | StatPath | CopyFile | CopyDirectory | MakeDirectory
  | RemoveFile | CheckPaths | OtherStorage

record storage_request =
  s_operation :: storage_operation
  s_source :: qstring
  s_destination :: qstring
  s_overwrite :: bool
  s_timeout :: int

record storage_result =
  z_ok :: bool
  z_cancelled :: bool
  z_exit :: int
  z_error :: string
  z_data :: json

definition no_storage_result :: storage_result where
  "no_storage_result = \<lparr>z_ok = False, z_cancelled = False, z_exit = -1, z_error = '''', z_data = JNull\<rparr>"

section \<open>Validation\<close>

text \<open>
  \<open>fi_others\<close> stands for the platform's permission check: group or other permission bits on
  Unix, rights of the world, authenticated users or users groups on Windows.
\<close>

definition private_path :: "files \<Rightarrow> qstring \<Rightarrow> bool \<Rightarrow> bool" where
  "private_path F path directory \<longleftrightarrow> fi_absolute F path \<and> \<not> fi_symlink F path
     \<and> fi_canonical F path = fi_clean F path \<and> (if directory then fi_dir F path else fi_file F path)
     \<and> \<not> fi_others F path \<and> fi_readable F path"

definition executable :: "files \<Rightarrow> bridge_options \<Rightarrow> qstring" where
  "executable F b =
     (if o_executable b = [] then fi_rclone F
      else if fi_absolute F (o_executable b) \<and> fi_file F (o_executable b) \<and> fi_executable F (o_executable b)
      then fi_absolute_path F (o_executable b) else [])"

definition validate_backend :: "files \<Rightarrow> bridge_options \<Rightarrow> bool \<Rightarrow> string" where
  "validate_backend F b require_rclone =
     (if require_rclone \<and> executable F b = [] then ''backend_unavailable''
      else if \<not> private_path F (o_runtime b) True then ''private_runtime_directory_required''
      else if o_config b \<noteq> [] \<and> \<not> private_path F (o_config b) False then ''private_config_required''
      else if 0 \<in> set (o_config_password b) then ''invalid_config_password''
      else '''')"

definition remote_location :: "files \<Rightarrow> qstring \<Rightarrow> bool" where
  "remote_location F path \<longleftrightarrow> take 1 path = qs '':'' \<or> \<not> fi_absolute F path"

text \<open>
  The pattern \<^verbatim>\<open>^[A-Za-z0-9_][A-Za-z0-9_-]*:[^\x00-\x1f]*$\<close>; the text holds no line feed when it
  is matched.
\<close>

definition named_remote :: "qstring \<Rightarrow> bool" where
  "named_remote s =
     (case s of
        [] \<Rightarrow> False
      | u # us \<Rightarrow> (is_alnum u \<or> u = unit_of CHR ''_'') \<and>
          (case dropWhile word_char us of
             [] \<Rightarrow> False
           | c # rest \<Rightarrow> c = unit_of CHR '':'' \<and> list_all (\<lambda>v. v \<ge> 32) rest))"

definition validate_location :: "files \<Rightarrow> qstring \<Rightarrow> bridge_options \<Rightarrow> string" where
  "validate_location F path b =
     (if path = [] \<or> length path > 8192 \<or> 0 \<in> set path \<or> 10 \<in> set path \<or> 13 \<in> set path
      then ''invalid_location''
      else if \<not> remote_location F path then ''''
      else if \<not> named_remote path then ''invalid_location''
      else if o_config b = [] then ''explicit_config_required''
      else '''')"

section \<open>Children\<close>

type_synonym environment = "(qstring, qstring) table"

definition inherited :: "files \<Rightarrow> string \<Rightarrow> environment \<Rightarrow> environment" where
  "inherited F k e = (case tget (fi_system_env F) (qs k) of None \<Rightarrow> e | Some v \<Rightarrow> tput (qs k) v e)"

definition environment :: "lib \<Rightarrow> files \<Rightarrow> bridge_options \<Rightarrow> environment" where
  "environment L F b =
     (let e = fold (inherited F) [''PATH'', ''SystemRoot'', ''WINDIR'', ''LANG'', ''LC_ALL''] [];
          e = fold (\<lambda>k. tput (qs k) (o_runtime b)) [''TMPDIR'', ''TMP'', ''TEMP'', ''USERPROFILE'', ''HOME''] e;
          e = tput (qs ''PYTHONNOUSERSITE'') (qs ''1'') e
      in if o_config_password b = [] then e
         else tput (qs ''RCLONE_CONFIG_PASS'') (from_utf8 L (o_config_password b)) e)"

text \<open>\<open>fi_null\<close> is the platform's null device, \<^verbatim>\<open>NUL\<close> on Windows.\<close>

definition common_arguments :: "files \<Rightarrow> bridge_options \<Rightarrow> qstring list" where
  "common_arguments F b =
     [qs ''--config'', if o_config b = [] then fi_null F else o_config b, qs ''--cache-dir'', o_runtime b,
      qs ''--use-json-log'', qs ''--log-level'', qs ''ERROR'', qs ''--stats'', qs ''0'',
      qs ''--ask-password=false'', qs ''--retries'', qs ''1'', qs ''--low-level-retries'', qs ''1'']"

definition storage_json :: "storage_operation \<Rightarrow> bool" where
  "storage_json q \<longleftrightarrow> q = Providers \<or> q = ListPath \<or> q = StatPath"

definition copies :: "storage_operation \<Rightarrow> bool" where
  "copies q \<longleftrightarrow> q = CopyFile \<or> q = CopyDirectory"

definition operation_arguments :: "storage_request \<Rightarrow> qstring list" where
  "operation_arguments r =
     (case s_operation r of
        Providers \<Rightarrow> [qs ''config'', qs ''providers'']
      | ListPath \<Rightarrow> [qs ''lsjson'', s_source r]
      | StatPath \<Rightarrow> [qs ''lsjson'', s_source r, qs ''--stat'']
      | CopyFile \<Rightarrow> [qs ''copyto'', s_source r, s_destination r]
      | CopyDirectory \<Rightarrow> [qs ''copy'', s_source r, s_destination r]
      | MakeDirectory \<Rightarrow> [qs ''mkdir'', s_source r]
      | RemoveFile \<Rightarrow> [qs ''deletefile'', s_source r]
      | CheckPaths \<Rightarrow> [qs ''check'', s_source r, s_destination r, qs ''--download'']
      | OtherStorage \<Rightarrow> [])"

definition storage_arguments :: "storage_request \<Rightarrow> qstring list" where
  "storage_arguments r = operation_arguments r
     @ (if copies (s_operation r)
        then (if s_overwrite r then [] else [qs ''--ignore-existing'']) @ [qs ''--checksum'', qs ''--local-no-set-modtime'']
        else [])"

definition storage_error :: "files \<Rightarrow> bridge_options \<Rightarrow> storage_request \<Rightarrow> nat \<Rightarrow> string" where
  "storage_error F b r active =
     (let e = validate_backend F b True;
          e = (if e = '''' \<and> s_operation r \<noteq> Providers then validate_location F (s_source r) b else e);
          e = (if e = '''' \<and> (copies (s_operation r) \<or> s_operation r = CheckPaths)
               then validate_location F (s_destination r) b else e);
          e = (if e = '''' \<and> s_timeout r \<le> 0 then ''invalid_timeout'' else e);
          e = (if e = '''' \<and> active \<ge> 4 then ''too_many_transfers'' else e)
      in if s_operation r = OtherStorage then ''unsupported_operation'' else e)"

section \<open>Jobs\<close>

text \<open>
  A job is in the table exactly while it is not completed, so the source's \<open>completed\<close> flag is
  the absence of the entry: every handler looks its identifier up first.
\<close>

record bridge_job =
  j_output :: bytes
  j_failure :: string
  j_cancelled :: bool
  j_json :: bool

record child =
  d_program :: qstring
  d_arguments :: "qstring list"
  d_environment :: environment
  d_directory :: qstring

record bridge =
  b_options :: bridge_options
  b_jobs :: "(qstring, bridge_job) table"
  b_deferred :: "(qstring \<times> storage_result) list"
  b_emitted :: "(qstring \<times> storage_result) list"
  b_spawned :: "child list"

definition new_bridge :: "bridge_options \<Rightarrow> bridge" where
  "new_bridge b = \<lparr>b_options = b, b_jobs = [], b_deferred = [], b_emitted = [], b_spawned = []\<rparr>"

definition storage_start :: "lib \<Rightarrow> files \<Rightarrow> qstring \<Rightarrow> storage_request \<Rightarrow> bridge \<Rightarrow> bridge" where
  "storage_start L F jid r st =
     (let b = b_options st; e = storage_error F b r (length (b_jobs st)) in
      if e \<noteq> '''' then st\<lparr>b_deferred := b_deferred st @ [(jid, no_storage_result\<lparr>z_error := e\<rparr>)]\<rparr>
      else st\<lparr>
        b_jobs := tput jid \<lparr>j_output = [], j_failure = '''', j_cancelled = False,
          j_json = storage_json (s_operation r)\<rparr> (b_jobs st),
        b_spawned := b_spawned st @ [\<lparr>d_program = executable F b,
          d_arguments = storage_arguments r @ common_arguments F b,
          d_environment = environment L F b, d_directory = o_runtime b\<rparr>]\<rparr>)"

definition storage_result_of :: "lib \<Rightarrow> bridge_job \<Rightarrow> int \<Rightarrow> bool \<Rightarrow> storage_result" where
  "storage_result_of L j code normal =
     (let r = no_storage_result\<lparr>z_cancelled := j_cancelled j, z_exit := code\<rparr>;
          r = (if j_cancelled j then r\<lparr>z_error := ''cancelled''\<rparr>
            else if j_failure j \<noteq> '''' then r\<lparr>z_error := j_failure j\<rparr>
            else if \<not> normal \<or> code \<noteq> 0 then r\<lparr>z_error := ''backend_failed''\<rparr>
            else if j_json j then
              (case json_parse L (j_output j) of
                 None \<Rightarrow> r\<lparr>z_error := ''invalid_backend_response''\<rparr>
               | Some d \<Rightarrow> if is_array d \<or> is_object d then r\<lparr>z_data := d\<rparr> else r)
            else r)
      in r\<lparr>z_ok := (z_error r = '''')\<rparr>)"

text \<open>\<open>finish\<close>: the child exited, normally or not.\<close>

definition storage_finish :: "lib \<Rightarrow> qstring \<Rightarrow> int \<Rightarrow> bool \<Rightarrow> bridge \<Rightarrow> bridge" where
  "storage_finish L jid code normal st =
     (case tget (b_jobs st) jid of
        None \<Rightarrow> st
      | Some j \<Rightarrow> st\<lparr>b_jobs := tdel jid (b_jobs st),
          b_emitted := b_emitted st @ [(jid, storage_result_of L j code normal)]\<rparr>)"

definition with_job :: "qstring \<Rightarrow> (bridge_job \<Rightarrow> bridge_job) \<Rightarrow> bridge \<Rightarrow> bridge" where
  "with_job jid f st =
     (case tget (b_jobs st) jid of None \<Rightarrow> st | Some j \<Rightarrow> st\<lparr>b_jobs := tput jid (f j) (b_jobs st)\<rparr>)"

definition storage_output :: "qstring \<Rightarrow> bytes \<Rightarrow> bridge \<Rightarrow> bridge" where
  "storage_output jid b =
     with_job jid (\<lambda>j. if \<not> j_json j then j
       else if int (length (j_output j)) + int (length b) > 16 * 1024 * 1024
       then j\<lparr>j_failure := ''result_size_limit_exceeded''\<rparr>
       else j\<lparr>j_output := j_output j @ b\<rparr>)"

definition storage_failed_to_start :: "lib \<Rightarrow> qstring \<Rightarrow> bridge \<Rightarrow> bridge" where
  "storage_failed_to_start L jid st =
     storage_finish L jid (-1) False (with_job jid (\<lambda>j. j\<lparr>j_failure := ''backend_start_failed''\<rparr>) st)"

definition storage_timeout :: "qstring \<Rightarrow> bridge \<Rightarrow> bridge" where
  "storage_timeout jid = with_job jid (\<lambda>j. j\<lparr>j_failure := ''timeout''\<rparr>)"

definition storage_cancel :: "qstring \<Rightarrow> bridge \<Rightarrow> bridge" where
  "storage_cancel jid = with_job jid (\<lambda>j. j\<lparr>j_cancelled := True\<rparr>)"

definition storage_deferred :: "bridge \<Rightarrow> bridge" where
  "storage_deferred st =
     (case b_deferred st of
        [] \<Rightarrow> st
      | d # ds \<Rightarrow> st\<lparr>b_deferred := ds, b_emitted := b_emitted st @ [d]\<rparr>)"

definition storage_destroy :: "bridge \<Rightarrow> bridge" where
  "storage_destroy st = st\<lparr>b_jobs := [], b_deferred := []\<rparr>"

inductive storage_event :: "lib \<Rightarrow> files \<Rightarrow> bridge job_step" for L F where
  st_start: "storage_event L F st [jid] [] (storage_start L F jid r st)"
| st_finish: "has_key (b_jobs st) jid \<Longrightarrow> storage_event L F st [] [jid] (storage_finish L jid code normal st)"
| st_failed: "has_key (b_jobs st) jid \<Longrightarrow> storage_event L F st [] [jid] (storage_failed_to_start L jid st)"
| st_deferred: "b_deferred st = d # ds \<Longrightarrow> storage_event L F st [] [fst d] (storage_deferred st)"
| st_output: "storage_event L F st [] [] (storage_output jid b st)"
| st_timeout: "storage_event L F st [] [] (storage_timeout jid st)"
| st_cancel: "storage_event L F st [] [] (storage_cancel jid st)"

section \<open>The file protocol server\<close>

datatype server_protocol = Http | Https | WebDav | WebDavs | Ftp | Ftps | FtpES | Sftp | S3 | S3Tls
  | Restic | ResticTls | Nfs | OtherProtocol

record protocol_spec =
  command :: string
  tls :: bool
  auth :: bool
  experimental :: bool

definition server_spec :: "server_protocol \<Rightarrow> protocol_spec" where
  "server_spec p =
     (case p of
        Http \<Rightarrow> \<lparr>command = ''http'', tls = False, auth = True, experimental = False\<rparr>
      | Https \<Rightarrow> \<lparr>command = ''http'', tls = True, auth = True, experimental = False\<rparr>
      | WebDav \<Rightarrow> \<lparr>command = ''webdav'', tls = False, auth = True, experimental = False\<rparr>
      | WebDavs \<Rightarrow> \<lparr>command = ''webdav'', tls = True, auth = True, experimental = False\<rparr>
      | Ftp \<Rightarrow> \<lparr>command = ''ftp'', tls = False, auth = True, experimental = False\<rparr>
      | Ftps \<Rightarrow> \<lparr>command = ''ftps'', tls = True, auth = True, experimental = False\<rparr>
      | FtpES \<Rightarrow> \<lparr>command = ''ftpes'', tls = True, auth = True, experimental = False\<rparr>
      | Sftp \<Rightarrow> \<lparr>command = ''sftp'', tls = False, auth = True, experimental = False\<rparr>
      | S3 \<Rightarrow> \<lparr>command = ''s3'', tls = False, auth = True, experimental = True\<rparr>
      | S3Tls \<Rightarrow> \<lparr>command = ''s3'', tls = True, auth = True, experimental = True\<rparr>
      | Restic \<Rightarrow> \<lparr>command = ''restic'', tls = False, auth = True, experimental = False\<rparr>
      | ResticTls \<Rightarrow> \<lparr>command = ''restic'', tls = True, auth = True, experimental = False\<rparr>
      | Nfs \<Rightarrow> \<lparr>command = ''nfs'', tls = False, auth = False, experimental = False\<rparr>
      | OtherProtocol \<Rightarrow> \<lparr>command = '''', tls = False, auth = False, experimental = False\<rparr>)"

definition python_ftp :: "protocol_spec \<Rightarrow> bool" where
  "python_ftp s \<longleftrightarrow> command s = ''ftps'' \<or> command s = ''ftpes''"

record server_options =
  v_protocol :: server_protocol
  v_root :: qstring
  v_address :: address
  v_port :: "16 word"
  v_username :: qstring
  v_password :: bytes
  v_certificate :: qstring
  v_private_key :: qstring
  v_authorized_keys :: qstring
  v_read_only :: bool
  v_allow_cleartext :: bool
  v_passive_ports :: qstring
  v_public_address :: qstring

definition inside :: "files \<Rightarrow> qstring \<Rightarrow> qstring \<Rightarrow> bool" where
  "inside F path rt =
     (let clean = fi_clean F path in clean = rt \<or> take (length rt + 1) clean = rt @ qs ''/'')"

text \<open>The pattern \<^verbatim>\<open>^([0-9]{1,5})-([0-9]{1,5})$\<close> and its two numbers.\<close>

definition port_range :: "qstring \<Rightarrow> (nat \<times> nat) option" where
  "port_range s =
     (let a = takeWhile is_digit s; rest = dropWhile is_digit s;
          b = takeWhile is_digit (tl rest); end' = dropWhile is_digit (tl rest) in
      if 1 \<le> length a \<and> length a \<le> 5 \<and> take 1 rest = qs ''-'' \<and> 1 \<le> length b \<and> length b \<le> 5 \<and> at_end end'
      then (case (read_digits 0 a, read_digits 0 b) of (Some m, Some n) \<Rightarrow> Some (m, n) | _ \<Rightarrow> None)
      else None)"

definition validate_root :: "files \<Rightarrow> bridge_options \<Rightarrow> server_options \<Rightarrow> string" where
  "validate_root F b v =
     (if remote_location F (v_root v) then ''''
      else
        let canonical = fi_canonical F (v_root v) in
        if \<not> fi_dir F (v_root v) \<or> fi_symlink F (v_root v) \<or> canonical \<noteq> fi_clean F (v_root v) then ''invalid_root''
        else if inside F (o_runtime b) canonical \<or> (o_config b \<noteq> [] \<and> inside F (o_config b) canonical)
           \<or> (v_private_key v \<noteq> [] \<and> inside F (v_private_key v) canonical)
        then ''secrets_inside_exported_root''
        else '''')"

definition validate_identity :: "files \<Rightarrow> protocol_spec \<Rightarrow> server_options \<Rightarrow> string" where
  "validate_identity F s v =
     (if tls s \<and> (\<not> fi_absolute F (v_certificate v) \<or> \<not> fi_file F (v_certificate v)
         \<or> \<not> fi_readable F (v_certificate v) \<or> \<not> private_path F (v_private_key v) False)
      then ''tls_identity_required''
      else if command s = ''sftp'' \<and> \<not> private_path F (v_private_key v) False then ''ssh_host_key_required''
      else if command s = ''sftp'' \<and> v_authorized_keys v \<noteq> [] \<and> (\<not> fi_absolute F (v_authorized_keys v)
         \<or> \<not> fi_file F (v_authorized_keys v) \<or> \<not> fi_readable F (v_authorized_keys v))
      then ''invalid_authorized_keys''
      else if command s = ''restic'' \<and> v_read_only v then ''readonly_not_supported_by_restic''
      else '''')"

definition validate_ftp :: "lib \<Rightarrow> files \<Rightarrow> bridge_options \<Rightarrow> protocol_spec \<Rightarrow> server_options \<Rightarrow> string" where
  "validate_ftp L F b s v =
     (if (command s = ''ftp'' \<or> python_ftp s) \<and>
         (case port_range (v_passive_ports v) of None \<Rightarrow> True | Some (m, n) \<Rightarrow> m < 1 \<or> n > 65535 \<or> m > n)
      then ''invalid_passive_ports''
      else if (command s = ''ftp'' \<or> python_ftp s) \<and> v_public_address v \<noteq> []
         \<and> parse_address L (v_public_address v) = None then ''invalid_public_address''
      else if \<not> python_ftp s then ''''
      else if \<not> fi_absolute F (o_python b) \<or> \<not> fi_file F (o_python b) \<or> \<not> fi_executable F (o_python b)
         \<or> \<not> fi_absolute F (o_script b) \<or> \<not> fi_file F (o_script b) then ''ftp_tls_backend_unavailable''
      else if remote_location F (v_root v) then ''ftp_tls_requires_local_root''
      else if inside F (fi_absolute_path F (o_script b)) (fi_canonical F (v_root v))
      then ''server_script_inside_exported_root''
      else '''')"

definition validate_access :: "protocol_spec \<Rightarrow> server_options \<Rightarrow> string" where
  "validate_access s v =
     (if v_port v = 0 \<or> addr_multicast (v_address v) then ''invalid_listen_address''
      else if command s = '''' then ''unsupported_protocol''
      else if auth s \<and> (v_username v = []
         \<or> (v_password v = [] \<and> \<not> (command s = ''sftp'' \<and> v_authorized_keys v \<noteq> [])))
      then ''authentication_required''
      else if unit_of CHR '':'' \<in> set (v_username v) \<or> unit_of CHR '','' \<in> set (v_username v)
         \<or> unit_of (CHR 0x22) \<in> set (v_username v) \<or> 0 \<in> set (v_username v) \<or> 0 \<in> set (v_password v)
         \<or> 10 \<in> set (v_username v) \<or> 13 \<in> set (v_username v) then ''invalid_credentials''
      else if \<not> tls s \<and> command s \<noteq> ''sftp'' \<and> \<not> addr_loopback (v_address v) \<and> \<not> v_allow_cleartext v
      then ''cleartext_disabled''
      else '''')"

text \<open>The first failing check decides; \<open>windows\<close> selects the platform that has no NFS server.\<close>

definition first_error :: "string list \<Rightarrow> string" where
  "first_error es = (case find (\<lambda>e. e \<noteq> '''') es of None \<Rightarrow> '''' | Some e \<Rightarrow> e)"

definition validate_server ::
  "bool \<Rightarrow> lib \<Rightarrow> files \<Rightarrow> bridge_options \<Rightarrow> server_options \<Rightarrow> string" where
  "validate_server windows L F b v =
     (if windows \<and> v_protocol v = Nfs then ''unsupported_protocol''
      else
        let s = server_spec (v_protocol v) in
        first_error [validate_backend F b (\<not> python_ftp s), validate_location F (v_root v) b,
          validate_root F b v, validate_access s v, validate_identity F s v, validate_ftp L F b s v])"

definition server_address :: "server_options \<Rightarrow> qstring" where
  "server_address v =
     (if addr_family (v_address v) = Ipv6 then qs ''['' @ addr_text (v_address v) @ qs '']''
      else addr_text (v_address v))"

definition python_arguments :: "bridge_options \<Rightarrow> server_options \<Rightarrow> qstring list" where
  "python_arguments b v =
     [qs ''-B'', o_script b, qs ''--root'', v_root v, qs ''--address'', addr_text (v_address v), qs ''--port'',
      number_text (uint (v_port v)), qs ''--certificate'', v_certificate v, qs ''--key'', v_private_key v,
      qs ''--passive-ports'', v_passive_ports v]
     @ (if v_protocol v = Ftps then [qs ''--implicit''] else [])
     @ (if v_read_only v then [qs ''--read-only''] else [])
     @ (if v_public_address v \<noteq> [] then [qs ''--public-address'', v_public_address v] else [])"

definition rclone_arguments :: "files \<Rightarrow> bridge_options \<Rightarrow> server_options \<Rightarrow> qstring list" where
  "rclone_arguments F b v =
     (let s = server_spec (v_protocol v) in
      [qs ''serve'', qs (command s), v_root v, qs ''--addr'',
       server_address v @ qs '':'' @ number_text (uint (v_port v))]
      @ (if v_read_only v then [qs ''--read-only''] else [])
      @ (if tls s then [qs ''--cert'', v_certificate v, qs ''--key'', v_private_key v]
           @ (if command s \<noteq> ''ftp'' then [qs ''--min-tls-version'', qs ''tls1.2''] else []) else [])
      @ (if command s = ''sftp'' then [qs ''--key'', v_private_key v, qs ''--authorized-keys'',
           if v_authorized_keys v = [] then fi_null F else v_authorized_keys v] else [])
      @ (if command s = ''nfs'' \<and> \<not> v_read_only v
         then [qs ''--vfs-cache-mode'', qs ''full'', qs ''--vfs-write-back'', qs ''0s''] else [])
      @ (if command s = ''ftp'' then [qs ''--passive-port'', v_passive_ports v]
           @ (if v_public_address v \<noteq> [] then [qs ''--public-ip'', v_public_address v] else []) else [])
      @ common_arguments F b)"

definition server_arguments :: "files \<Rightarrow> bridge_options \<Rightarrow> server_options \<Rightarrow> qstring list" where
  "server_arguments F b v =
     (if python_ftp (server_spec (v_protocol v)) then python_arguments b v else rclone_arguments F b v)"

text \<open>\<^verbatim>\<open>pair.replace('"', "\"\"")\<close> and the surrounding quotes.\<close>

definition quoted_pair :: "qstring \<Rightarrow> qstring" where
  "quoted_pair s =
     (let q = unit_of (CHR 0x22) in [q] @ concat (map (\<lambda>u. if u = q then [q, q] else [u]) s) @ [q])"

definition server_environment :: "lib \<Rightarrow> files \<Rightarrow> bridge_options \<Rightarrow> server_options \<Rightarrow> environment" where
  "server_environment L F b v =
     (let s = server_spec (v_protocol v); e = environment L F b; password = from_utf8 L (v_password v) in
      if command s = ''s3'' then tput (qs ''RCLONE_AUTH_KEY'') (quoted_pair (v_username v @ qs '','' @ password)) e
      else if python_ftp s
      then tput (qs ''IIWEBSERVER_FTP_PASSWORD'') password (tput (qs ''IIWEBSERVER_FTP_USER'') (v_username v) e)
      else if auth s then
        let e = tput (qs ''RCLONE_USER'') (v_username v) e
        in if v_password v = [] then e else tput (qs ''RCLONE_PASS'') password e
      else e)"

text \<open>
  The object: its child, whether that is running, its last error, the \<open>stopping\<close> flag and the
  signals emitted. A stop signal to the child and the kill after two seconds act on the child
  only.
\<close>

datatype server_signal = Started | Stopped | Failed string

record server =
  w_backend :: bridge_options
  w_child :: "child option"
  w_running :: bool
  w_error :: string
  w_stopping :: bool
  w_signals :: "server_signal list"

definition new_server :: "bridge_options \<Rightarrow> server" where
  "new_server b = \<lparr>w_backend = b, w_child = None, w_running = False, w_error = '''',
     w_stopping = False, w_signals = []\<rparr>"

definition server_start :: "bool \<Rightarrow> lib \<Rightarrow> files \<Rightarrow> server_options \<Rightarrow> server \<Rightarrow> bool \<times> server" where
  "server_start windows L F v st =
     (let b = w_backend st; e = validate_server windows L F b v in
      if w_child st \<noteq> None then (False, st\<lparr>w_error := ''already_running''\<rparr>)
      else if e \<noteq> '''' then (False, st\<lparr>w_error := e\<rparr>)
      else (True, st\<lparr>w_error := '''', w_stopping := False, w_running := False, w_child := Some \<lparr>
          d_program = (if python_ftp (server_spec (v_protocol v)) then o_python b else executable F b),
          d_arguments = server_arguments F b v, d_environment = server_environment L F b v,
          d_directory = o_runtime b\<rparr>\<rparr>))"

definition server_started :: "server \<Rightarrow> server" where
  "server_started st = st\<lparr>w_running := True, w_signals := w_signals st @ [Started]\<rparr>"

definition server_finished :: "server \<Rightarrow> server" where
  "server_finished st =
     (let st = st\<lparr>w_child := None, w_running := False\<rparr>;
          st = (if w_stopping st then st
            else st\<lparr>w_error := ''server_exited'', w_signals := w_signals st @ [Failed ''server_exited'']\<rparr>)
      in st\<lparr>w_signals := w_signals st @ [Stopped]\<rparr>)"

definition server_failed_to_start :: "server \<Rightarrow> server" where
  "server_failed_to_start st = st\<lparr>w_error := ''backend_start_failed'', w_child := None,
     w_signals := w_signals st @ [Failed ''backend_start_failed'', Stopped]\<rparr>"

definition server_stop :: "server \<Rightarrow> server" where
  "server_stop st = (if w_child st = None then st else st\<lparr>w_stopping := True\<rparr>)"

definition is_running :: "server \<Rightarrow> bool" where
  "is_running st \<longleftrightarrow> w_child st \<noteq> None \<and> w_running st"

text \<open>
  A child reports either that it started and later that it finished, or that it failed to
  start.
\<close>

inductive server_event :: "bool \<Rightarrow> lib \<Rightarrow> files \<Rightarrow> server \<Rightarrow> server \<Rightarrow> bool" for windows L F where
  sv_start: "server_event windows L F st (snd (server_start windows L F v st))"
| sv_started: "w_child st \<noteq> None \<Longrightarrow> \<not> w_running st \<Longrightarrow> server_event windows L F st (server_started st)"
| sv_finished: "w_child st \<noteq> None \<Longrightarrow> w_running st \<Longrightarrow> server_event windows L F st (server_finished st)"
| sv_failed: "w_child st \<noteq> None \<Longrightarrow> \<not> w_running st \<Longrightarrow> server_event windows L F st (server_failed_to_start st)"
| sv_stop: "server_event windows L F st (server_stop st)"

inductive server_run :: "bool \<Rightarrow> lib \<Rightarrow> files \<Rightarrow> bridge_options \<Rightarrow> server \<Rightarrow> bool" for windows L F b where
  sr_new: "server_run windows L F b (new_server b)"
| sr_step: "server_run windows L F b st \<Longrightarrow> server_event windows L F st st' \<Longrightarrow> server_run windows L F b st'"

text \<open>The end of the object: it hears its child no more and kills it, so it tells nothing.\<close>

definition server_destroy :: "server \<Rightarrow> server" where
  "server_destroy st = st\<lparr>w_child := None, w_running := False\<rparr>"

section \<open>The child and its parent\<close>

text \<open>
  \<open>bindChildLifetime\<close>: whether the slot of \<open>started\<close> kills the child. On Windows it does unless a job object
  was created and told to kill its processes when it is closed, and the child could be opened and
  was put into it; elsewhere there is no such slot.
\<close>

definition kills_started_child :: "bool \<Rightarrow> bool \<Rightarrow> bool \<Rightarrow> bool \<Rightarrow> bool \<Rightarrow> bool" where
  "kills_started_child windows created limited opened assigned \<longleftrightarrow>
     windows \<and> (let configured = created \<and> limited in \<not> (configured \<and> opened \<and> assigned))"

section \<open>A build without child processes\<close>

text \<open>Operations are refused by a zero timer; \<open>pending\<close> are the identifiers it will report.\<close>

definition disabled_start :: "qstring \<Rightarrow> qstring list \<Rightarrow> qstring \<times> qstring list" where
  "disabled_start uid pending = (uid, pending @ [uid])"

definition disabled_fires :: "qstring list \<Rightarrow> (qstring \<times> storage_result) option \<times> qstring list" where
  "disabled_fires pending =
     (case pending of
        [] \<Rightarrow> (None, [])
      | uid # rest \<Rightarrow> (Some (uid, no_storage_result\<lparr>z_error := ''external_backend_disabled''\<rparr>), rest))"

definition disabled_serve :: "server_options \<Rightarrow> bool \<times> string" where
  "disabled_serve v = (False, ''external_backend_disabled'')"

end
