(* ===== verification/StorageProperties.thy ===== *)
theory StorageProperties
  imports StorageBridge
begin

text \<open>
  What \<open>src/StorageBridge.cpp\<close> promises: the jobs complete exactly once, a child gets no
  argument that could be an option of the caller's making and no ambient environment, an
  accepted server is authenticated and protected, and its signals follow the life of its
  child.
\<close>

section \<open>Jobs\<close>

definition storage_held :: "bridge \<Rightarrow> qstring list" where
  "storage_held st = tkeys (b_jobs st) @ map fst (b_deferred st)"

lemma with_job_keys [simp]:
  "tkeys (b_jobs (with_job k f st)) = tkeys (b_jobs st)"
  "b_deferred (with_job k f st) = b_deferred st" "b_emitted (with_job k f st) = b_emitted st"
  "has_key (b_jobs (with_job k f st)) k' = has_key (b_jobs st) k'"
  by (auto simp: with_job_def tkeys_tput has_key_def split: option.split)

lemma storage_held_with_job [simp]: "storage_held (with_job k f st) = storage_held st"
  by (simp add: storage_held_def)

lemma storage_finish_present:
  assumes "has_key (b_jobs st) k"
  shows "b_jobs (storage_finish L k code normal st) = tdel k (b_jobs st)"
    "b_deferred (storage_finish L k code normal st) = b_deferred st"
    "map fst (b_emitted (storage_finish L k code normal st)) = map fst (b_emitted st) @ [k]"
  using assms by (auto simp: storage_finish_def has_key_def)

lemma storage_finish_held:
  "has_key (b_jobs st) k \<Longrightarrow> distinct (storage_held st) \<Longrightarrow>
     add_mset k (mset (storage_held (storage_finish L k code normal st))) = mset (storage_held st)"
  using mset_tkeys_tdel [of "b_jobs st" k] by (simp add: storage_held_def storage_finish_present)

lemmas storage_ops = storage_output_def storage_timeout_def storage_cancel_def storage_failed_to_start_def

lemma storage_conserves:
  assumes "storage_event L F st new fin st'" "distinct (storage_held st)"
    "set new \<inter> set (storage_held st) = {}"
  shows "mset fin + mset (storage_held st') = mset new + mset (storage_held st)"
  using assms
proof (induction rule: storage_event.induct)
  case (st_start st k r)
  then show ?case by (auto simp: storage_start_def storage_held_def Let_def tkeys_tput in_tkeys)
next
  case (st_failed st k)
  then show ?case
    using storage_finish_held [of "with_job k (\<lambda>j. j\<lparr>j_failure := ''backend_start_failed''\<rparr>) st" k]
    by (simp add: storage_ops)
qed (auto simp: storage_finish_held storage_deferred_def storage_held_def [of "_\<lparr>b_deferred := _, b_emitted := _\<rparr>"]
    storage_ops, auto simp: storage_held_def)

lemma jobs_length: "length (b_jobs st) = length (tkeys (b_jobs st))"
  by (simp add: tkeys_def)

lemma storage_limited:
  "storage_event L F st new fin st' \<Longrightarrow> length (tkeys (b_jobs st)) \<le> 4 \<Longrightarrow> length (tkeys (b_jobs st')) \<le> 4"
proof (induction rule: storage_event.induct)
  case (st_start st k r)
  then show ?case
    by (auto simp: storage_start_def storage_error_def Let_def tkeys_tput jobs_length split: if_splits)
qed (auto simp: storage_ops storage_deferred_def storage_finish_present tkeys_tdel
    intro: le_trans [OF length_filter_le])

interpretation storage_jobs: job_service "storage_event L F" "new_bridge b" storage_held
  "\<lambda>st. length (tkeys (b_jobs st))" 4 "\<lambda>issued st. True" "\<lambda>st. 0" for L F b
proof
  show "storage_held (new_bridge b) = []" "length (tkeys (b_jobs (new_bridge b))) = 0"
    by (simp_all add: storage_held_def new_bridge_def tkeys_def)
  fix st st' new fin and issued :: "qstring list"
  assume ev: "storage_event L F st new fin st'"
  show "distinct (storage_held st) \<Longrightarrow> distinct new \<Longrightarrow> set new \<inter> set issued = {} \<Longrightarrow>
      set (storage_held st) \<subseteq> set issued \<Longrightarrow> mset fin + mset (storage_held st') = mset new + mset (storage_held st)"
    using storage_conserves [OF ev] by (meson disjoint_iff subsetD)
  show "length (tkeys (b_jobs st)) \<le> 4 \<Longrightarrow> length (tkeys (b_jobs st')) \<le> 4" using storage_limited [OF ev] .
next
  fix st
  assume "storage_held st \<noteq> []"
  then consider (running) k where "has_key (b_jobs st) k" | (deferred) d ds where "b_deferred st = d # ds"
    using held_key [of "b_jobs st"] by (cases "b_deferred st") (auto simp: storage_held_def)
  then show "\<exists>fin st'. storage_event L F st [] fin st' \<and> (fin \<noteq> [] \<or> (0::nat) < 0)"
    by cases (blast intro: st_finish st_deferred)+
qed simp

lemma storage_emitted:
  "job_run (storage_event L F) (new_bridge b) issued gone st \<Longrightarrow> map fst (b_emitted st) = gone"
proof (induction rule: job_run.induct)
  case (run_step issued gone st new fin st')
  from run_step.hyps(2) run_step.IH show ?case
    by (induction rule: storage_event.induct)
      (auto simp: storage_start_def storage_ops storage_deferred_def Let_def storage_finish_present)
qed (simp add: new_bridge_def)

text \<open>
  Every storage operation completes exactly once: in every run of starts, child output,
  exits, failed starts, timeouts, cancellations and timers, no identifier is reported finished
  twice or while it is held, every issued one is either reported or held, at most four
  children run at a time, and from every such state exits and timers alone can bring every
  held identifier to its one report.
\<close>

theorem storage_complete_once:
  assumes "job_run (storage_event L F) (new_bridge b) issued gone st"
  shows "distinct (map fst (b_emitted st))
    \<and> set (map fst (b_emitted st)) \<inter> set (storage_held st) = {}
    \<and> set (map fst (b_emitted st)) \<union> set (storage_held st) = set issued
    \<and> length (b_jobs st) \<le> 4
    \<and> (\<exists>rest st'. job_run (storage_event L F) (new_bridge b) issued (gone @ rest) st'
         \<and> storage_held st' = [] \<and> set (map fst (b_emitted st')) = set issued)"
proof -
  obtain rest st' where run: "job_run (storage_event L F) (new_bridge b) issued (gone @ rest) st'"
    and held: "storage_held st' = []" using storage_jobs.can_drain [OF assms] by blast
  then have "set (map fst (b_emitted st')) = set issued"
    using storage_jobs.completes_once [OF run] by (simp add: storage_emitted [OF run])
  then show ?thesis
    using storage_jobs.completes_once [OF assms] storage_jobs.accounting [OF assms] run held
    by (auto simp: storage_emitted [OF assms] jobs_length)
qed

section \<open>Children\<close>

definition child_variables :: "qstring list" where
  "child_variables = map qs [''PATH'', ''SystemRoot'', ''WINDIR'', ''LANG'', ''LC_ALL'', ''TMPDIR'', ''TMP'',
     ''TEMP'', ''USERPROFILE'', ''HOME'', ''PYTHONNOUSERSITE'', ''RCLONE_CONFIG_PASS'']"

lemma inherited_keys: "set (tkeys (inherited F k e)) \<subseteq> insert (qs k) (set (tkeys e))"
  by (auto simp: inherited_def tkeys_tput split: option.split)

lemma fold_inherited_keys:
  "set (tkeys (fold (inherited F) ks e)) \<subseteq> qs ` set ks \<union> set (tkeys e)"
  by (induction ks arbitrary: e) (use inherited_keys in fastforce)+

lemma environment_keys: "set (tkeys (environment L F b)) \<subseteq> set child_variables"
  using fold_inherited_keys [of F "[''PATH'', ''SystemRoot'', ''WINDIR'', ''LANG'', ''LC_ALL'']" "[]"]
  by (auto simp: environment_def Let_def tkeys_tput child_variables_def tkeys_def [of "[]"] split: if_splits)

lemma location_no_option:
  assumes "validate_location F p b = ''''" "\<forall>p. fi_absolute F p \<longrightarrow> take 1 p \<noteq> qs ''-''"
  shows "take 1 p \<noteq> qs ''-''"
proof (cases "remote_location F p")
  case False
  then show ?thesis using assms(2) by (simp add: remote_location_def)
next
  case True
  then have "named_remote p" using assms(1) by (auto simp: validate_location_def split: if_splits)
  then show ?thesis
    by (auto simp: named_remote_def qs_def is_alnum_def is_digit_def split: list.splits)
qed

lemma storage_error_accepts:
  assumes "storage_error F b r n = ''''"
  shows "validate_backend F b True = ''''" "s_operation r \<noteq> OtherStorage" "n < 4" "0 < s_timeout r"
    "s_operation r \<noteq> Providers \<Longrightarrow> validate_location F (s_source r) b = ''''"
    "copies (s_operation r) \<or> s_operation r = CheckPaths \<Longrightarrow> validate_location F (s_destination r) b = ''''"
  using assms by (auto simp: storage_error_def Let_def split: if_splits)

text \<open>
  A storage child runs with what the code chose and nothing else: when an operation is
  accepted, the only arguments that start with a dash are the fixed options of the operation,
  so no location is taken for an option; an existing file is protected by
  \<^verbatim>\<open>--ignore-existing\<close> unless overwriting was asked for; of the environment the child sees at
  most five harmless system variables and the ones set here, its home and temporary
  directories are the private runtime directory, and at most three other children are running.
  Used of Qt: an absolute path does not start with a dash.
\<close>

theorem storage_child_confined:
  assumes "storage_error F b r n = ''''" and "\<forall>p. fi_absolute F p \<longrightarrow> take 1 p \<noteq> qs ''-''"
  shows "set (filter (\<lambda>a. take 1 a = qs ''-'') (storage_arguments r))
      \<subseteq> set (map qs [''--stat'', ''--download'', ''--ignore-existing'', ''--checksum'', ''--local-no-set-modtime''])
    \<and> (copies (s_operation r) \<and> \<not> s_overwrite r \<longrightarrow> qs ''--ignore-existing'' \<in> set (storage_arguments r))
    \<and> set (tkeys (environment L F b)) \<subseteq> set child_variables
    \<and> tget (environment L F b) (qs ''HOME'') = Some (o_runtime b)
    \<and> tget (environment L F b) (qs ''TMPDIR'') = Some (o_runtime b)
    \<and> private_path F (o_runtime b) True \<and> n < 4"
proof -
  note ok = storage_error_accepts [OF assms(1)]
  have source: "s_operation r \<noteq> Providers \<Longrightarrow> take 1 (s_source r) \<noteq> qs ''-''"
    and destination: "copies (s_operation r) \<or> s_operation r = CheckPaths \<Longrightarrow> take 1 (s_destination r) \<noteq> qs ''-''"
    using ok(5,6) assms(2) by (auto intro: location_no_option [THEN notE])
  have "set (filter (\<lambda>a. take 1 a = qs ''-'') (storage_arguments r))
      \<subseteq> set (map qs [''--stat'', ''--download'', ''--ignore-existing'', ''--checksum'', ''--local-no-set-modtime''])"
    using source destination ok(2)
    by (cases "s_operation r") (auto simp: storage_arguments_def operation_arguments_def copies_def qs_def split: if_splits)
  moreover have "tget (environment L F b) (qs ''HOME'') = Some (o_runtime b)"
    "tget (environment L F b) (qs ''TMPDIR'') = Some (o_runtime b)"
    by (simp_all add: environment_def Let_def)
  moreover have "private_path F (o_runtime b) True"
    using ok(1) by (auto simp: validate_backend_def split: if_splits)
  ultimately show ?thesis using environment_keys ok(3) by (simp add: storage_arguments_def)
qed

section \<open>Servers\<close>

lemma first_error_accepts: "first_error es = '''' \<longleftrightarrow> list_all (\<lambda>e. e = '''') es"
  by (induction es) (auto simp: first_error_def)

lemma validate_server_accepts:
  assumes "validate_server windows L F b v = ''''"
  shows "validate_backend F b (\<not> python_ftp (server_spec (v_protocol v))) = ''''"
    "validate_location F (v_root v) b = ''''" "validate_root F b v = ''''"
    "validate_access (server_spec (v_protocol v)) v = ''''"
    "validate_identity F (server_spec (v_protocol v)) v = ''''"
    "validate_ftp L F b (server_spec (v_protocol v)) v = ''''"
  using assms by (auto simp: validate_server_def Let_def first_error_accepts split: if_splits)

text \<open>A clean path lies beneath a directory when it is it or continues it with a separator.\<close>

definition beneath :: "qstring \<Rightarrow> qstring \<Rightarrow> bool" where
  "beneath p rt \<longleftrightarrow> p = rt \<or> (let d = (if rt \<noteq> [] \<and> last rt = unit_of CHR ''/'' then butlast rt else rt) in
     take (length d + 1) p = d @ qs ''/'')"

lemma inside_beneath:
  "rt \<noteq> [] \<Longrightarrow> last rt \<noteq> unit_of CHR ''/'' \<Longrightarrow> inside F p rt \<longleftrightarrow> beneath (fi_clean F p) rt"
  by (simp add: inside_def beneath_def Let_def)


section \<open>The life of a server\<close>

text \<open>
  What a user of the signals may rely on, as an automaton: a child either starts and stops, or
  fails to start; a failure is followed by the stop it announces; there is one child at a time.
\<close>

datatype phase = Idle | Up | Down

fun advance :: "phase \<Rightarrow> server_signal \<Rightarrow> phase option" where
  "advance Idle Started = Some Up"
| "advance Idle (Failed e) = Some Down"
| "advance Up (Failed e) = Some Down"
| "advance Up Stopped = Some Idle"
| "advance Down Stopped = Some Idle"
| "advance _ _ = None"

fun follow :: "phase \<Rightarrow> server_signal list \<Rightarrow> phase option" where
  "follow p [] = Some p"
| "follow p (s # ss) = (case advance p s of None \<Rightarrow> None | Some p' \<Rightarrow> follow p' ss)"

lemma follow_append: "follow p (a @ b) = (case follow p a of None \<Rightarrow> None | Some p' \<Rightarrow> follow p' b)"
  by (induction p a rule: follow.induct) (auto split: option.split)

definition server_phase :: "server \<Rightarrow> phase" where
  "server_phase st = (if is_running st then Up else Idle)"

inductive_cases server_eventE: "server_event windows L F st st'"

text \<open>
  C19: The signals of a server refine the life of one child at a time: in every run of the
  calls and of the child's reports, the emitted signals are a path of the automaton that ends
  in the phase the object is in. So every child that started, or failed to start, is followed
  by exactly one stop before the next, and a failure is always followed by its stop.
\<close>

theorem server_signals_refine:
  assumes "server_run windows L F b st"
  shows "follow Idle (w_signals st) = Some (server_phase st) \<and> (w_running st \<longrightarrow> w_child st \<noteq> None)"
  using assms
proof (induction rule: server_run.induct)
  case sr_new
  then show ?case by (simp add: new_server_def server_phase_def is_running_def)
next
  case (sr_step st st')
  from sr_step.hyps(2) show ?case
    by (cases rule: server_event.cases)
      (use sr_step.IH in \<open>auto simp: server_start_def server_started_def server_finished_def
        server_failed_to_start_def server_stop_def server_phase_def is_running_def follow_append Let_def\<close>)
qed

section \<open>Instances\<close>

definition demo_bridge :: bridge_options where
  "demo_bridge = \<lparr>o_executable = [], o_config = [], o_config_password = [], o_runtime = qs ''/run'',
     o_python = [], o_script = []\<rparr>"

definition demo_copy :: storage_request where
  "demo_copy = \<lparr>s_operation = CopyFile, s_source = qs ''/a'', s_destination = qs ''/b'', s_overwrite = False,
     s_timeout = 1000\<rparr>"

definition demo_address :: address where
  "demo_address = \<lparr>addr_family = Ipv4, addr_bytes = [10, 0, 0, 1], addr_loopback = False,
     addr_multicast = False, addr_unspecified = False, addr_text = qs ''10.0.0.1''\<rparr>"

definition demo_server :: "string \<Rightarrow> server_options" where
  "demo_server rt = \<lparr>v_protocol = WebDavs, v_root = qs rt, v_address = demo_address, v_port = 8443,
     v_username = qs ''u'', v_password = bs ''p'', v_certificate = qs ''/cert'', v_private_key = qs ''/key'',
     v_authorized_keys = [], v_read_only = True, v_allow_cleartext = False,
     v_passive_ports = qs ''30000-32000'', v_public_address = []\<rparr>"

lemma demo_absolute: "\<forall>p. fi_absolute demo_host p \<longrightarrow> take 1 p \<noteq> qs ''-''"
  by (simp add: demo_host_def)

text \<open>Example: copying a file without overwriting.\<close>

theorem storage_child_confined_witness:
  "storage_error demo_host demo_bridge demo_copy 0 = ''''
   \<and> qs ''--ignore-existing'' \<in> set (storage_arguments demo_copy)
   \<and> set (tkeys (environment demo_lib demo_host demo_bridge)) \<subseteq> set child_variables
   \<and> private_path demo_host (o_runtime demo_bridge) True"
proof -
  have ok: "storage_error demo_host demo_bridge demo_copy 0 = ''''" by code_simp
  have "copies (s_operation demo_copy)" "\<not> s_overwrite demo_copy" by (simp_all add: demo_copy_def copies_def)
  then show ?thesis using storage_child_confined [OF ok demo_absolute] ok by blast
qed

definition demo_storage :: bridge where
  "demo_storage = storage_start demo_lib demo_host (qs ''j'') demo_copy (new_bridge demo_bridge)"

lemma demo_storage_run:
  "job_run (storage_event demo_lib demo_host) (new_bridge demo_bridge) [qs ''j''] [] demo_storage"
proof -
  have ev: "storage_event demo_lib demo_host (new_bridge demo_bridge) [qs ''j''] [] demo_storage"
    unfolding demo_storage_def by (rule st_start)
  have "job_run (storage_event demo_lib demo_host) (new_bridge demo_bridge) [] [] (new_bridge demo_bridge)"
    by (rule run_start)
  from run_step [OF this ev] show ?thesis by simp
qed

text \<open>Example: one operation was started.\<close>

theorem storage_complete_once_witness:
  "set (map fst (b_emitted demo_storage)) \<union> set (storage_held demo_storage) = {qs ''j''}
   \<and> distinct (map fst (b_emitted demo_storage)) \<and> length (b_jobs demo_storage) \<le> 4"
  using storage_complete_once [OF demo_storage_run] by simp



definition demo_serving :: server where
  "demo_serving = server_started (snd (server_start False demo_lib demo_host (demo_server ''/data'') (new_server demo_bridge)))"

text \<open>Example: a server that runs.\<close>

theorem server_signals_refine_witness:
  "follow Idle (w_signals demo_serving) = Some (server_phase demo_serving) \<and> server_phase demo_serving = Up"
proof -
  let ?st = "snd (server_start False demo_lib demo_host (demo_server ''/data'') (new_server demo_bridge))"
  have "server_run False demo_lib demo_host demo_bridge ?st" by (rule sr_step [OF sr_new sv_start])
  moreover have "w_child ?st \<noteq> None" "\<not> w_running ?st" by code_simp+
  ultimately have "server_run False demo_lib demo_host demo_bridge demo_serving"
    unfolding demo_serving_def by (blast intro: sr_step sv_started)
  moreover have "server_phase demo_serving = Up" by code_simp
  ultimately show ?thesis using server_signals_refine by blast
qed

end
