(* ===== verification/Tools.thy ===== *)
theory Tools
  imports FileTransferProperties StorageProperties
begin

text \<open>
  The command line programs of \<open>src/tools\<close> up to the point where they hand over to the library:
  the private configuration file of \<open>JsonConfig.h\<close>, the settings \<^verbatim>\<open>ii-file-transfer\<close> and
  \<^verbatim>\<open>ii-storage\<close> take from it, and the options of \<^verbatim>\<open>ii-http-server\<close>. A failure is the text
  the program prints, if it prints one.
\<close>

section \<open>The configuration file\<close>

text \<open>
  \<open>len\<close> is the length \<open>QFileInfo\<close> reports and \<open>contents\<close> what an opened file holds, at most a byte
  more than the limit is read. The permissions are looked at on Unix.
\<close>

definition config_limit :: int where
  "config_limit = 64 * 1024"

definition read_private_object ::
  "bool \<Rightarrow> lib \<Rightarrow> files \<Rightarrow> (qstring \<Rightarrow> int) \<Rightarrow> (qstring \<Rightarrow> bytes option) \<Rightarrow> qstring \<Rightarrow> string + jobject" where
  "read_private_object windows L F len contents path =
     (if \<not> fi_file F path \<or> fi_symlink F path \<or> len path > config_limit then Inl ''invalid_config_file''
      else if \<not> windows \<and> fi_others F path then Inl ''private_config_required''
      else case contents path of
          None \<Rightarrow> Inl ''config_read_failed''
        | Some b \<Rightarrow>
            let data = take (nat (config_limit + 1)) b in
            case (int (length data) > config_limit, json_parse L data) of
              (False, Some (JObj ob)) \<Rightarrow> Inr ob
            | _ \<Rightarrow> Inl ''invalid_config_json'')"

section \<open>The transfer program\<close>

definition transfer_operation_of :: "qstring \<Rightarrow> transfer_operation option" where
  "transfer_operation_of s =
     (if s = qs ''download'' then Some Download else if s = qs ''upload'' then Some Upload
      else if s = qs ''list'' then Some ListFiles else None)"

definition transfer_settings :: "lib \<Rightarrow> jobject \<Rightarrow> string + transfer_request" where
  "transfer_settings L ob =
     (let text = (\<lambda>k. to_string (jval ob k)) in
      case transfer_operation_of (text ''operation'') of
        None \<Rightarrow> Inl ''unsupported_operation''
      | Some operation \<Rightarrow>
          case (if contains ob ''maximumBytes'' then to_longlong L (text ''maximumBytes'') else Some 0) of
            None \<Rightarrow> Inl ''invalid_maximum_bytes''
          | Some maximum \<Rightarrow> Inr \<lparr>r_url = parse_url_strict L (text ''url''), r_operation = operation,
              r_local_path = text ''localPath'', r_username = text ''username'', r_password = utf8 L (text ''password''),
              r_bearer_token = utf8 L (text ''bearerToken''), r_ca_file = text ''caFile'',
              r_client_certificate = text ''clientCertificate'', r_client_key = text ''clientKey'',
              r_ssh_known_hosts = text ''sshKnownHosts'', r_ssh_private_key = text ''sshPrivateKey'',
              r_ssh_public_key = text ''sshPublicKey'', r_key_password = utf8 L (text ''keyPassword''),
              r_aws_sigv4 = text ''awsSigV4'', r_http_version = text ''httpVersion'',
              r_allow_cleartext = bool_or False (jval ob ''allowCleartext''), r_maximum_bytes = maximum,
              r_expected_sha256 = to_latin1 (text ''expectedSha256''),
              r_connect_timeout = int_or 10000 (jval ob ''connectTimeoutMs''), r_timeout = int_or 300000 (jval ob ''timeoutMs'')\<rparr>)"

text \<open>The one transfer the program starts.\<close>

definition tool_transfer ::
  "bool \<Rightarrow> lib \<Rightarrow> curl \<Rightarrow> files \<Rightarrow> (qstring \<Rightarrow> int) \<Rightarrow> (qstring \<Rightarrow> bytes option) \<Rightarrow> qstring \<Rightarrow> qstring \<Rightarrow> string + transfers" where
  "tool_transfer windows L C F len contents path uid =
     (case read_private_object windows L F len contents path of
        Inl e \<Rightarrow> Inl e
      | Inr ob \<Rightarrow>
          case transfer_settings L ob of
            Inl e \<Rightarrow> Inl e
          | Inr r \<Rightarrow> Inr (transfer_start L C F uid r new_transfers))"

section \<open>The storage program\<close>

definition backend_settings :: "lib \<Rightarrow> jobject \<Rightarrow> bridge_options" where
  "backend_settings L b =
     (let text = (\<lambda>k. to_string (jval b k)) in
      \<lparr>o_executable = text ''executable'', o_config = text ''configFile'', o_config_password = utf8 L (text ''configPassword''),
       o_runtime = text ''runtimeDirectory'', o_python = text ''ftpPythonExecutable'', o_script = text ''ftpServerScript''\<rparr>)"

definition server_protocols :: "(string \<times> server_protocol) list" where
  "server_protocols = [(''http'', Http), (''https'', Https), (''webdav'', WebDav), (''webdavs'', WebDavs), (''ftp'', Ftp),
     (''ftps'', Ftps), (''sftp'', Sftp), (''s3'', S3), (''ftpes'', FtpES), (''s3s'', S3Tls), (''restic'', Restic),
     (''restics'', ResticTls), (''nfs'', Nfs)]"

definition server_protocol_of :: "qstring \<Rightarrow> server_protocol option" where
  "server_protocol_of s = map_of (map (\<lambda>(k, p). (qs k, p)) server_protocols) s"

text \<open>An address that cannot be read ends the program without a text.\<close>

definition server_settings :: "lib \<Rightarrow> jobject \<Rightarrow> string option + server_options" where
  "server_settings L ob =
     (let text = (\<lambda>k. to_string (jval ob k)); port = int_or 0 (jval ob ''port'') in
      case server_protocol_of (text ''protocol'') of
        None \<Rightarrow> Inl (Some ''unsupported_protocol'')
      | Some p \<Rightarrow>
          case parse_address L (string_or (qs ''127.0.0.1'') (jval ob ''address'')) of
            None \<Rightarrow> Inl None
          | Some a \<Rightarrow>
              if port < 1 \<or> port > 65535 then Inl (Some ''invalid_port'')
              else Inr \<lparr>v_protocol = p, v_root = text ''root'', v_address = a, v_port = word_of_int port,
                v_username = text ''username'', v_password = utf8 L (text ''password''),
                v_certificate = text ''certificate'', v_private_key = text ''privateKey'',
                v_authorized_keys = text ''authorizedKeys'', v_read_only = bool_or True (jval ob ''readOnly''),
                v_allow_cleartext = bool_or False (jval ob ''allowCleartext''),
                v_passive_ports = string_or (qs ''30000-32000'') (jval ob ''passivePorts''),
                v_public_address = text ''publicAddress''\<rparr>)"

definition storage_operations :: "(string \<times> storage_operation) list" where
  "storage_operations = [(''providers'', Providers), (''list'', ListPath), (''stat'', StatPath), (''copy-file'', CopyFile),
     (''copy-directory'', CopyDirectory), (''mkdir'', MakeDirectory), (''remove-file'', RemoveFile), (''check'', CheckPaths)]"

definition storage_settings :: "jobject \<Rightarrow> string + storage_request" where
  "storage_settings ob =
     (case map_of (map (\<lambda>(k, p). (qs k, p)) storage_operations) (to_string (jval ob ''operation'')) of
        None \<Rightarrow> Inl ''unsupported_operation''
      | Some operation \<Rightarrow> Inr \<lparr>s_operation = operation, s_source = to_string (jval ob ''source''),
          s_destination = to_string (jval ob ''destination''), s_overwrite = bool_or False (jval ob ''overwrite''),
          s_timeout = int_or 300000 (jval ob ''timeoutMs'')\<rparr>)"

text \<open>The program with \<^verbatim>\<open>--serve\<close>, and without: its server or its one operation.\<close>

definition tool_serve ::
  "bool \<Rightarrow> lib \<Rightarrow> files \<Rightarrow> (qstring \<Rightarrow> int) \<Rightarrow> (qstring \<Rightarrow> bytes option) \<Rightarrow> qstring \<Rightarrow> string option + server" where
  "tool_serve windows L F len contents path =
     (case read_private_object windows L F len contents path of
        Inl e \<Rightarrow> Inl (Some e)
      | Inr config \<Rightarrow>
          case server_settings L (to_object (jval config ''server'')) of
            Inl e \<Rightarrow> Inl e
          | Inr v \<Rightarrow>
              case server_start windows L F v (new_server (backend_settings L (to_object (jval config ''backend'')))) of
                (ok, st) \<Rightarrow> if ok then Inr st else Inl (Some (w_error st)))"

definition tool_store ::
  "bool \<Rightarrow> lib \<Rightarrow> files \<Rightarrow> (qstring \<Rightarrow> int) \<Rightarrow> (qstring \<Rightarrow> bytes option) \<Rightarrow> qstring \<Rightarrow> qstring \<Rightarrow> string + bridge" where
  "tool_store windows L F len contents path uid =
     (case read_private_object windows L F len contents path of
        Inl e \<Rightarrow> Inl e
      | Inr config \<Rightarrow>
          case storage_settings (to_object (jval config ''request'')) of
            Inl e \<Rightarrow> Inl e
          | Inr r \<Rightarrow> Inr (storage_start L F uid r (new_bridge (backend_settings L (to_object (jval config ''backend''))))))"

section \<open>The HTTP program\<close>

text \<open>The digits \<open>std::from_chars\<close> reads; all of them must be read and the number be in range.\<close>

fun decimal :: "nat \<Rightarrow> string \<Rightarrow> nat option" where
  "decimal n [] = Some n"
| "decimal n (c # cs) =
     (if 48 \<le> (of_char c :: nat) \<and> (of_char c :: nat) \<le> 57 then decimal (n * 10 + (of_char c - 48)) cs else None)"

definition number_option :: "string \<Rightarrow> nat \<Rightarrow> nat option" where
  "number_option value maximum =
     (if value = [] then None
      else case decimal 0 value of None \<Rightarrow> None | Some n \<Rightarrow> if n > maximum then None else Some n)"

record http_options =
  p_address :: string
  p_port :: nat
  p_grace :: nat
  p_body :: "nat option" \<comment> \<open>\<open>None\<close>: the limit of the library\<close>
  p_timeout :: "nat option"

definition default_http :: http_options where
  "default_http = \<lparr>p_address = ''127.0.0.1'', p_port = 8080, p_grace = 5000, p_body = None, p_timeout = None\<rparr>"

definition http_option :: "string \<Rightarrow> string \<Rightarrow> http_options \<Rightarrow> http_options option" where
  "http_option option value p =
     (if option = ''--address'' then Some (p\<lparr>p_address := value\<rparr>)
      else if option = ''--port'' then map_option (\<lambda>n. p\<lparr>p_port := n\<rparr>) (number_option value 65535)
      else if option = ''--grace-ms'' then map_option (\<lambda>n. p\<lparr>p_grace := n\<rparr>) (number_option value 60000)
      else if option = ''--max-body-bytes''
      then map_option (\<lambda>n. p\<lparr>p_body := Some n\<rparr>) (number_option value (512 * 1024 * 1024))
      else if option = ''--request-timeout-ms'' then map_option (\<lambda>n. p\<lparr>p_timeout := Some n\<rparr>) (number_option value 60000)
      else None)"

text \<open>\<open>Inl True\<close> prints the usage and succeeds, \<open>Inl False\<close> is an error.\<close>

fun http_arguments :: "string list \<Rightarrow> http_options \<Rightarrow> bool + http_options" where
  "http_arguments [] p = Inr p"
| "http_arguments (option # rest) p =
     (if option = ''--help'' then Inl True
      else case rest of
          [] \<Rightarrow> Inl False
        | value # rest' \<Rightarrow> (case http_option option value p of None \<Rightarrow> Inl False | Some p' \<Rightarrow> http_arguments rest' p'))"

text \<open>
  The monitor of \<^verbatim>\<open>ii-http-server\<close>, every 25 ms: a first signal asks the server to shut down, and the loop
  ends when nothing is draining any more. \<open>accepted\<close> is whether \<open>shutdown\<close> succeeds; if not, the
  exception ends the program.
\<close>

record http_monitor =
  hm_stopping :: bool
  hm_shutdowns :: nat
  hm_ended :: bool
  hm_failed :: bool

definition http_tick :: "bool \<Rightarrow> bool \<Rightarrow> bool \<Rightarrow> http_monitor \<Rightarrow> http_monitor" where
  "http_tick stop_requested accepted draining t =
     (if stop_requested \<and> \<not> hm_stopping t \<and> \<not> accepted
      then t\<lparr>hm_shutdowns := hm_shutdowns t + 1, hm_failed := True, hm_ended := True\<rparr>
      else
        let t = (if stop_requested \<and> \<not> hm_stopping t then t\<lparr>hm_shutdowns := hm_shutdowns t + 1, hm_stopping := True\<rparr> else t)
        in if hm_stopping t \<and> \<not> draining then t\<lparr>hm_ended := True\<rparr> else t)"

text \<open>The ticks until the loop ends.\<close>

fun http_monitor_run :: "(bool \<times> bool \<times> bool) list \<Rightarrow> http_monitor \<Rightarrow> http_monitor" where
  "http_monitor_run [] t = t"
| "http_monitor_run ((q, ok, d) # ts) t = (if hm_ended t then t else http_monitor_run ts (http_tick q ok d t))"

section \<open>What the programs promise\<close>

lemma config_private:
  "read_private_object windows L F len contents path = Inr ob \<Longrightarrow>
    fi_file F path \<and> \<not> fi_symlink F path \<and> (windows \<or> \<not> fi_others F path)"
  by (auto simp: read_private_object_def split: if_splits)

lemma read_only_passed: "v_read_only v \<Longrightarrow> qs ''--read-only'' \<in> set (server_arguments F b v)"
  by (simp add: server_arguments_def python_arguments_def rclone_arguments_def Let_def)

lemma access_protected:
  assumes "validate_server windows L F b v = ''''"
  shows "addr_loopback (v_address v) \<or> v_allow_cleartext v \<or> v_protocol v \<in> {Sftp, Https, WebDavs, Ftps, FtpES, S3Tls, ResticTls}"
  using validate_server_accepts(4) [OF assms]
  by (cases "v_protocol v") (auto simp: validate_access_def server_spec_def split: if_splits)

lemma server_settings_read:
  assumes "server_settings L ob = Inr v"
  shows "v_read_only v = bool_or True (jval ob ''readOnly'')" "v_allow_cleartext v = bool_or False (jval ob ''allowCleartext'')"
    "parse_address L (string_or (qs ''127.0.0.1'') (jval ob ''address'')) = Some (v_address v)"
  using assms by (auto simp: server_settings_def Let_def split: option.splits if_splits)

text \<open>
  C40: What \<^verbatim>\<open>ii-storage --serve\<close> starts is private unless its configuration says otherwise in so
  many words: the configuration is a regular file only its owner can read (on Unix); the child is
  told to serve read-only unless \<^verbatim>\<open>readOnly\<close> is the value false; it listens beyond loopback only
  encrypted unless \<^verbatim>\<open>allowCleartext\<close> is the value true, a text or number counting for nothing; and
  without an address that is a text it listens where the address 127.0.0.1 is.
\<close>

theorem tool_server_protected:
  assumes "tool_serve windows L F len contents path = Inr st"
  shows "\<exists>config v c. read_private_object windows L F len contents path = Inr config
    \<and> server_settings L (to_object (jval config ''server'')) = Inr v
    \<and> w_child st = Some c \<and> d_arguments c = server_arguments F (backend_settings L (to_object (jval config ''backend''))) v
    \<and> fi_file F path \<and> \<not> fi_symlink F path \<and> (windows \<or> \<not> fi_others F path)
    \<and> (jval (to_object (jval config ''server'')) ''readOnly'' = JBool False \<or> qs ''--read-only'' \<in> set (d_arguments c))
    \<and> (jval (to_object (jval config ''server'')) ''allowCleartext'' = JBool True \<or> addr_loopback (v_address v)
        \<or> v_protocol v \<in> {Sftp, Https, WebDavs, Ftps, FtpES, S3Tls, ResticTls})
    \<and> (is_string (jval (to_object (jval config ''server'')) ''address'') \<or> parse_address L (qs ''127.0.0.1'') = Some (v_address v))"
proof -
  obtain config v where c: "read_private_object windows L F len contents path = Inr config"
    and v: "server_settings L (to_object (jval config ''server'')) = Inr v"
    and st: "server_start windows L F v (new_server (backend_settings L (to_object (jval config ''backend'')))) = (True, st)"
    using assms by (auto simp: tool_serve_def split: sum.splits prod.splits if_splits)
  let ?b = "backend_settings L (to_object (jval config ''backend''))" and ?o = "to_object (jval config ''server'')"
  have ok: "validate_server windows L F ?b v = ''''" and child: "\<exists>c. w_child st = Some c \<and> d_arguments c = server_arguments F ?b v"
    using st by (auto simp: server_start_def new_server_def Let_def split: if_splits)
  have ro: "jval ?o ''readOnly'' = JBool False \<or> v_read_only v"
    using server_settings_read(1) [OF v] by (cases "jval ?o ''readOnly''") simp_all
  have clear: "jval ?o ''allowCleartext'' = JBool True \<or> \<not> v_allow_cleartext v"
    using server_settings_read(2) [OF v] by (cases "jval ?o ''allowCleartext''") simp_all
  have addr: "is_string (jval ?o ''address'') \<or> parse_address L (qs ''127.0.0.1'') = Some (v_address v)"
    using server_settings_read(3) [OF v] by (cases "jval ?o ''address''") simp_all
  show ?thesis using c v child config_private [OF c] ro clear addr access_protected [OF ok] read_only_passed by metis
qed

text \<open>
  The transfer program: an accepted request to a host that is not loopback is encrypted unless
  the configuration has the value true for \<^verbatim>\<open>allowCleartext\<close>.
\<close>

lemma transfer_settings_cleartext:
  "transfer_settings L ob = Inr r \<Longrightarrow> jval ob ''allowCleartext'' \<noteq> JBool True \<Longrightarrow> \<not> r_allow_cleartext r"
  by (cases "jval ob ''allowCleartext''") (auto simp: transfer_settings_def Let_def split: option.splits)

lemma tool_transfer_protected:
  assumes "transfer_settings L ob = Inr r" "validate L C F r = ''''" "jval ob ''allowCleartext'' \<noteq> JBool True"
    "\<not> loopback L (url_host (r_url r))" "url_scheme (r_url r) \<noteq> qs ''file''"
  shows "url_scheme (r_url r)
    \<in> set (map qs [''https'', ''webdavs'', ''ftps'', ''ftpes'', ''sftp'', ''scp'', ''smbs'', ''gophers''])"
  by (rule accepted_scheme [OF assms(2) transfer_settings_cleartext [OF assms(1,3)] assms(4,5)])

definition http_in_bounds :: "http_options \<Rightarrow> bool" where
  "http_in_bounds p \<longleftrightarrow> p_port p \<le> 65535 \<and> p_grace p \<le> 60000
     \<and> (case p_body p of None \<Rightarrow> True | Some n \<Rightarrow> n \<le> 536870912) \<and> (case p_timeout p of None \<Rightarrow> True | Some n \<Rightarrow> n \<le> 60000)"

lemma number_option_bound: "number_option value m = Some n \<Longrightarrow> n \<le> m"
  by (auto simp: number_option_def split: option.splits if_splits)

lemma http_option_bounds: "http_option option value p = Some p' \<Longrightarrow> http_in_bounds p \<Longrightarrow> http_in_bounds p'"
  by (auto simp: http_option_def http_in_bounds_def dest: number_option_bound split: if_splits)

text \<open>
  Whatever the arguments of \<^verbatim>\<open>ii-http-server\<close> are, the options it goes on with are within their
  limits: the port fits 16 bits, the grace period and the request timeout are at most a minute,
  a body limit is at most 512 MiB.
\<close>

theorem http_arguments_bounded:
  assumes "http_arguments args default_http = Inr p"
  shows "http_in_bounds p"
proof -
  have "http_arguments as q = Inr p \<Longrightarrow> http_in_bounds q \<Longrightarrow> http_in_bounds p" for as q
    by (induction as q rule: http_arguments.induct) (auto split: if_splits list.splits option.splits dest: http_option_bounds)
  then show ?thesis using assms by (simp add: http_in_bounds_def default_http_def)
qed

text \<open>
  The server is asked to shut down at most once, and the program goes on until a tick finds nothing
  draining: it ends only when it was asked to, and on the first such tick.
\<close>

lemma http_monitor_once:
  assumes "hm_shutdowns t = (if hm_stopping t then 1 else 0)" "\<not> hm_failed t" "\<not> hm_ended t"
  shows "hm_shutdowns (http_monitor_run ts t) \<le> 1"
    "hm_ended (http_monitor_run ts t) \<Longrightarrow> hm_stopping t \<or> (\<exists>(q, ok, d)\<in>set ts. q)"
proof -
  have "hm_shutdowns (http_monitor_run ts t) \<le> 1 \<and> (hm_ended (http_monitor_run ts t) \<longrightarrow> hm_stopping t \<or> (\<exists>(q, ok, d)\<in>set ts. q))"
    using assms
  proof (induction ts t rule: http_monitor_run.induct)
    case (2 q ok d ts t)
    let ?t = "http_tick q ok d t"
    show ?case
    proof (cases "hm_ended ?t")
      case True
      then have "http_monitor_run ts ?t = ?t" by (cases ts) auto
      then show ?thesis using 2 True by (auto simp: http_tick_def Let_def split: if_splits)
    next
      case False
      then have "hm_shutdowns ?t = (if hm_stopping ?t then 1 else 0)" "\<not> hm_failed ?t" "hm_stopping ?t \<Longrightarrow> hm_stopping t \<or> q"
        using 2(2-4) by (auto simp: http_tick_def Let_def split: if_splits)
      then show ?thesis using 2 False by auto
    qed
  qed simp
  then show "hm_shutdowns (http_monitor_run ts t) \<le> 1"
    "hm_ended (http_monitor_run ts t) \<Longrightarrow> hm_stopping t \<or> (\<exists>(q, ok, d)\<in>set ts. q)" by blast+
qed

section \<open>Example\<close>

definition demo_tool_config :: jobject where
  "demo_tool_config = jobj [(''backend'', JObj (jobj [(''runtimeDirectory'', jtext ''/run'')])),
     (''server'', JObj (jobj [(''protocol'', jtext ''webdavs''), (''root'', jtext ''/data''), (''port'', JNum 8443),
       (''username'', jtext ''u''), (''password'', jtext ''p''), (''certificate'', jtext ''/cert''),
       (''privateKey'', jtext ''/key''), (''allowCleartext'', jtext ''true'')]))]"

definition demo_tool_lib :: lib where
  "demo_tool_lib = demo_lib\<lparr>json_parse := (\<lambda>b. Some (JObj demo_tool_config)), parse_address := (\<lambda>t. Some demo_address)\<rparr>"

definition demo_tool :: "string option + server" where
  "demo_tool = tool_serve False demo_tool_lib demo_host (\<lambda>p. 2) (\<lambda>p. Some [123, 125]) (qs ''/c.json'')"

text \<open>Example: a WebDAV server over TLS; the text in place of a boolean permits nothing.\<close>

theorem tool_server_protected_witness:
  "\<exists>st c. demo_tool = Inr st \<and> w_child st = Some c \<and> qs ''--read-only'' \<in> set (d_arguments c)"
proof -
  have read: "read_private_object False demo_tool_lib demo_host (\<lambda>p. 2) (\<lambda>p. Some [123, 125]) (qs ''/c.json'') = Inr demo_tool_config"
    by (simp add: read_private_object_def demo_host_def config_limit_def demo_tool_lib_def)
  have "(case server_settings demo_tool_lib (to_object (jval demo_tool_config ''server'')) of Inl e \<Rightarrow> False
      | Inr v \<Rightarrow> fst (server_start False demo_tool_lib demo_host v
          (new_server (backend_settings demo_tool_lib (to_object (jval demo_tool_config ''backend''))))))" by code_simp
  then obtain st where st: "demo_tool = Inr st"
    by (auto simp: demo_tool_def tool_serve_def read case_prod_unfold split: sum.splits)
  have "jval (to_object (jval demo_tool_config ''server'')) ''readOnly'' \<noteq> JBool False" by code_simp
  then show ?thesis using tool_server_protected [OF st [unfolded demo_tool_def]] st read by auto
qed

end
