(* ===== verification/HttpApp.thy ===== *)
theory HttpApp
  imports Jobs
begin

text \<open>
  \<open>src/HttpServer.cpp\<close>: the application layer over the HTTP server and router of iiNetwork, which
  are parameters: what the server reports of itself, how a router takes a route and answers a
  request. A middleware gets the request, the rest of the chain and the state \<open>'s\<close> of the
  application, and may call the rest any number of times, with any request.
\<close>

type_synonym ('q, 'p, 's) responder = "'q \<Rightarrow> 's \<Rightarrow> 'p \<times> 's"
type_synonym ('q, 'p, 's) stage = "'q \<Rightarrow> ('q, 'p, 's) responder \<Rightarrow> 's \<Rightarrow> 'p \<times> 's"

text \<open>What the server of iiNetwork reports when it is asked.\<close>

record server_view =
  v_listening :: bool
  v_draining :: bool
  v_connections :: nat

text \<open>The errors of configuration calls; \<open>Refused\<close> is an error of the router.\<close>

datatype 'e config_error = InvalidState string | InvalidArgument string | TooLarge string | Refused 'e

record ('m, 'r) http_app =
  h_middleware :: "'m list"
  h_router :: 'r
  h_error :: string

definition http_active :: "server_view \<Rightarrow> bool" where
  "http_active v \<longleftrightarrow> v_listening v \<or> v_draining v \<or> v_connections v \<noteq> 0"

section \<open>Requests\<close>

function dispatch :: "('q, 'p, 's) stage list \<Rightarrow> ('q, 'p, 's) responder \<Rightarrow> nat \<Rightarrow> ('q, 'p, 's) responder" where
  "dispatch ms route index q s =
     (if length ms \<le> index then route q s
      else (ms ! index) q (\<lambda>forwarded t. dispatch ms route (index + 1) forwarded t) s)"
  by pat_completeness auto
termination by (relation "measure (\<lambda>(ms, route, index, q, s). length ms - index)") auto

declare dispatch.simps [simp del]

text \<open>The handler given to the server holds the application weakly; \<open>None\<close> is one that is gone.\<close>

definition handle_http :: "('r \<Rightarrow> ('q, 'p, 's) responder) \<Rightarrow> (nat \<Rightarrow> string \<Rightarrow> 'p) \<Rightarrow> (('q, 'p, 's) stage, 'r) http_app option \<Rightarrow> ('q, 'p, 's) responder" where
  "handle_http route response app q s =
     (case app of None \<Rightarrow> (response 503 ''Application is unavailable'', s)
      | Some a \<Rightarrow> dispatch (h_middleware a) (route (h_router a)) 0 q s)"

section \<open>Configuration\<close>

definition new_app :: "'r \<Rightarrow> ('m, 'r) http_app" where
  "new_app r = \<lparr>h_middleware = [], h_router = r, h_error = ''''\<rparr>"

definition app_route :: "('g \<Rightarrow> 'r \<Rightarrow> 'e option \<times> 'r) \<Rightarrow> server_view \<Rightarrow> 'g \<Rightarrow> ('m, 'r) http_app \<Rightarrow> 'e config_error option \<times> ('m, 'r) http_app" where
  "app_route add v g a =
     (if http_active v then (Some (InvalidState ''Configure routes before listening''), a)
      else case add g (h_router a) of (e, r) \<Rightarrow> (map_option Refused e, a\<lparr>h_router := r\<rparr>))"

text \<open>\<open>None\<close> is an empty \<open>std::function\<close>.\<close>

definition app_use :: "server_view \<Rightarrow> 'm option \<Rightarrow> ('m, 'r) http_app \<Rightarrow> 'e config_error option \<times> ('m, 'r) http_app" where
  "app_use v m a =
     (if http_active v then (Some (InvalidState ''Configure middleware before listening''), a)
      else case m of
          None \<Rightarrow> (Some (InvalidArgument ''Middleware is empty''), a)
        | Some x \<Rightarrow>
            if length (h_middleware a) = 64 then (Some (TooLarge ''Middleware chain exceeds 64 entries''), a)
            else (None, a\<lparr>h_middleware := h_middleware a @ [x]\<rparr>))"

text \<open>\<open>listen\<close> and \<open>listenLocal\<close>; \<open>opened\<close> is the answer of the server if it is asked.\<close>

definition app_listen :: "server_view \<Rightarrow> bool \<Rightarrow> ('m, 'r) http_app \<Rightarrow> bool \<times> ('m, 'r) http_app" where
  "app_listen v opened a =
     (if http_active v then (False, a\<lparr>h_error := ''HTTP server is already active''\<rparr>)
      else (opened, a\<lparr>h_error := ''''\<rparr>))"

definition app_error :: "string \<Rightarrow> ('m, 'r) http_app \<Rightarrow> string" where
  "app_error server_error a = (if h_error a = '''' then server_error else h_error a)"

section \<open>Runs\<close>

text \<open>The calls an application makes, each with what the server reports at that moment.\<close>

datatype ('m, 'g) http_call = RouteCall server_view 'g | UseCall server_view "'m option" | ListenCall server_view bool

fun http_step :: "('g \<Rightarrow> 'r \<Rightarrow> 'e option \<times> 'r) \<Rightarrow> ('m, 'g) http_call \<Rightarrow> ('m, 'r) http_app \<Rightarrow> ('m, 'r) http_app" where
  "http_step add (RouteCall v g) a = snd (app_route add v g a)"
| "http_step add (UseCall v m) a = snd (app_use v m a :: 'e config_error option \<times> ('m, 'r) http_app)"
| "http_step add (ListenCall v opened) a = snd (app_listen v opened a)"

definition http_calls :: "('g \<Rightarrow> 'r \<Rightarrow> 'e option \<times> 'r) \<Rightarrow> 'r \<Rightarrow> ('m, 'g) http_call list \<Rightarrow> ('m, 'r) http_app" where
  "http_calls add r cs = fold (http_step add) cs (new_app r)"

section \<open>What a user may expect\<close>

text \<open>The calls that count: those made while the server was not active.\<close>

fun used :: "('m, 'g) http_call \<Rightarrow> 'm option" where
  "used (UseCall v m) = (if http_active v then None else m)"
| "used _ = None"

fun routed :: "('m, 'g) http_call \<Rightarrow> 'g option" where
  "routed (RouteCall v g) = (if http_active v then None else Some g)"
| "routed _ = None"

definition pipeline :: "('q, 'p, 's) stage list \<Rightarrow> ('q, 'p, 's) responder \<Rightarrow> ('q, 'p, 's) responder" where
  "pipeline ms route = foldr (\<lambda>m next q s. m q next s) ms route"

lemma pipeline_simps [simp]: "pipeline [] route = route" "pipeline (m # ms) route q s = m q (pipeline ms route) s"
  by (simp_all add: pipeline_def)

lemma dispatch_pipeline: "dispatch ms route index q s = pipeline (drop index ms) route q s"
proof (induction ms route index q s rule: dispatch.induct)
  case (1 ms route index q s)
  show ?case
  proof (cases "length ms \<le> index")
    case False
    then have "dispatch ms route (index + 1) = pipeline (drop (index + 1) ms) route"
      using "1.IH" by (intro ext) simp
    then show ?thesis using False by (subst dispatch.simps) (simp add: Cons_nth_drop_Suc [symmetric])
  qed (simp add: dispatch.simps)
qed

lemma http_calls_snoc: "http_calls add r (cs @ [c]) = http_step add c (http_calls add r cs)"
  by (simp add: http_calls_def)

lemma http_middleware: "h_middleware (http_calls add r cs) = take 64 (List.map_filter used cs)"
proof (induction cs rule: rev_induct)
  case (snoc c cs)
  have len: "length (h_middleware (http_calls add r cs)) = 64 \<longleftrightarrow> 64 \<le> length (List.map_filter used cs)"
    by (auto simp: snoc.IH)
  show ?case
    by (cases c) (use snoc len in \<open>auto simp: http_calls_snoc app_route_def app_use_def app_listen_def split: prod.split option.split\<close>)
qed (simp add: http_calls_def new_app_def)

lemma http_router: "h_router (http_calls add r cs) = fold (\<lambda>g r. snd (add g r)) (List.map_filter routed cs) r"
proof (induction cs rule: rev_induct)
  case (snoc c cs)
  then show ?case
    by (cases c) (auto simp: http_calls_snoc app_route_def app_use_def app_listen_def split: prod.split option.split)
qed (simp add: http_calls_def new_app_def)

text \<open>
  C39: After any calls, a request goes through the first 64 middlewares that were given while the
  server was not active, in the order given, each around the rest, to the router, which has the
  routes that were added while it was not active, in order; an application that is gone answers
  with status 503. The chain is never longer than 64, and calls made while the server was active
  change neither middleware nor routes.
\<close>

theorem http_request_pipeline:
  "handle_http route response (Some (http_calls add r cs)) q s
     = pipeline (take 64 (List.map_filter used cs)) (route (fold (\<lambda>g r. snd (add g r)) (List.map_filter routed cs) r)) q s
   \<and> handle_http route response None q s = (response 503 ''Application is unavailable'', s)"
  by (simp add: handle_http_def dispatch_pipeline http_middleware http_router)

end
