(* ===== verification/WindowsShare.thy ===== *)
theory WindowsShare
  imports FileShare
begin

text \<open>
  \<open>src/WindowsFileShare.h\<close>: what a file share does on Windows after the path of a request was
  resolved. Every directory on the way is opened and kept open; a handle counts only if it is
  no reparse point and of the kind asked for. The Windows calls are the functions of
  \<open>windows\<close>, over an abstract state \<open>'f\<close> of the file system and handles \<open>'h\<close>. A file that is
  read is open without write sharing, so a request sees one state of it.
\<close>

unbundle bit_operations_syntax

section \<open>What Windows provides\<close>

record win_info =
  wi_reparse :: bool
  wi_directory :: bool
  wi_volume :: "32 word"
  wi_index_high :: "32 word"
  wi_index_low :: "32 word"
  wi_size_high :: "32 word"
  wi_size_low :: "32 word"
  wi_time_high :: "32 word"
  wi_time_low :: "32 word"

datatype win_access = ListAccess | AttributeAccess | ReadAccess

text \<open>A directory search: nothing found, an error, or name, reparse flag and directory flag of each entry.\<close>

datatype win_search = NothingFound | SearchFailed | Found "(qstring \<times> bool \<times> bool) list"

record ('f, 'h) windows =
  wn_create :: "'f \<Rightarrow> qstring \<Rightarrow> win_access \<Rightarrow> bool \<Rightarrow> 'h option" \<comment> \<open>an existing entry itself, no link followed; writers may share\<close>
  wn_info :: "'f \<Rightarrow> 'h \<Rightarrow> win_info option"
  wn_find :: "'f \<Rightarrow> qstring \<Rightarrow> win_search"
  wn_seek :: "'f \<Rightarrow> 'h \<Rightarrow> int \<Rightarrow> bool"
  wn_read :: "'f \<Rightarrow> 'h \<Rightarrow> int \<Rightarrow> int \<Rightarrow> bytes option" \<comment> \<open>size, position\<close>
  wn_mkdir :: "qstring \<Rightarrow> 'f \<Rightarrow> bool \<times> 'f"
  wn_create_new :: "qstring \<Rightarrow> 'f \<Rightarrow> 'h option \<times> 'f"
  wn_write :: "'h \<Rightarrow> bytes \<Rightarrow> 'f \<Rightarrow> int option \<times> 'f" \<comment> \<open>bytes written, if the call succeeds\<close>
  wn_flush :: "'h \<Rightarrow> 'f \<Rightarrow> bool"
  wn_link :: "qstring \<Rightarrow> qstring \<Rightarrow> 'f \<Rightarrow> bool \<times> 'f" \<comment> \<open>new name, existing name\<close>
  wn_delete :: "qstring \<Rightarrow> 'f \<Rightarrow> 'f"
  wn_control :: "qstring \<Rightarrow> bool"
  wn_native :: "qstring \<Rightarrow> qstring" \<comment> \<open>\<open>QDir::toNativeSeparators\<close>\<close>
  wn_join :: "qstring \<Rightarrow> qstring \<Rightarrow> qstring" \<comment> \<open>\<open>QDir(a).filePath(b)\<close>\<close>

definition safe_entry :: "('f, 'h) windows \<Rightarrow> qstring \<Rightarrow> bool" where
  "safe_entry W name \<longleftrightarrow> name \<noteq> [] \<and> name \<noteq> qs ''.'' \<and> name \<noteq> qs ''..'' \<and> take 13 name \<noteq> qs ''.iiwebserver-''
     \<and> \<not> wn_control W name \<and> slash \<notin> set name \<and> unit_of (CHR 0x5C) \<notin> set name \<and> unit_of CHR '':'' \<notin> set name
     \<and> 0 \<notin> set name"

definition win_open :: "('f, 'h) windows \<Rightarrow> 'f \<Rightarrow> qstring \<Rightarrow> win_access \<Rightarrow> bool \<Rightarrow> 'h option" where
  "win_open W f path access directory =
     (case wn_create W f (wn_native W path) access directory of
        None \<Rightarrow> None
      | Some h \<Rightarrow>
          case wn_info W f h of
            None \<Rightarrow> None
          | Some i \<Rightarrow> if wi_reparse i \<or> wi_directory i \<noteq> directory then None else Some h)"

text \<open>Two 32-bit halves as one \<open>quint64\<close>.\<close>

definition quad :: "32 word \<Rightarrow> 32 word \<Rightarrow> 64 word" where
  "quad hi lo = or (push_bit 32 (ucast hi)) (ucast lo)"

definition win_id :: "win_info \<Rightarrow> 64 word" where
  "win_id i = quad (wi_index_high i) (wi_index_low i)"

definition win_size :: "win_info \<Rightarrow> 64 word" where
  "win_size i = quad (wi_size_high i) (wi_size_low i)"

definition win_version :: "win_info \<Rightarrow> qstring" where
  "win_version i =
     (let ticks = quad (wi_time_high i) (wi_time_low i)
      in number_text (uint (wi_volume i)) @ qs '':'' @ number_text (uint (win_id i)) @ qs '':''
         @ number_text (uint (win_size i)) @ qs '':'' @ number_text (uint ticks))"

section \<open>Pinning the way\<close>

fun pin_parts :: "('f, 'h) windows \<Rightarrow> 'f \<Rightarrow> 'h list \<Rightarrow> qstring \<Rightarrow> qstring list \<Rightarrow> ('h list \<times> qstring) option" where
  "pin_parts W f hs absolute [] = Some (hs, absolute)"
| "pin_parts W f hs absolute (p # ps) =
     (let absolute' = wn_join W absolute p in
      case win_open W f absolute' ListAccess True of
        None \<Rightarrow> None
      | Some h \<Rightarrow> pin_parts W f (hs @ [h]) absolute' ps)"

text \<open>The handles held open and the directory they lead to.\<close>

definition win_pin :: "('f, 'h) windows \<Rightarrow> 'f \<Rightarrow> qstring \<Rightarrow> qstring \<Rightarrow> 64 word \<Rightarrow> 64 word \<Rightarrow> ('h list \<times> qstring) option" where
  "win_pin W f rt rel device inode =
     (case win_open W f rt ListAccess True of
        None \<Rightarrow> None
      | Some h \<Rightarrow>
          case wn_info W f h of
            None \<Rightarrow> None
          | Some i \<Rightarrow>
              if ucast (wi_volume i) \<noteq> device \<or> win_id i \<noteq> inode then None
              else pin_parts W f [h] rt (path_parts rel))"

section \<open>Operations\<close>

definition win_entry :: "qstring \<Rightarrow> bool \<Rightarrow> win_info \<Rightarrow> json" where
  "win_entry name directory i = JObj (jobj [(''name'', JStr name), (''directory'', JBool directory),
     (''size'', JStr (number_text (uint (win_size i)))), (''version'', JStr (win_version i))])"

text \<open>What the search reports of an entry that may be listed, and whether it can be opened then.\<close>

definition opened_entry :: "('f, 'h) windows \<Rightarrow> 'f \<Rightarrow> qstring \<Rightarrow> qstring \<Rightarrow> bool \<Rightarrow> json option" where
  "opened_entry W f absolute name directory =
     (case win_open W f (wn_join W absolute name) AttributeAccess directory of
        None \<Rightarrow> None
      | Some h \<Rightarrow> map_option (win_entry name directory) (wn_info W f h))"

fun win_loop :: "('f, 'h) windows \<Rightarrow> 'f \<Rightarrow> qstring \<Rightarrow> int \<Rightarrow> int \<Rightarrow> json list \<Rightarrow> (qstring \<times> bool \<times> bool) list \<Rightarrow> json list \<times> bool" where
  "win_loop W f absolute offset index entries [] = (entries, False)"
| "win_loop W f absolute offset index entries ((name, reparse, directory) # found) =
     (if \<not> safe_entry W name \<or> reparse then win_loop W f absolute offset index entries found
      else if index < offset then win_loop W f absolute offset (index + 1) entries found
      else if length entries = 256 then (entries, True)
      else case opened_entry W f absolute name directory of
          None \<Rightarrow> win_loop W f absolute offset (index + 1) entries found
        | Some entry \<Rightarrow> win_loop W f absolute offset (index + 1) (entries @ [entry]) found)"

definition win_list :: "lib \<Rightarrow> ('f, 'h) windows \<Rightarrow> 'f \<Rightarrow> qstring \<Rightarrow> jobject \<Rightarrow> jobject" where
  "win_list L W f absolute m =
     (case number_member L m ''cursor'' of
        None \<Rightarrow> error_object ''invalid_cursor''
      | Some offset \<Rightarrow>
          if offset < 0 \<or> offset > 1000000 then error_object ''invalid_cursor''
          else case wn_find W f (wn_native W (absolute @ qs ''/*'')) of
              NothingFound \<Rightarrow> jobj [(''ok'', JBool True), (''entries'', JArr []), (''nextCursor'', JStr [])]
            | SearchFailed \<Rightarrow> error_object ''list_failed''
            | Found found \<Rightarrow>
                let (entries, more) = win_loop W f absolute offset 0 [] found
                in jobj [(''ok'', JBool True), (''entries'', JArr entries), (''nextCursor'',
                  JStr (if more then number_text (offset + int (length entries)) else []))])"

definition win_read :: "lib \<Rightarrow> ('f, 'h) windows \<Rightarrow> 'f \<Rightarrow> qstring \<Rightarrow> bool \<Rightarrow> jobject \<Rightarrow> jobject" where
  "win_read L W f absolute stat_only m =
     (case win_open W f absolute ReadAccess False of
        None \<Rightarrow> error_object ''not_file''
      | Some h \<Rightarrow>
          case wn_info W f h of
            None \<Rightarrow> error_object ''not_file''
          | Some i \<Rightarrow>
              let revision = win_version i; bytes_in = uint (win_size i) in
              if contains m ''version'' \<and> to_string (jval m ''version'') \<noteq> revision then error_object ''file_changed''
              else if stat_only
              then jobj [(''ok'', JBool True), (''size'', JStr (number_text bytes_in)), (''version'', JStr revision)]
              else case number_member L m ''offset'' of
                  None \<Rightarrow> error_object ''invalid_offset''
                | Some offset \<Rightarrow>
                    if offset < 0 \<or> offset > bytes_in then error_object ''invalid_offset''
                    else if \<not> wn_seek W f h offset then error_object ''read_failed''
                    else case wn_read W f h (min chunk_bytes (bytes_in - offset)) offset of
                        None \<Rightarrow> error_object ''read_failed''
                      | Some b \<Rightarrow>
                          jobj [(''ok'', JBool True), (''data'', JStr (from_latin1 (b64_encode L b))),
                            (''offset'', JStr (number_text offset)), (''size'', JStr (number_text bytes_in)),
                            (''version'', JStr revision), (''eof'', JBool (offset + int (length b) = bytes_in))])"

definition win_publish :: "('f, 'h) windows \<Rightarrow> qstring \<Rightarrow> qstring \<Rightarrow> bytes \<Rightarrow> 'f \<Rightarrow> jobject \<times> 'f" where
  "win_publish W source destination b f =
     (case wn_create_new W source f of
        (None, f1) \<Rightarrow> (error_object ''write_failed'', f1)
      | (Some h, f1) \<Rightarrow>
          case wn_write W h b f1 of (count, f2) \<Rightarrow>
            let stored = (count = Some (int (length b)) \<and> wn_flush W h f2) in
            case (if stored then wn_link W destination source f2 else (False, f2)) of
              (published, f3) \<Rightarrow>
                (if published then jobj [(''ok'', JBool True), (''size'', JStr (number_text (int (length b))))]
                 else error_object ''write_failed_or_exists'', wn_delete W source f3))"

definition win_write :: "lib \<Rightarrow> ('f, 'h) windows \<Rightarrow> qstring \<Rightarrow> qstring \<Rightarrow> qstring \<Rightarrow> jobject \<Rightarrow> 'f \<Rightarrow> jobject \<times> 'f" where
  "win_write L W uid pinned absolute m f =
     (let encoded = to_latin1 (to_string (jval m ''data'')) in
      if int (length encoded) > (chunk_bytes + 2) div 3 * 4 then (error_object ''write_too_large'', f)
      else case b64_decode L encoded of
          None \<Rightarrow> (error_object ''invalid_data'', f)
        | Some b \<Rightarrow>
            if \<not> is_string (jval m ''data'') \<or> int (length b) > chunk_bytes then (error_object ''invalid_data'', f)
            else win_publish W (wn_native W (wn_join W pinned (qs ''.iiwebserver-'' @ uid))) (wn_native W absolute) b f)"

definition win_handle :: "lib \<Rightarrow> ('f, 'h) windows \<Rightarrow> qstring \<Rightarrow> 64 word \<Rightarrow> 64 word \<Rightarrow> qstring \<Rightarrow> jobject \<Rightarrow> 'f \<Rightarrow> jobject \<times> 'f" where
  "win_handle L W rt device inode uid m f =
     (let op = to_string (jval m ''op''); path = to_string (jval m ''path'') in
      case win_pin W f rt (if op = qs ''list'' then path else parent_path path) device inode of
        None \<Rightarrow> (error_object ''not_directory'', f)
      | Some (hs, pinned) \<Rightarrow>
          let absolute = (if path = [] then rt else wn_join W rt path) in
          if op = qs ''list'' then (win_list L W f absolute m, f)
          else if op = qs ''read'' \<or> op = qs ''stat'' then (win_read L W f absolute (op = qs ''stat'') m, f)
          else if path = [] then (error_object ''invalid_path'', f)
          else if op = qs ''mkdir'' then
            (case wn_mkdir W (wn_native W absolute) f of
               (made, f') \<Rightarrow> (if made then jobj [(''ok'', JBool True)] else error_object ''create_failed_or_exists'', f'))
          else if op = qs ''write'' then win_write L W uid pinned absolute m f
          else (error_object ''unsupported_operation'', f))"

section \<open>The share as a whole\<close>

text \<open>The constructor and \<open>handle\<close> of \<open>src/FileShare.cpp\<close> in a Windows build.\<close>

definition win_file_share :: "('f, 'n) native \<Rightarrow> ('f, 'h) windows \<Rightarrow> 'f \<Rightarrow> qstring \<Rightarrow> share" where
  "win_file_share N W f rt =
     (let info = n_info N f rt;
          base = (if n_absolute N rt \<and> i_dir info \<and> \<not> i_symlink info
            \<and> i_canonical info = n_clean N rt then i_canonical info else [])
      in case (case win_open W f base ListAccess True of None \<Rightarrow> None | Some h \<Rightarrow> wn_info W f h) of
           None \<Rightarrow> \<lparr>sh_root = [], sh_dev = 0, sh_ino = 0\<rparr>
         | Some i \<Rightarrow> \<lparr>sh_root = base, sh_dev = uint (wi_volume i), sh_ino = uint (win_id i)\<rparr>)"

definition win_request :: "lib \<Rightarrow> ('f, 'n) native \<Rightarrow> ('f, 'h) windows \<Rightarrow> share \<Rightarrow> bool \<Rightarrow> qstring \<Rightarrow> jobject \<Rightarrow> 'f \<Rightarrow> jobject \<times> 'f" where
  "win_request L N W sh guard uid m f =
     (let op = to_string (jval m ''op''); path = to_string (jval m ''path'') in
      if contains m ''path'' \<and> \<not> is_string (jval m ''path'') then (error_object ''invalid_path'', f)
      else case resolve N f guard sh path (op = qs ''write'' \<or> op = qs ''mkdir'') of
          None \<Rightarrow> (error_object ''invalid_or_unavailable_path'', f)
        | Some absolute \<Rightarrow>
            if absolute = [] then (error_object ''invalid_or_unavailable_path'', f)
            else win_handle L W (sh_root sh) (word_of_int (sh_dev sh)) (word_of_int (sh_ino sh)) uid m f)"

section \<open>Halves and wholes\<close>

text \<open>The shift and the union of the halves lose nothing: they are the number the halves write.\<close>

lemma quad_value: "uint (quad hi lo) = uint hi * 2 ^ 32 + uint lo"
proof -
  have "uint (quad hi lo) = concat_bit 32 (uint lo) (uint hi)"
    by (rule bit_eqI) (auto simp: quad_def bit_concat_bit_iff bit_uint_iff bit_simps dest: bit_imp_le_length)
  also have "\<dots> = take_bit 32 (uint lo) + push_bit 32 (uint hi)" by (simp add: concat_bit_eq)
  also have "take_bit 32 (uint lo) = uint lo" using uint_lt2p [of lo] by (simp add: take_bit_int_eq_self)
  finally show ?thesis by (simp add: push_bit_eq_mult)
qed

lemma halves_unique:
  assumes "x * 4294967296 + b = y * 4294967296 + (d :: int)" "0 \<le> b" "b < 4294967296" "0 \<le> d" "d < 4294967296"
  shows "x = y \<and> b = d"
proof -
  have "\<not> x < y" "\<not> y < x" using assms by linarith+
  then show ?thesis using assms(1) by simp
qed

text \<open>So two files are one only when both halves of their identifiers agree.\<close>

lemma quad_inj: "quad a b = quad c d \<longleftrightarrow> a = c \<and> b = d"
proof
  assume "quad a b = quad c d"
  then have "uint a * 2 ^ 32 + uint b = uint c * 2 ^ 32 + uint d" by (simp only: quad_value [symmetric])
  moreover have "uint b < 2 ^ 32" "uint d < 2 ^ 32" "0 \<le> uint b" "0 \<le> uint d"
    using uint_lt2p [of b] uint_lt2p [of d] by simp_all
  ultimately have "uint a = uint c \<and> uint b = uint d" by (intro halves_unique) simp_all
  then show "a = c \<and> b = d" by (simp add: word_uint_eq_iff)
qed simp

section \<open>The way down\<close>

lemma win_open_checked:
  "win_open W f p acc d = Some h \<Longrightarrow> \<exists>i. wn_info W f h = Some i \<and> \<not> wi_reparse i \<and> wi_directory i = d"
  by (auto simp: win_open_def split: option.splits if_splits)

lemma pin_parts_checked:
  assumes "pin_parts W f hs a ps = Some (ks, b)"
  shows "\<exists>ls. ks = hs @ ls \<and> length ls = length ps
    \<and> (\<forall>h\<in>set ls. \<exists>i. wn_info W f h = Some i \<and> \<not> wi_reparse i \<and> wi_directory i)"
  using assms
proof (induction W f hs a ps rule: pin_parts.induct)
  case (2 W f hs a p ps)
  then obtain h where h: "win_open W f (wn_join W a p) ListAccess True = Some h"
    "pin_parts W f (hs @ [h]) (wn_join W a p) ps = Some (ks, b)"
    by (auto simp: Let_def split: option.splits)
  from "2.IH" [OF refl h] obtain ls where "ks = (hs @ [h]) @ ls" "length ls = length ps"
    "\<forall>h\<in>set ls. \<exists>i. wn_info W f h = Some i \<and> \<not> wi_reparse i \<and> wi_directory i" by blast
  then show ?case using win_open_checked [OF h(1)] by (intro exI [of _ "h # ls"]) auto
qed simp

lemma win_pin_checked:
  assumes "win_pin W f rt rel device inode = Some (hs, b)"
  shows "\<exists>h i ls. hs = h # ls \<and> wn_info W f h = Some i \<and> ucast (wi_volume i) = device \<and> win_id i = inode
    \<and> length ls = length (path_parts rel)
    \<and> (\<forall>k\<in>set (h # ls). \<exists>i. wn_info W f k = Some i \<and> \<not> wi_reparse i \<and> wi_directory i)"
proof -
  obtain h i where h: "win_open W f rt ListAccess True = Some h" "wn_info W f h = Some i"
    "ucast (wi_volume i) = device" "win_id i = inode" "pin_parts W f [h] rt (path_parts rel) = Some (hs, b)"
    using assms by (auto simp: win_pin_def split: option.splits if_splits)
  from pin_parts_checked [OF h(5)] show ?thesis using h win_open_checked [OF h(1)] by auto
qed


end
