(* ===== verification/WindowsListing.thy ===== *)
theory WindowsListing
  imports WindowsShare FileShareProperties
begin

text \<open>
  The pages of a Windows listing. While every entry can be opened the pages tile the directory,
  as they do elsewhere; an entry that cannot be opened takes an index but no place on its page,
  so the cursor, which counts places, falls behind and entries come twice.
\<close>

section \<open>The loop over a directory\<close>

definition win_shown :: "('f, 'h) windows \<Rightarrow> (qstring \<times> bool \<times> bool) list \<Rightarrow> (qstring \<times> bool \<times> bool) list" where
  "win_shown W found = filter (\<lambda>(name, reparse, directory). safe_entry W name \<and> \<not> reparse) found"

definition win_opened :: "('f, 'h) windows \<Rightarrow> 'f \<Rightarrow> qstring \<Rightarrow> qstring \<times> bool \<times> bool \<Rightarrow> json option" where
  "win_opened W f a e = (case e of (name, reparse, directory) \<Rightarrow> opened_entry W f a name directory)"

text \<open>Hidden entries and links count for nothing.\<close>

lemma win_loop_shown: "win_loop W f a offset index es found = win_loop W f a offset index es (win_shown W found)"
proof (induction found arbitrary: index es)
  case (Cons e found)
  then show ?case by (cases e) (auto simp: win_shown_def split: option.split)
qed (simp add: win_shown_def)

lemma win_loop_skip:
  assumes "\<forall>e\<in>set xs. safe_entry W (fst e) \<and> \<not> fst (snd e)" "index + int (length xs) \<le> offset"
  shows "win_loop W f a offset index es (xs @ ys) = win_loop W f a offset (index + int (length xs)) es ys"
  using assms
proof (induction xs arbitrary: index)
  case (Cons e xs)
  then have "win_loop W f a offset (index + 1) es (xs @ ys) = win_loop W f a offset (index + 1 + int (length xs)) es ys"
    by (intro Cons.IH) auto
  then show ?case using Cons.prems by (cases e) (auto simp: algebra_simps)
qed simp

lemma win_loop_missing:
  assumes "safe_entry W (fst e)" "\<not> fst (snd e)" "offset \<le> index" "length es < 256" "win_opened W f a e = None"
  shows "win_loop W f a offset index es (e # found) = win_loop W f a offset (index + 1) es found"
  using assms by (cases e) (auto simp: win_opened_def)

lemma win_loop_fill:
  assumes "\<forall>e\<in>set xs. safe_entry W (fst e) \<and> \<not> fst (snd e) \<and> win_opened W f a e \<noteq> None"
    "offset \<le> index" "length es \<le> 256"
  shows "win_loop W f a offset index es xs = (es @ take (256 - length es) (map (\<lambda>e. the (win_opened W f a e)) xs),
    length es + length xs > 256)"
  using assms
proof (induction xs arbitrary: index es)
  case (Cons e xs)
  obtain name reparse directory where e: "e = (name, reparse, directory)" by (cases e)
  then obtain j where j: "opened_entry W f a name directory = Some j" using Cons.prems(1) by (auto simp: win_opened_def)
  then have jw: "win_opened W f a (name, reparse, directory) = Some j" by (simp add: win_opened_def)
  show ?case
  proof (cases "length es = 256")
    case True
    then show ?thesis using Cons.prems e by simp
  next
    case False
    then have "win_loop W f a offset (index + 1) (es @ [j]) xs = (es @ [j] @ take (256 - Suc (length es)) (map (\<lambda>e. the (win_opened W f a e)) xs),
      Suc (length es) + length xs > 256)"
      using Cons.IH [of "index + 1" "es @ [j]"] Cons.prems by simp
    then show ?thesis using False Cons.prems e j jw by (simp add: take_Cons')
  qed
qed simp

lemma win_loop_page:
  assumes "\<forall>e\<in>set xs. safe_entry W (fst e) \<and> \<not> fst (snd e)"
    "\<forall>e\<in>set (drop k xs). win_opened W f a e \<noteq> None" "k \<le> length xs"
  shows "win_loop W f a (int k) 0 [] xs = (take 256 (drop k (map (\<lambda>e. the (win_opened W f a e)) xs)), length xs > k + 256)"
proof -
  have "win_loop W f a (int k) 0 [] (take k xs @ drop k xs) = win_loop W f a (int k) (0 + int (length (take k xs))) [] (drop k xs)"
    by (rule win_loop_skip) (use assms in \<open>auto dest: in_set_takeD\<close>)
  also have "\<dots> = ([] @ take (256 - length ([] :: json list)) (map (\<lambda>e. the (win_opened W f a e)) (drop k xs)), length ([] :: json list) + length (drop k xs) > 256)"
    by (intro win_loop_fill) (use assms in \<open>auto dest: in_set_dropD\<close>)
  finally show ?thesis by (auto simp: drop_map)
qed

lemma win_shown_ok: "\<forall>e\<in>set (win_shown W found). safe_entry W (fst e) \<and> \<not> fst (snd e)"
  by (auto simp: win_shown_def)

lemma win_list_loop:
  assumes "number_member L m ''cursor'' = Some (int k)" "k \<le> 1000000"
    "wn_find W f (wn_native W (a @ qs ''/*'')) = Found found" "win_loop W f a (int k) 0 [] (win_shown W found) = (entries, full)"
  shows "win_list L W f a m = jobj [(''ok'', JBool True), (''entries'', JArr entries),
    (''nextCursor'', JStr (if full then number_text (int k + int (length entries)) else []))]"
  using assms by (simp add: win_list_def win_loop_shown [of W f a "int k" 0 "[]" found])

section \<open>Pages\<close>

lemma win_request_list:
  assumes "resolve N f guard sh path False = Some a" "a \<noteq> []"
    "win_pin W f (sh_root sh) path (word_of_int (sh_dev sh)) (word_of_int (sh_ino sh)) = Some p"
    "to_string (jval m ''op'') = qs ''list''" "jval m ''path'' = JStr path"
  shows "fst (win_request L N W sh guard uid m f) = win_list L W f (if path = [] then sh_root sh else wn_join W (sh_root sh) path) m"
  using assms by (auto simp: win_request_def win_handle_def Let_def split: prod.split)

text \<open>
  The pages of a Windows share tile a directory whose visible entries can all be opened: a
  client that follows the cursors gets each of them once, in the order of the search. Visible are
  the entries that are no link and whose name may be shown. Used of Qt: a printed number reads
  back; and there are at most 1000000 of them.
\<close>

theorem windows_listing_complete:
  assumes "resolve N f guard sh path False = Some a" and "a \<noteq> []"
    and "win_pin W f (sh_root sh) path (word_of_int (sh_dev sh)) (word_of_int (sh_ino sh)) = Some p"
    and "directory = (if path = [] then sh_root sh else wn_join W (sh_root sh) path)"
    and "wn_find W f (wn_native W (directory @ qs ''/*'')) = Found found"
    and "\<forall>e\<in>set (win_shown W found). win_opened W f directory e \<noteq> None"
    and "\<forall>i\<ge>0. to_longlong L (number_text i) = Some i"
    and "length (win_shown W found) \<le> 1000000"
  shows "follow_pages (\<lambda>m. fst (win_request L N W sh guard uid m f)) path (Suc (length (win_shown W found) div 256)) []
    = Some (map (\<lambda>e. the (win_opened W f directory e)) (win_shown W found))"
proof -
  let ?v = "map (\<lambda>e. the (win_opened W f directory e)) (win_shown W found)"
  have "follow_pages (\<lambda>m. fst (win_request L N W sh guard uid m f)) path (Suc (length ?v div 256)) [] = Some ?v"
  proof (rule follow_tiles [OF assms(7)])
    fix k c
    assume k: "k \<le> length ?v" "number_member L (list_query path c) ''cursor'' = Some (int k)"
    have "win_loop W f directory (int k) 0 [] (win_shown W found) = (take 256 (drop k ?v), length (win_shown W found) > k + 256)"
      by (rule win_loop_page [OF win_shown_ok]) (use assms(6) k(1) in \<open>auto dest: in_set_dropD\<close>)
    from win_list_loop [OF k(2) _ assms(5) this] k(1) assms(8)
    show "fst (win_request L N W sh guard uid (list_query path c) f) = jobj [(''ok'', JBool True), (''entries'', JArr (take 256 (drop k ?v))),
        (''nextCursor'', JStr (if length ?v > k + 256 then number_text (int (k + 256)) else []))]"
      using win_request_list [OF assms(1-3)] assms(4) by (auto simp: min_def add.commute)
  qed
  then show ?thesis by simp
qed

text \<open>
  C38: One visible entry that cannot be opened when it is listed makes the next page repeat an
  entry: with more than 256 entries after it, the first page ends with the 256th of them and
  names 256 as the next cursor, and the page at 256 starts with that entry again.
\<close>

theorem windows_listing_repeats:
  assumes "wn_find W f (wn_native W (directory @ qs ''/*'')) = Found found"
    and "win_shown W found = locked # es" and "win_opened W f directory locked = None"
    and "\<forall>e\<in>set es. win_opened W f directory e \<noteq> None" and "256 < length es"
    and "to_longlong L (number_text 256) = Some 256"
    and "first_page = win_list L W f directory (list_query path [])"
    and "next_page = win_list L W f directory (list_query path (to_string (jval first_page ''nextCursor'')))"
  shows "to_string (jval first_page ''nextCursor'') = number_text 256
    \<and> last (to_array (jval first_page ''entries'')) = the (win_opened W f directory (es ! 255))
    \<and> hd (to_array (jval next_page ''entries'')) = last (to_array (jval first_page ''entries''))"
proof -
  let ?v = "map (\<lambda>e. the (win_opened W f directory e)) es"
  have ok: "\<forall>e\<in>set (locked # es). safe_entry W (fst e) \<and> \<not> fst (snd e)" using win_shown_ok [of W found] assms(2) by simp
  have "win_loop W f directory 0 0 [] (locked # es) = win_loop W f directory 0 1 [] es"
    using ok assms(3) by (subst win_loop_missing) simp_all
  also have "\<dots> = (take 256 ?v, True)" using ok assms(4,5) by (subst win_loop_fill) auto
  finally have one: "win_loop W f directory (int 0) 0 [] (win_shown W found) = (take 256 ?v, True)" using assms(2) by simp
  have first: "first_page = jobj [(''ok'', JBool True), (''entries'', JArr (take 256 ?v)), (''nextCursor'', JStr (number_text 256))]"
    using win_list_loop [OF _ _ assms(1) one] assms(5,7) by (simp add: list_query_cursor)
  have "win_loop W f directory (int 256) 0 [] (locked # es)
      = (take 256 (drop 256 (map (\<lambda>e. the (win_opened W f directory e)) (locked # es))), length (locked # es) > 256 + 256)"
    by (rule win_loop_page [OF ok]) (use assms(4,5) in \<open>auto simp: drop_Cons' dest: in_set_dropD\<close>)
  then have two: "win_loop W f directory (int 256) 0 [] (win_shown W found) = (take 256 (drop 255 ?v), length es > 511)"
    using assms(2) by (auto simp: drop_Cons')
  have more: "to_array (jval next_page ''entries'') = take 256 (drop 255 ?v)"
    using win_list_loop [OF _ _ assms(1) two] assms(6,8) first by (simp add: list_query_cursor)
  have "to_string (jval first_page ''nextCursor'') = number_text 256" using first by simp
  moreover have "last (to_array (jval first_page ''entries'')) = the (win_opened W f directory (es ! 255))"
    using first assms(5) last_conv_nth [of "take 256 (map (\<lambda>e. the (win_opened W f directory e)) es)"] by fastforce
  moreover have "hd (to_array (jval next_page ''entries'')) = the (win_opened W f directory (es ! 255))"
    using more assms(5) by (simp add: hd_drop_conv_nth)
  ultimately show ?thesis by simp
qed

section \<open>Examples\<close>

text \<open>
  A volume with one directory: a file that another program holds open and copies of one file that
  can be opened, as many as the state has links; the held file is there if they are several.
\<close>

definition demo_win_info :: "bool \<Rightarrow> win_info" where
  "demo_win_info directory = \<lparr>wi_reparse = False, wi_directory = directory, wi_volume = 7, wi_index_high = 1, wi_index_low = 2,
     wi_size_high = 0, wi_size_low = 5, wi_time_high = 3, wi_time_low = 4\<rparr>"

definition demo_windows :: "(demo_fs, bool) windows" where
  "demo_windows = \<lparr>wn_create = (\<lambda>f p access directory. if last_part p = qs ''locked'' then None else Some (last_part p \<noteq> qs ''a'')),
     wn_info = (\<lambda>f h. Some (demo_win_info h)),
     wn_find = (\<lambda>f p. Found ((if length (fs_links f) = 1 then [] else [(qs ''locked'', False, False)])
       @ replicate (length (fs_links f)) (qs ''a'', False, False))),
     wn_seek = (\<lambda>f h i. True), wn_read = (\<lambda>f h count i. Some (replicate (nat count) 0)),
     wn_mkdir = (\<lambda>p f. (True, f)), wn_create_new = (\<lambda>p f. (Some False, f)), wn_write = (\<lambda>h b f. (Some (int (length b)), f)),
     wn_flush = (\<lambda>h f. True), wn_link = (\<lambda>new old f. (True, f)), wn_delete = (\<lambda>p f. f),
     wn_control = (\<lambda>p. False), wn_native = (\<lambda>p. p), wn_join = (\<lambda>a b. a @ slash # b)\<rparr>"

definition demo_win_files :: demo_fs where
  "demo_win_files = demo_files\<lparr>fs_links := replicate 300 ((0, bs ''a''), 1)\<rparr>"

definition demo_win_share :: share where
  "demo_win_share = win_file_share demo_native demo_windows demo_files (qs ''/r'')"

lemma demo_win_safe: "safe_entry demo_windows (qs ''a'')" "safe_entry demo_windows (qs ''locked'')" by code_simp+

lemma demo_win_opened: "win_opened demo_windows f (qs ''/r'') (qs ''a'', False, False) = Some (win_entry (qs ''a'') False (demo_win_info False))"
proof -
  have "last_part (qs ''/r'' @ slash # qs ''a'') = qs ''a''" "qs ''a'' \<noteq> qs ''locked''" by code_simp+
  then show ?thesis by (simp add: win_opened_def opened_entry_def win_open_def demo_windows_def demo_win_info_def)
qed

lemma demo_win_locked: "win_opened demo_windows f (qs ''/r'') (qs ''locked'', False, False) = None"
proof -
  have "last_part (qs ''/r'' @ slash # qs ''locked'') = qs ''locked''" by code_simp
  then show ?thesis by (simp add: win_opened_def opened_entry_def win_open_def demo_windows_def)
qed

lemma demo_win_shown: "win_shown demo_windows (replicate n (qs ''a'', False, False)) = replicate n (qs ''a'', False, False)"
  using demo_win_safe by (simp add: win_shown_def)


text \<open>Example: the one file is listed in one page.\<close>

theorem windows_listing_complete_witness:
  "follow_pages (\<lambda>m. fst (win_request demo_lib demo_native demo_windows demo_win_share True [] m demo_files)) [] 1 []
    = Some [win_entry (qs ''a'') False (demo_win_info False)]"
proof -
  have res: "resolve demo_native demo_files True demo_win_share [] False = Some (qs ''/r'')" by code_simp
  have pin: "win_pin demo_windows demo_files (sh_root demo_win_share) [] (word_of_int (sh_dev demo_win_share)) (word_of_int (sh_ino demo_win_share))
    = Some ([True], qs ''/r'')" by code_simp
  have root: "qs ''/r'' = (if [] = [] then sh_root demo_win_share else wn_join demo_windows (sh_root demo_win_share) [])" by code_simp
  have found: "wn_find demo_windows demo_files (wn_native demo_windows (qs ''/r'' @ qs ''/*'')) = Found (replicate 1 (qs ''a'', False, False))"
    by (simp add: demo_windows_def demo_files_def)
  show ?thesis
    using windows_listing_complete [OF res _ pin root found _ demo_numbers] unfolding demo_win_shown by (simp add: demo_win_opened)
qed

text \<open>Example: a locked file before 300 others.\<close>

theorem windows_listing_repeats_witness:
  "hd (to_array (jval (win_list demo_lib demo_windows demo_win_files (qs ''/r'') (list_query [] (number_text 256))) ''entries''))
    = last (to_array (jval (win_list demo_lib demo_windows demo_win_files (qs ''/r'') (list_query [] [])) ''entries''))"
proof -
  let ?es = "replicate 300 (qs ''a'', False, False)"
  have found: "wn_find demo_windows demo_win_files (wn_native demo_windows (qs ''/r'' @ qs ''/*'')) = Found ((qs ''locked'', False, False) # ?es)"
    by (simp add: demo_windows_def demo_win_files_def)
  have shown: "win_shown demo_windows ((qs ''locked'', False, False) # ?es) = (qs ''locked'', False, False) # ?es"
    using demo_win_shown [of 300] demo_win_safe by (simp add: win_shown_def)
  have all: "\<forall>e\<in>set ?es. win_opened demo_windows demo_win_files (qs ''/r'') e \<noteq> None" using demo_win_opened by simp
  have num: "to_longlong demo_lib (number_text 256) = Some 256" using demo_numbers by simp
  show ?thesis
    using windows_listing_repeats [OF found shown demo_win_locked all _ num refl refl, of "[]"] by auto
qed

end
