(* ===== verification/BinaryFrame.thy ===== *)
theory BinaryFrame
  imports Protocol
begin

text \<open>
  \<open>src/BinaryFrame.h\<close>: the \<open>ISB1\<close> frame that carries one Base64 field of a message as raw
  bytes. \<open>frame_encode\<close> and \<open>frame_decode\<close> follow \<open>encode\<close> and \<open>decode\<close>; the choice of the
  field (\<open>frame_pick\<close>) and the JSON header (\<open>frame_header\<close>) are their own definitions. The
  lemmas bound the frames that are produced, show what a frame that decodes has to look
  like, and give the round trip.
\<close>

section \<open>Model\<close>

definition frame_paths :: "string list list" where
  "frame_paths = [[''payload'', ''message'', ''data''], [''result'', ''result'', ''data''],
     [''result'', ''data'']]"

text \<open>\<open>at\<close> returns the default value (null) when a step of the path is not an object.\<close>

fun at_path :: "jobject \<Rightarrow> string list \<Rightarrow> json" where
  "at_path ob [] = JNull"
| "at_path ob [k] = jval ob k"
| "at_path ob (k # ks) =
     (if \<not> is_object (jval ob k) then JNull else at_path (to_object (jval ob k)) ks)"

fun replace_at :: "jobject \<Rightarrow> string list \<Rightarrow> json \<Rightarrow> jobject" where
  "replace_at ob [] v = ob"
| "replace_at ob [k] v = jinsert (qs k) v ob"
| "replace_at ob (k # ks) v = jinsert (qs k) (JObj (replace_at (to_object (jval ob k)) ks v)) ob"

definition maximum_payload :: nat where
  "maximum_payload = 256 * 1024"

definition maximum_header :: nat where
  "maximum_header = 64 * 1024"

definition frame_magic :: bytes where
  "frame_magic = bs ''ISB1''"

text \<open>\<open>qToBigEndian\<close> and \<open>qFromBigEndian\<close> of a \<open>quint32\<close>.\<close>

definition to_be32 :: "32 word \<Rightarrow> bytes" where
  "to_be32 w = [ucast (drop_bit 24 w), ucast (drop_bit 16 w), ucast (drop_bit 8 w), ucast w]"

definition from_be32 :: "bytes \<Rightarrow> 32 word" where
  "from_be32 b = word_of_nat (foldl (\<lambda>n x. 256 * n + unat x) 0 b)"

text \<open>The candidate fields are tried in order; \<open>frame_field\<close> is the test of one of them.\<close>

definition frame_field :: "lib \<Rightarrow> jobject \<Rightarrow> string list \<Rightarrow> bytes option" where
  "frame_field L message path =
     (let v = at_path message path in
      if \<not> is_string v then None
      else let text = to_latin1 (to_string v) in
        if length text > (maximum_payload + 2) div 3 * 4 then None
        else (case b64_decode L text of
            None \<Rightarrow> None
          | Some d \<Rightarrow>
              if d = [] \<or> length d > maximum_payload \<or> b64_encode L d \<noteq> text then None
              else Some d))"

fun frame_pick_from :: "lib \<Rightarrow> jobject \<Rightarrow> nat \<Rightarrow> string list list \<Rightarrow> (nat \<times> bytes) option" where
  "frame_pick_from L message i [] = None"
| "frame_pick_from L message i (p # ps) =
     (case frame_field L message p of
        Some d \<Rightarrow> Some (i, d)
      | None \<Rightarrow> frame_pick_from L message (Suc i) ps)"

definition frame_pick :: "lib \<Rightarrow> jobject \<Rightarrow> (nat \<times> bytes) option" where
  "frame_pick L message = frame_pick_from L message 0 frame_paths"

definition frame_header :: "jobject \<Rightarrow> nat \<Rightarrow> jobject" where
  "frame_header message i =
     jobj [(''path'', JNum (of_nat i)),
           (''message'', JObj (replace_at message (frame_paths ! i) JUndefined))]"

definition frame_encode :: "lib \<Rightarrow> jobject \<Rightarrow> bytes" where
  "frame_encode L message =
     (case frame_pick L message of
        None \<Rightarrow> []
      | Some (i, d) \<Rightarrow>
          let header = json_compact L (JObj (frame_header message i)) in
          if length header > maximum_header then []
          else frame_magic @ to_be32 (word_of_nat (length header)) @ header @ d)"

fun parent_object :: "jobject \<Rightarrow> string list \<Rightarrow> jobject option" where
  "parent_object ob [] = Some ob"
| "parent_object ob [k] = Some ob"
| "parent_object ob (k # ks) =
     (if \<not> is_object (jval ob k) then None else parent_object (to_object (jval ob k)) ks)"

definition frame_decode :: "lib \<Rightarrow> bytes \<Rightarrow> jobject" where
  "frame_decode L frame =
     (if length frame < 9 \<or> length frame > maximum_header + maximum_payload + 8
         \<or> take 4 frame \<noteq> frame_magic then fmempty
      else
        let size = unat (from_be32 (take 4 (drop 4 frame))) in
        if size = 0 \<or> size > maximum_header \<or> size \<ge> length frame - 8
           \<or> length frame - 8 - size > maximum_payload then fmempty
        else case json_parse L (take size (drop 8 frame)) of
            Some (JObj header) \<Rightarrow>
              let path = int_or (-1) (jval header ''path'') in
              if object_size header \<noteq> 2 \<or> path < 0 \<or> path \<ge> int (length frame_paths)
                 \<or> to_double (jval header ''path'') \<noteq> of_int path
                 \<or> \<not> is_object (jval header ''message'') then fmempty
              else
                let message = to_object (jval header ''message'');
                    p = frame_paths ! nat path in
                (case parent_object message p of
                   None \<Rightarrow> fmempty
                 | Some parent \<Rightarrow>
                     if contains parent ''data'' then fmempty
                     else replace_at message p
                       (JStr (from_latin1 (b64_encode L (drop (8 + size) frame)))))
          | _ \<Rightarrow> fmempty)"

section \<open>Big-endian lengths\<close>

lemma length_to_be32 [simp]: "length (to_be32 w) = 4"
  by (simp add: to_be32_def)

lemma four_digits:
  fixes n :: nat
  assumes "n < 4294967296"
  shows "256 * (256 * (256 * (n div 16777216 mod 256) + n div 65536 mod 256)
    + n div 256 mod 256) + n mod 256 = n"
proof -
  define a b c where "a = n div 256" and "b = a div 256" and "c = b div 256"
  have "n div 65536 = b" "n div 16777216 = c"
    by (simp_all add: a_def b_def c_def div_mult2_eq [symmetric])
  moreover have "c mod 256 = c" using assms by (simp add: a_def b_def c_def div_mult2_eq [symmetric])
  moreover have "n = 256 * a + n mod 256" "a = 256 * b + a mod 256" "b = 256 * c + b mod 256"
    by (simp_all add: a_def b_def c_def)
  ultimately show ?thesis by (metis a_def)
qed

lemma from_to_be32: "from_be32 (to_be32 w) = w"
proof -
  have "unat w < 4294967296" using unsigned_less [of w] by simp
  then have "foldl (\<lambda>n x. 256 * n + unat x) 0 (to_be32 w) = unat w"
    using four_digits [of "unat w"]
    by (simp add: to_be32_def unat_ucast unat_drop_bit_eq drop_bit_eq_div [where 'a = nat]
        del: distrib_left_numeral)
  then show ?thesis by (simp add: from_be32_def)
qed

section \<open>Paths\<close>

lemma frame_paths_nth: "i < 3 \<Longrightarrow> frame_paths ! i \<in> set frame_paths"
  by (rule nth_mem) (simp add: frame_paths_def)

lemma length_frame_paths [simp]: "length frame_paths = 3"
  by (simp add: frame_paths_def)

lemma frame_paths_data: "p \<in> set frame_paths \<Longrightarrow> \<exists>q. p = q @ [''data'']"
  by (auto simp: frame_paths_def)

lemma jval_Some: "jval ob k \<noteq> JUndefined \<Longrightarrow> fmlookup ob (qs k) = Some (jval ob k)"
  by (auto simp: jval_def split: option.splits)

text \<open>Removing the field and putting its text back gives the message.\<close>

lemma replace_at_undo:
  "p \<noteq> [] \<Longrightarrow> at_path ob p = JStr s \<Longrightarrow>
     replace_at (replace_at ob p JUndefined) p (JStr s) = ob"
proof (induction ob p rule: at_path.induct)
  case (2 ob k)
  then show ?case by (simp add: jinsert_undo jval_Some)
next
  case (3 ob k k' ks)
  then have o: "is_object (jval ob k)" by (auto split: if_splits)
  have s: "fmlookup ob (qs k) = Some (JObj (to_object (jval ob k)))"
    using jval_Some [of ob k] is_objectD [OF o] by (metis json.distinct(11))
  from 3 o show ?case by (simp add: jinsert_undo [OF s])
qed simp

lemma parent_after_removal:
  "at_path ob (q @ [k]) = JStr s \<Longrightarrow>
     \<exists>par. parent_object (replace_at ob (q @ [k]) JUndefined) (q @ [k]) = Some par
       \<and> \<not> contains par k"
proof (induction q arbitrary: ob)
  case Nil
  then show ?case by (simp add: contains_def jinsert_def)
next
  case (Cons a q)
  then show ?case by (cases q) (auto split: if_splits)
qed

section \<open>Encoding\<close>

lemma frame_pick_from_Some:
  "frame_pick_from L m i ps = Some (j, d) \<Longrightarrow>
     i \<le> j \<and> j - i < length ps \<and> frame_field L m (ps ! (j - i)) = Some d"
  by (induction ps arbitrary: i) (force split: option.splits simp: nth_Cons')+

lemma frame_pick_Some:
  "frame_pick L m = Some (i, d) \<Longrightarrow> i < 3 \<and> frame_field L m (frame_paths ! i) = Some d"
  unfolding frame_pick_def using frame_pick_from_Some by fastforce

lemma frame_field_Some:
  "frame_field L m p = Some d \<Longrightarrow>
     (\<exists>s. at_path m p = JStr s \<and> to_latin1 s = b64_encode L d) \<and> d \<noteq> []
     \<and> length d \<le> maximum_payload"
  by (auto simp: frame_field_def Let_def dest: is_stringD split: if_splits option.splits)

lemma frame_encode_cases:
  assumes "frame_encode L m \<noteq> []"
  obtains i d h where "frame_pick L m = Some (i, d)" "i < 3"
    "frame_field L m (frame_paths ! i) = Some d"
    "h = json_compact L (JObj (frame_header m i))" "length h \<le> maximum_header"
    "frame_encode L m = frame_magic @ to_be32 (word_of_nat (length h)) @ h @ d"
  using assms frame_pick_Some
  by (auto simp: frame_encode_def Let_def split: option.splits if_splits)

lemma frame_magic_length [simp]: "length frame_magic = 4"
  by (simp add: frame_magic_def)

lemma frame_encode_bounds:
  "frame_encode L m \<noteq> [] \<Longrightarrow>
     8 < length (frame_encode L m)
     \<and> length (frame_encode L m) \<le> maximum_header + maximum_payload + 8
     \<and> take 4 (frame_encode L m) = frame_magic"
  by (erule frame_encode_cases) (auto dest: frame_field_Some)

lemma unat_header_size: "n \<le> maximum_header \<Longrightarrow> unat (word_of_nat n :: 32 word) = n"
  by (simp add: unat_of_nat maximum_header_def)

lemma frame_header_reads [simp]:
  "i < 3 \<Longrightarrow> int_or (-1) (jval (frame_header m i) ''path'') = int i"
  "to_double (jval (frame_header m i) ''path'') = of_nat i"
  "jval (frame_header m i) ''message'' = JObj (replace_at m (frame_paths ! i) JUndefined)"
  by (simp_all add: frame_header_def)

lemma object_size_frame_header [simp]: "object_size (frame_header m i) = 2"
  by (simp add: frame_header_def jobj_def jinsert_def object_size_def fcard_finsert_if)

section \<open>Decoding\<close>

lemma at_replace: "p \<noteq> [] \<Longrightarrow> at_path (replace_at ob p v) p = v"
  by (induction ob p v rule: replace_at.induct) auto

lemma replace_then_remove:
  "parent_object ob (q @ [k]) = Some par \<Longrightarrow> \<not> contains par k \<Longrightarrow> v \<noteq> JUndefined \<Longrightarrow>
     replace_at (replace_at ob (q @ [k]) v) (q @ [k]) JUndefined = ob"
proof (induction q arbitrary: ob)
  case Nil
  then show ?case
    by (cases v) (auto simp: contains_def jinsert_def intro!: fmap_ext)
next
  case (Cons a q)
  have o: "is_object (jval ob a)"
    and r: "parent_object (to_object (jval ob a)) (q @ [k]) = Some par"
    using Cons.prems(1) by (cases q; auto split: if_splits)+
  have l: "fmlookup ob (qs a) = Some (JObj (to_object (jval ob a)))"
    using jval_Some [of ob a] is_objectD [OF o] by (metis json.distinct(11))
  show ?case
    using Cons.IH [OF r Cons.prems(2,3)]
    by (cases q) (auto simp: jinsert_undo [OF l])
qed

lemma frame_decode_cases:
  assumes "frame_decode L f \<noteq> fmempty"
  obtains size header msg i par where
    "take 4 f = frame_magic" "0 < size" "size \<le> maximum_header" "8 + size < length f"
    "length f - 8 - size \<le> maximum_payload"
    "json_parse L (take size (drop 8 f)) = Some (JObj header)" "object_size header = 2"
    "jval header ''path'' = JNum (of_nat i)" "i < 3" "jval header ''message'' = JObj msg"
    "parent_object msg (frame_paths ! i) = Some par" "\<not> contains par ''data''"
    "frame_decode L f = replace_at msg (frame_paths ! i)
       (JStr (from_latin1 (b64_encode L (drop (8 + size) f))))"
proof -
  define size where "size = unat (from_be32 (take 4 (drop 4 f)))"
  from assms obtain header where
    a: "take 4 f = frame_magic" "0 < size" "size \<le> maximum_header" "8 + size < length f"
      "length f - 8 - size \<le> maximum_payload"
      "json_parse L (take size (drop 8 f)) = Some (JObj header)"
    by (auto simp: frame_decode_def Let_def size_def [symmetric]
        split: if_splits option.splits json.splits)
  define path where "path = int_or (-1) (jval header ''path'')"
  from assms a have b: "object_size header = 2" "0 \<le> path" "path < 3"
      "is_object (jval header ''message'')"
    by (auto simp: frame_decode_def Let_def size_def [symmetric] path_def split: if_splits)
  define msg i where "msg = to_object (jval header ''message'')" and "i = nat path"
  have m: "jval header ''message'' = JObj msg" using b(4) by (simp add: msg_def is_objectD)
  from b(2) have num: "jval header ''path'' = JNum (of_nat i)"
    by (cases "jval header ''path''")
      (auto simp: path_def i_def of_nat_nat split: if_splits)
  from assms a obtain par where
    "parent_object msg (frame_paths ! i) = Some par" "\<not> contains par ''data''"
    "frame_decode L f = replace_at msg (frame_paths ! i)
       (JStr (from_latin1 (b64_encode L (drop (8 + size) f))))"
    by (auto simp: frame_decode_def Let_def size_def [symmetric] path_def [symmetric]
        msg_def [symmetric] i_def [symmetric] split: if_splits option.splits)
  moreover have "i < 3" using b(3) by (simp add: i_def)
  ultimately show thesis using that a b(1) m num by blast
qed

section \<open>Properties\<close>

text \<open>
  C10: decoding the frame that was encoded gives back the message, whatever field was taken
  out of it. Used of the libraries: the Base64 alphabet has no question mark, empty text is
  not JSON, and the header object survives being printed and parsed.
\<close>

theorem frame_roundtrip:
  assumes "frame_encode L m \<noteq> []"
    and "\<forall>d. byte_of CHR ''?'' \<notin> set (b64_encode L d)"
    and "json_parse L [] = None"
    and "\<forall>i<3. json_parse L (json_compact L (JObj (frame_header m i)))
           = Some (JObj (frame_header m i))"
  shows "frame_decode L (frame_encode L m) = m"
proof -
  obtain i d h where i: "i < 3" and fld: "frame_field L m (frame_paths ! i) = Some d"
    and h: "h = json_compact L (JObj (frame_header m i))" "length h \<le> maximum_header"
    and enc: "frame_encode L m = frame_magic @ to_be32 (word_of_nat (length h)) @ h @ d"
    by (rule frame_encode_cases [OF assms(1)])
  obtain q where q: "frame_paths ! i = q @ [''data'']"
    using frame_paths_data [OF frame_paths_nth [OF i]] by blast
  from frame_field_Some [OF fld] obtain s where
    s: "at_path m (frame_paths ! i) = JStr s" "to_latin1 s = b64_encode L d"
    and d: "d \<noteq> []" "length d \<le> maximum_payload" by blast
  have body: "from_latin1 (b64_encode L d) = s"
    using from_to_latin1 [of s] assms(2) s(2) by metis
  have parse: "json_parse L h = Some (JObj (frame_header m i))" using assms(4) i h(1) by blast
  with assms(3) have "h \<noteq> []" by auto
  moreover obtain par where "parent_object (replace_at m (frame_paths ! i) JUndefined)
      (frame_paths ! i) = Some par" "\<not> contains par ''data''"
    using parent_after_removal [of m q "''data''" s] s(1) q by auto
  moreover have "replace_at (replace_at m (frame_paths ! i) JUndefined) (frame_paths ! i) (JStr s) = m"
    using s(1) q by (intro replace_at_undo) auto
  ultimately show ?thesis
    using i h(2) d parse
    by (simp add: frame_decode_def enc Let_def from_to_be32 unat_header_size body)
qed

text \<open>
  a frame that decodes to anything carries the magic, a header of 1 to 65536 bytes that
  parses to an object with exactly the two members, and a body of 1 to 262144 bytes; the
  decoded message is the header's message with one of the three fields, absent there, set to
  the Base64 text of that body and nothing else changed.
\<close>

theorem frame_decode_sound:
  assumes "frame_decode L f \<noteq> fmempty"
  shows "\<exists>size header msg p. take 4 f = frame_magic \<and> 1 \<le> size \<and> size \<le> 65536
    \<and> 1 \<le> length (drop (8 + size) f) \<and> length (drop (8 + size) f) \<le> 262144
    \<and> json_parse L (take size (drop 8 f)) = Some (JObj header) \<and> object_size header = 2
    \<and> jval header ''message'' = JObj msg \<and> p \<in> set frame_paths
    \<and> at_path (frame_decode L f) p = JStr (from_latin1 (b64_encode L (drop (8 + size) f)))
    \<and> replace_at (frame_decode L f) p JUndefined = msg"
proof -
  obtain size header msg i par where
    a: "take 4 f = frame_magic" "0 < size" "size \<le> maximum_header" "8 + size < length f"
      "length f - 8 - size \<le> maximum_payload"
      "json_parse L (take size (drop 8 f)) = Some (JObj header)" "object_size header = 2"
      "i < 3" "jval header ''message'' = JObj msg"
    and par: "parent_object msg (frame_paths ! i) = Some par" "\<not> contains par ''data''"
    and dec: "frame_decode L f = replace_at msg (frame_paths ! i)
       (JStr (from_latin1 (b64_encode L (drop (8 + size) f))))"
    by (rule frame_decode_cases [OF assms])
  obtain q where q: "frame_paths ! i = q @ [''data'']"
    using frame_paths_data [OF frame_paths_nth [OF a(8)]] by blast
  have "at_path (frame_decode L f) (frame_paths ! i)
      = JStr (from_latin1 (b64_encode L (drop (8 + size) f)))"
    unfolding dec by (rule at_replace) (simp add: q)
  moreover have "replace_at (frame_decode L f) (frame_paths ! i) JUndefined = msg"
    unfolding dec q by (rule replace_then_remove) (use par q in auto)
  ultimately show ?thesis
    using a frame_paths_nth [OF a(8)]
    by (intro exI [of _ size] exI [of _ header] exI [of _ msg] exI [of _ "frame_paths ! i"])
      (simp add: maximum_header_def maximum_payload_def)
qed

text \<open>
  Whatever \<open>send\<close> puts on a socket is bounded: a binary frame has 9 to 327688 bytes, a
  text message at most one mebibyte of JSON, and neither is sent on a socket that is missing,
  not connected or has more than four mebibytes queued; binary frames need the negotiated
  property.
\<close>

theorem send_bounded:
  "case send L (frame_encode L) s m of
     SendBinary f \<Rightarrow> 9 \<le> length f \<and> length f \<le> 327688
       \<and> (\<exists>v. s = Some v \<and> view_connected v \<and> view_binary v \<and> view_queued v \<le> 4194304)
   | SendText t \<Rightarrow> (\<exists>b. t = from_utf8 L b \<and> length b \<le> 1048576)
       \<and> (\<exists>v. s = Some v \<and> view_connected v \<and> view_queued v \<le> 4194304)
   | CloseOverflow \<Rightarrow> (\<exists>v. s = Some v \<and> view_connected v)
   | NotConnected \<Rightarrow> s = None \<or> (\<exists>v. s = Some v \<and> \<not> view_connected v)"
proof (cases "send L (frame_encode L) s m")
  case NotConnected
  then show ?thesis by (auto simp: send_def Let_def split: option.splits if_splits)
next
  case CloseOverflow
  then show ?thesis by (auto simp: send_def Let_def split: option.splits if_splits)
next
  case (SendBinary f)
  have "9 \<le> length f \<and> length f \<le> 327688
      \<and> (\<exists>v. s = Some v \<and> view_connected v \<and> view_binary v \<and> view_queued v \<le> 4194304)"
    using SendBinary frame_encode_bounds [of L m]
    by (auto simp: send_binary_iff wire_limit_def maximum_header_def maximum_payload_def)
  then show ?thesis by (simp add: SendBinary)
next
  case (SendText t)
  have "\<exists>b. t = from_utf8 L b \<and> length b \<le> 1048576"
    using send_text_bound [OF SendText] by (auto simp: wire_limit_def)
  moreover have "\<exists>v. s = Some v \<and> view_connected v \<and> view_queued v \<le> 4194304"
    using send_requires_connection [of L "frame_encode L" s m f t for f] SendText
    by (auto simp: wire_limit_def)
  ultimately show ?thesis by (simp add: SendText)
qed

section \<open>Example instances\<close>

lemma hex_digit_not_question: "x < 16 \<Longrightarrow> hex_digit x \<noteq> 63"
proof -
  assume "x < 16"
  then have u: "unat x < 16" by (simp add: word_less_nat_alt)
  then have "unat (hex_digit x) \<noteq> 63"
    by (auto simp: hex_digit_def unat_word_ariths word_less_nat_alt)
  then show ?thesis by auto
qed

lemma to_hex_not_question: "byte_of CHR ''?'' \<notin> set (to_hex d)"
proof -
  have q: "byte_of CHR ''?'' = 63" by (simp add: byte_of_def)
  have d: "x div 16 < 16" "x mod 16 < 16" for x :: "8 word"
    using byte_less [of x] by (simp_all add: word_less_nat_alt unat_div unat_mod)
  show ?thesis unfolding q to_hex_def
    using hex_digit_not_question [OF d(1)] hex_digit_not_question [OF d(2)] by fastforce
qed

definition demo_frame_message :: jobject where
  "demo_frame_message =
     jobj [(''type'', jtext ''response''), (''result'', JObj (jobj [(''data'', jtext ''0102'')]))]"

definition demo_frame_lib :: lib where
  "demo_frame_lib = demo_lib\<lparr>b64_encode := to_hex,
     b64_decode := (\<lambda>t. if t = bs ''0102'' then Some [1, 2] else None),
     json_compact := (\<lambda>j. [word_of_int (int_or (-1) (jval (to_object j) ''path'') + 1)]),
     json_parse := (\<lambda>b. if b = [1] then Some (JObj (frame_header demo_frame_message 0))
       else if b = [2] then Some (JObj (frame_header demo_frame_message 1))
       else if b = [3] then Some (JObj (frame_header demo_frame_message 2)) else None)\<rparr>"

lemma demo_frame_lib_reads [simp]:
  "b64_encode demo_frame_lib = to_hex"
  "b64_decode demo_frame_lib t = (if t = bs ''0102'' then Some [1, 2] else None)"
  "json_compact demo_frame_lib j = [word_of_int (int_or (-1) (jval (to_object j) ''path'') + 1)]"
  "json_parse demo_frame_lib b = (if b = [1] then Some (JObj (frame_header demo_frame_message 0))
     else if b = [2] then Some (JObj (frame_header demo_frame_message 1))
     else if b = [3] then Some (JObj (frame_header demo_frame_message 2)) else None)"
  by (simp_all add: demo_frame_lib_def)

lemma demo_to_latin1: "to_latin1 (qs ''0102'') = bs ''0102''"
  by (simp add: to_latin1_def qs_def bs_def unit_of_def byte_of_def)

lemma demo_to_hex: "to_hex [1, 2] = bs ''0102''"
  by (simp add: to_hex_def hex_digit_def bs_def byte_of_def)

lemma demo_frame_pick: "frame_pick demo_frame_lib demo_frame_message = Some (2, [1, 2])"
  by (simp add: frame_pick_def frame_paths_def frame_field_def
      demo_frame_message_def demo_to_latin1 demo_to_hex maximum_payload_def)

lemma demo_frame_encode:
  "frame_encode demo_frame_lib demo_frame_message = frame_magic @ [0, 0, 0, 1, 3, 1, 2]"
  by (simp add: frame_encode_def demo_frame_pick frame_header_reads
      maximum_header_def to_be32_def)

theorem frame_roundtrip_witness:
  "frame_decode demo_frame_lib (frame_encode demo_frame_lib demo_frame_message)
     = demo_frame_message"
proof (rule frame_roundtrip)
  show "frame_encode demo_frame_lib demo_frame_message \<noteq> []" by (simp add: demo_frame_encode)
  show "\<forall>d. byte_of CHR ''?'' \<notin> set (b64_encode demo_frame_lib d)"
    by (simp add: to_hex_not_question)
  show "json_parse demo_frame_lib [] = None" by simp
  have "(i :: nat) < 3 \<longleftrightarrow> i = 0 \<or> i = 1 \<or> i = 2" for i by auto
  then show "\<forall>i<3. json_parse demo_frame_lib
      (json_compact demo_frame_lib (JObj (frame_header demo_frame_message i)))
      = Some (JObj (frame_header demo_frame_message i))"
    by (auto simp: frame_header_reads)
qed

theorem frame_decode_sound_witness:
  "\<exists>size header msg p. take 4 (frame_magic @ [0, 0, 0, 1, 3, 1, 2 :: 8 word]) = frame_magic
    \<and> 1 \<le> size \<and> size \<le> 65536
    \<and> 1 \<le> length (drop (8 + size) (frame_magic @ [0, 0, 0, 1, 3, 1, 2 :: 8 word]))
    \<and> length (drop (8 + size) (frame_magic @ [0, 0, 0, 1, 3, 1, 2 :: 8 word])) \<le> 262144
    \<and> json_parse demo_frame_lib (take size (drop 8 (frame_magic @ [0, 0, 0, 1, 3, 1, 2])))
        = Some (JObj header) \<and> object_size header = 2
    \<and> jval header ''message'' = JObj msg \<and> p \<in> set frame_paths
    \<and> at_path (frame_decode demo_frame_lib (frame_magic @ [0, 0, 0, 1, 3, 1, 2])) p
        = JStr (from_latin1 (b64_encode demo_frame_lib
            (drop (8 + size) (frame_magic @ [0, 0, 0, 1, 3, 1, 2]))))
    \<and> replace_at (frame_decode demo_frame_lib (frame_magic @ [0, 0, 0, 1, 3, 1, 2])) p JUndefined
        = msg"
proof (rule frame_decode_sound)
  have "jval (frame_decode demo_frame_lib (frame_magic @ [0, 0, 0, 1, 3, 1, 2])) ''type''
      = jtext ''response''"
    by (simp add: frame_decode_def from_be32_def maximum_header_def maximum_payload_def
        frame_paths_def frame_header_def demo_frame_message_def contains_def jinsert_def
        jobj_def object_size_def fcard_finsert_if jval_def)
  then show "frame_decode demo_frame_lib (frame_magic @ [0, 0, 0, 1, 3, 1, 2]) \<noteq> fmempty"
    by auto
qed

end
