(* ===== verification/PairingLink.thy ===== *)
theory PairingLink
  imports Protocol
begin

text \<open>
  \<open>src/PairingLink.cpp\<close>: the untrusted text of a pairing QR code. \<open>link_decode\<close> accepts a
  strict \<open>society://pair\<close> URL with exactly the four query items and a valid relay endpoint,
  host identifier and code; \<open>link_encode\<close> prints a valid link. The URL syntax itself is Qt's.
\<close>

record link =
  l_relay :: qurl
  l_host :: qstring
  l_code :: qstring

definition link_valid :: "lib \<Rightarrow> link \<Rightarrow> bool" where
  "link_valid L l \<longleftrightarrow>
     endpoint L (l_relay l) ''wss'' ''ws'' \<and> identifier_ok (l_host l) \<and> hex_token (l_code l)"

definition link_items :: "lib \<Rightarrow> link \<Rightarrow> (qstring \<times> qstring) list" where
  "link_items L l =
     [(qs ''v'', qs ''1''),
      (qs ''relay'', from_latin1 (percent_encode L (from_latin1 (url_encoded (l_relay l))))),
      (qs ''host'', l_host l), (qs ''code'', l_code l)]"

text \<open>The empty text stands for a link that is invalid or too long.\<close>

definition link_encode :: "lib \<Rightarrow> link \<Rightarrow> qstring" where
  "link_encode L l =
     (if \<not> link_valid L l then []
      else let t = url_with_query L (qs ''society://pair'') (link_items L l)
           in if length t \<le> 2048 then t else [])"

text \<open>\<open>queryItemValue\<close>: the first item of that key, empty when there is none.\<close>

definition query_value :: "(qstring \<times> qstring) list \<Rightarrow> string \<Rightarrow> qstring" where
  "query_value items k = (case map_of items (qs k) of Some v \<Rightarrow> v | None \<Rightarrow> [])"

definition link_keys :: "qstring set" where
  "link_keys = {qs ''v'', qs ''relay'', qs ''host'', qs ''code''}"

definition link_decode :: "lib \<Rightarrow> qstring \<Rightarrow> link option" where
  "link_decode L t =
     (if length t > 2048 then None
      else
        let url = parse_url_strict L t; items = url_query_items url in
        if \<not> url_valid url \<or> url_scheme url \<noteq> qs ''society'' \<or> url_host url \<noteq> qs ''pair''
           \<or> url_path url \<noteq> [] \<or> url_user_info url \<noteq> [] \<or> url_port url \<noteq> -1
           \<or> url_has_fragment url then None
        else if length items \<noteq> 4 \<or> set (map fst items) \<noteq> link_keys
                \<or> query_value items ''v'' \<noteq> qs ''1'' then None
        else
          let candidate = \<lparr>l_relay = parse_url_strict L (query_value items ''relay''),
                l_host = query_value items ''host'', l_code = query_value items ''code''\<rparr>
          in if link_valid L candidate then Some candidate else None)"

section \<open>Facts\<close>

lemma card_link_keys: "card link_keys = 4"
  by (simp add: link_keys_def)

lemma four_keys_distinct:
  assumes "length items = 4" "set (map fst items) = link_keys"
  shows "distinct (map fst items)"
  using assms card_link_keys by (intro card_distinct) simp

text \<open>A decoded link as the branch conditions of \<open>link_decode\<close> describe it.\<close>

lemma link_decode_SomeD:
  assumes "link_decode L t = Some l"
  shows "length t \<le> 2048" "link_valid L l" "url_scheme (parse_url_strict L t) = qs ''society''"
    "url_host (parse_url_strict L t) = qs ''pair''" "url_path (parse_url_strict L t) = []"
    "\<not> url_has_fragment (parse_url_strict L t)" "url_user_info (parse_url_strict L t) = []"
    "url_port (parse_url_strict L t) = -1"
    "length (url_query_items (parse_url_strict L t)) = 4"
    "set (map fst (url_query_items (parse_url_strict L t))) = link_keys"
    "l = \<lparr>l_relay = parse_url_strict L (query_value (url_query_items (parse_url_strict L t)) ''relay''),
          l_host = query_value (url_query_items (parse_url_strict L t)) ''host'',
          l_code = query_value (url_query_items (parse_url_strict L t)) ''code''\<rparr>"
  using assms by (auto simp: link_decode_def Let_def split: if_splits)

text \<open>
  A text that decodes as a pairing link is at most 2048 characters of a
  \<open>society://pair\<close> URL without path, port, user or fragment, has each of the four query
  items exactly once, and names a host identifier, a code of 64 lower-case hex digits, and a
  relay endpoint that is \<open>wss\<close> or, on a literal loopback address only, \<open>ws\<close>.
\<close>

theorem link_decode_strict:
  assumes "link_decode L t = Some l"
  shows "length t \<le> 2048 \<and> url_scheme (parse_url_strict L t) = qs ''society''
    \<and> url_host (parse_url_strict L t) = qs ''pair'' \<and> url_path (parse_url_strict L t) = []
    \<and> \<not> url_has_fragment (parse_url_strict L t) \<and> url_user_info (parse_url_strict L t) = []
    \<and> distinct (map fst (url_query_items (parse_url_strict L t)))
    \<and> set (url_query_items (parse_url_strict L t)) = {(qs ''v'', qs ''1''),
        (qs ''relay'', query_value (url_query_items (parse_url_strict L t)) ''relay''),
        (qs ''host'', l_host l), (qs ''code'', l_code l)}
    \<and> identifier_ok (l_host l) \<and> hex_token (l_code l)
    \<and> (url_scheme (l_relay l) = qs ''wss''
       \<or> (url_scheme (l_relay l) = qs ''ws'' \<and> loopback L (url_host (l_relay l))))"
proof -
  let ?items = "url_query_items (parse_url_strict L t)"
  note d = link_decode_SomeD [OF assms]
  have dist: "distinct (map fst ?items)" by (rule four_keys_distinct [OF d(9,10)])
  have v1: "query_value ?items ''v'' = qs ''1''"
    using assms by (auto simp: link_decode_def Let_def split: if_splits)
  have val: "(qs k, query_value ?items k) \<in> set ?items" if key: "qs k \<in> link_keys" for k
  proof -
    have "qs k \<in> fst ` set ?items" using key d(10) by simp
    then obtain v where "(qs k, v) \<in> set ?items" by force
    then show ?thesis using dist by (simp add: query_value_def)
  qed
  have uniq: "v = query_value ?items k" if "(qs k, v) \<in> set ?items" for k v
    using that dist by (simp add: query_value_def)
  have "set ?items = {(qs ''v'', qs ''1''), (qs ''relay'', query_value ?items ''relay''),
        (qs ''host'', query_value ?items ''host''), (qs ''code'', query_value ?items ''code'')}"
  proof
    show "set ?items \<subseteq> {(qs ''v'', qs ''1''), (qs ''relay'', query_value ?items ''relay''),
        (qs ''host'', query_value ?items ''host''), (qs ''code'', query_value ?items ''code'')}"
    proof
      fix e assume e: "e \<in> set ?items"
      then have "fst e \<in> set (map fst ?items)" by simp
      then have "fst e \<in> link_keys" by (simp only: d(10))
      then consider "fst e = qs ''v''" | "fst e = qs ''relay''" | "fst e = qs ''host''"
        | "fst e = qs ''code''" by (auto simp: link_keys_def)
      then show "e \<in> {(qs ''v'', qs ''1''), (qs ''relay'', query_value ?items ''relay''),
        (qs ''host'', query_value ?items ''host''), (qs ''code'', query_value ?items ''code'')}"
        using e uniq v1 by cases (cases e; simp)+
    qed
  qed (use val [of "''v''"] val [of "''relay''"] val [of "''host''"] val [of "''code''"] v1
      in \<open>simp add: link_keys_def\<close>)
  moreover have "l_host l = query_value ?items ''host''" "l_code l = query_value ?items ''code''"
    using d(11) by simp_all
  ultimately show ?thesis
    using d(1-8) dist unfolding link_valid_def endpoint_def by simp
qed

text \<open>
  Decoding the text of a link that was encoded gives the link back. Used of Qt's URL
  class: the text it prints for four query items parses, strictly, to a URL with those parts
  and the percent-decoded items, and an encoded relay URL parses back to itself.
\<close>

theorem link_roundtrip:
  assumes "link_encode L l \<noteq> []"
    and "parse_url_strict L (url_with_query L (qs ''society://pair'') (link_items L l))
      = url \<lparr>url_query_items := map (\<lambda>(k, v). (k, if k = qs ''relay'' then relay else v)) (link_items L l)\<rparr>"
    and "url_valid url" "url_scheme url = qs ''society''" "url_host url = qs ''pair''"
      "url_path url = []" "url_user_info url = []" "url_port url = -1" "\<not> url_has_fragment url"
    and "parse_url_strict L relay = l_relay l"
  shows "link_decode L (link_encode L l) = Some l"
proof -
  have v: "link_valid L l" and
    t: "link_encode L l = url_with_query L (qs ''society://pair'') (link_items L l)"
      "length (link_encode L l) \<le> 2048"
    using assms(1) by (auto simp: link_encode_def Let_def split: if_splits)
  let ?items = "map (\<lambda>(k, v). (k, if k = qs ''relay'' then relay else v)) (link_items L l)"
  have "set (map fst ?items) = link_keys" "length ?items = 4"
    "query_value ?items ''v'' = qs ''1''" "query_value ?items ''relay'' = relay"
    "query_value ?items ''host'' = l_host l" "query_value ?items ''code'' = l_code l"
    by (auto simp: link_items_def link_keys_def query_value_def)
  moreover have "link_valid L \<lparr>l_relay = l_relay l, l_host = l_host l, l_code = l_code l\<rparr>"
    using v by (cases l) simp
  ultimately show ?thesis
    using assms(2-) v t by (simp add: link_decode_def Let_def del: map_map list.map)
qed

section \<open>Example instances\<close>

definition demo_relay_url :: qurl where
  "demo_relay_url = blank_url\<lparr>url_valid := True, url_scheme := qs ''wss'', url_host := qs ''r.example'',
     url_port := 443, url_encoded := bs ''wss:r''\<rparr>"

definition demo_link :: link where
  "demo_link = \<lparr>l_relay = demo_relay_url, l_host = qs ''host'', l_code = replicate 64 97\<rparr>"

definition demo_pair_url :: qurl where
  "demo_pair_url = blank_url\<lparr>url_valid := True, url_scheme := qs ''society'', url_host := qs ''pair''\<rparr>"

definition demo_link_lib :: lib where
  "demo_link_lib = demo_lib\<lparr>parse_url_strict := (\<lambda>t. if t = qs ''wss:r'' then demo_relay_url
     else demo_pair_url\<lparr>url_query_items := link_items demo_lib demo_link\<rparr>)\<rparr>"

lemma demo_link_valid: "link_valid demo_link_lib demo_link"
  by code_simp

lemma demo_link_items: "link_items demo_link_lib demo_link = link_items demo_lib demo_link"
  by (simp add: link_items_def demo_link_lib_def)

lemma demo_link_text: "link_encode demo_link_lib demo_link = qs ''society://pair''"
  by (simp add: link_encode_def Let_def demo_link_valid) (simp add: demo_link_lib_def demo_lib_def)

theorem link_roundtrip_witness:
  "link_decode demo_link_lib (qs ''society://pair'') = Some demo_link"
proof -
  have relay: "from_latin1 (url_encoded (l_relay demo_link)) = qs ''wss:r''"
    and plain: "from_latin1 (to_latin1 (qs ''wss:r'')) = qs ''wss:r''" by code_simp+
  have "link_decode demo_link_lib (link_encode demo_link_lib demo_link) = Some demo_link"
  proof (rule link_roundtrip [where url = demo_pair_url and relay = "qs ''wss:r''"])
    show "parse_url_strict demo_link_lib (url_with_query demo_link_lib (qs ''society://pair'')
        (link_items demo_link_lib demo_link))
      = demo_pair_url \<lparr>url_query_items := map (\<lambda>(k, v). (k, if k = qs ''relay'' then qs ''wss:r'' else v))
          (link_items demo_link_lib demo_link)\<rparr>"
      using relay unfolding demo_link_items
      by (simp add: demo_link_lib_def demo_lib_def link_items_def plain)
    show "link_encode demo_link_lib demo_link \<noteq> []" by (simp add: demo_link_text)
    show "parse_url_strict demo_link_lib (qs ''wss:r'') = l_relay demo_link"
      by (simp add: demo_link_lib_def demo_link_def)
  qed (simp_all add: demo_pair_url_def blank_url_def)
  then show ?thesis by (simp add: demo_link_text)
qed

theorem link_decode_strict_witness:
  "identifier_ok (qs ''host'') \<and> hex_token (replicate 64 97)"
proof -
  have "link_decode demo_link_lib (qs ''society://pair'') = Some demo_link" by code_simp
  from link_decode_strict [OF this] show ?thesis by (simp add: demo_link_def)
qed

end
