(* ===== verification/SessionAuth.thy ===== *)
theory SessionAuth
  imports Protocol
begin

text \<open>
  \<open>src/SessionAuthenticator.cpp\<close>: the authenticator that asks the account service over
  HTTP. A call either completes at once with no account or posts one request whose response
  completes it; the state is the table of requests under way. A completion is identified by
  the number of the call, so that \<open>Done n p\<close> in the log is the invocation of the callback
  of call \<open>n\<close>. The HTTP client drops a request with its entry in the table.
\<close>

record http_request =
  hq_url :: bytes
  hq_method :: string
  hq_headers :: "(string \<times> bytes) list"
  hq_follow :: bool
  hq_cookies :: bool
  hq_proxy :: bool
  hq_timeout :: int
  hq_limit :: nat
  hq_body :: string

record http_response =
  hr_error :: bool \<comment> \<open>\<open>error\<close> is not empty\<close>
  hr_status :: int
  hr_body :: bytes
  hr_type :: qstring

datatype auth_out = Done nat principal | Post qstring http_request

record authenticator =
  a_url :: qurl
  a_requests :: "(qstring, nat) table"
  a_timer :: bool
  a_log :: "auth_out list"

definition new_authenticator :: "qurl \<Rightarrow> authenticator" where
  "new_authenticator url = \<lparr>a_url = url, a_requests = [], a_timer = False, a_log = []\<rparr>"

definition cookie_ok :: "bytes \<Rightarrow> bool" where
  "cookie_ok c \<longleftrightarrow> c \<noteq> [] \<and> length c \<le> 16384 \<and> 13 \<notin> set c \<and> 10 \<notin> set c \<and> 0 \<notin> set c"

definition session_query :: string where
  "session_query = ''{\"query\":\"query AccountSession { accountSession { account { sub } } }\"}''"

definition session_request :: "lib \<Rightarrow> qurl \<Rightarrow> bytes \<Rightarrow> http_request" where
  "session_request L url cookie = \<lparr>hq_url = url_encoded url, hq_method = ''POST'',
     hq_headers = [(''Cookie'', cookie), (''Accept'', bs ''application/json''),
       (''Content-Type'', bs ''application/json''), (''Origin'', url_origin L url)],
     hq_follow = False, hq_cookies = False, hq_proxy = False, hq_timeout = 5000,
     hq_limit = 65536, hq_body = session_query\<rparr>"

definition auth_emit :: "auth_out \<Rightarrow> authenticator \<Rightarrow> authenticator" where
  "auth_emit ev a = a\<lparr>a_log := a_log a @ [ev]\<rparr>"

text \<open>\<open>started\<close>: whether the HTTP client took the request.\<close>

definition authenticate :: "lib \<Rightarrow> qstring \<Rightarrow> bool \<Rightarrow> nat \<Rightarrow> bytes \<Rightarrow> authenticator \<Rightarrow> authenticator" where
  "authenticate L uid started n cookie a =
     (if \<not> endpoint L (a_url a) ''https'' ''http'' \<or> \<not> cookie_ok cookie \<or> length (a_requests a) \<ge> 64
      then auth_emit (Done n no_principal) a
      else
        let a1 = a\<lparr>a_requests := tput uid n (a_requests a)\<rparr>;
            a2 = auth_emit (Post uid (session_request L (a_url a) cookie)) a1
        in if \<not> started
           then auth_emit (Done n no_principal) (a2\<lparr>a_requests := tdel uid (a_requests a2)\<rparr>)
           else a2\<lparr>a_timer := True\<rparr>)"

text \<open>\<open>section(';', 0, 0).trimmed()\<close>, compared ignoring case.\<close>

definition trimmed :: "lib \<Rightarrow> qstring \<Rightarrow> qstring" where
  "trimmed L s = rev (dropWhile (is_space L) (rev (dropWhile (is_space L) s)))"

definition json_type :: "lib \<Rightarrow> qstring \<Rightarrow> bool" where
  "json_type L t \<longleftrightarrow>
     fold_case L (trimmed L (takeWhile (\<lambda>u. u \<noteq> unit_of CHR '';'') t))
       = fold_case L (qs ''application/json'')"

definition response_ok :: "lib \<Rightarrow> http_response \<Rightarrow> bool" where
  "response_ok L r \<longleftrightarrow>
     \<not> hr_error r \<and> hr_status r = 200 \<and> length (hr_body r) \<le> 65536 \<and> json_type L (hr_type r)"

definition parsed_object :: "lib \<Rightarrow> bytes \<Rightarrow> jobject" where
  "parsed_object L b = (case json_parse L b of Some v \<Rightarrow> to_object v | None \<Rightarrow> fmempty)"

definition response_account :: "lib \<Rightarrow> bytes \<Rightarrow> qstring" where
  "response_account L body =
     (let envelope = parsed_object L body;
          account = (if contains envelope ''errors'' then fmempty
            else to_object (jval (to_object (jval (to_object (jval envelope ''data''))
              ''accountSession'')) ''account''))
      in to_string (jval account ''sub''))"

definition response_principal :: "lib \<Rightarrow> msecs \<Rightarrow> http_response \<Rightarrow> principal" where
  "response_principal L t r =
     (if response_ok L r then
        let p = \<lparr>account_id = response_account L (hr_body r), expires_at = t + 60000\<rparr>
        in if live t p then p else no_principal
      else no_principal)"

definition auth_response :: "lib \<Rightarrow> msecs \<Rightarrow> qstring \<Rightarrow> http_response \<Rightarrow> authenticator \<Rightarrow> authenticator" where
  "auth_response L t uid r a =
     (case tget (a_requests a) uid of
        None \<Rightarrow> a
      | Some n \<Rightarrow>
          let a1 = a\<lparr>a_requests := tdel uid (a_requests a)\<rparr>;
              a2 = (if a_requests a1 = [] then a1\<lparr>a_timer := False\<rparr> else a1)
          in auth_emit (Done n (response_principal L t r)) a2)"

datatype auth_event =
    Call qstring bool nat bytes
  | Respond msecs qstring http_response

fun auth_step :: "lib \<Rightarrow> auth_event \<Rightarrow> authenticator \<Rightarrow> authenticator" where
  "auth_step L (Call uid started n cookie) a = authenticate L uid started n cookie a"
| "auth_step L (Respond t uid r) a = auth_response L t uid r a"

text \<open>A request identifier is new when it is made.\<close>

fun auth_event_ok :: "auth_event \<Rightarrow> authenticator \<Rightarrow> bool" where
  "auth_event_ok (Call uid started n cookie) a = (\<not> has_key (a_requests a) uid)"
| "auth_event_ok (Respond t uid r) a = True"

inductive auth_reach :: "lib \<Rightarrow> nat list \<Rightarrow> authenticator \<Rightarrow> bool" for L where
  auth_start: "auth_reach L [] (new_authenticator url)"
| auth_call: "auth_reach L ns a \<Longrightarrow> auth_event_ok (Call uid started n cookie) a \<Longrightarrow>
     auth_reach L (n # ns) (auth_step L (Call uid started n cookie) a)"
| auth_answer: "auth_reach L ns a \<Longrightarrow> auth_reach L ns (auth_step L (Respond t uid r) a)"

section \<open>Every call completes once\<close>

definition completions :: "authenticator \<Rightarrow> nat \<Rightarrow> nat" where
  "completions a n = length (filter (\<lambda>ev. case ev of Done k p \<Rightarrow> k = n | _ \<Rightarrow> False) (a_log a))"

definition under_way :: "authenticator \<Rightarrow> nat \<Rightarrow> nat" where
  "under_way a n = length (filter (\<lambda>(k, m). m = n) (a_requests a))"

definition auth_inv :: "nat list \<Rightarrow> authenticator \<Rightarrow> bool" where
  "auth_inv ns a \<longleftrightarrow> table_ok (a_requests a) \<and> length (a_requests a) \<le> 64
     \<and> (a_timer a \<longleftrightarrow> a_requests a \<noteq> [])
     \<and> (\<forall>n. completions a n + under_way a n = count_list ns n)"

lemma completions_emit [simp]:
  "completions (auth_emit (Done k p) a) n = completions a n + (if k = n then 1 else 0)"
  "completions (auth_emit (Post uid q) a) n = completions a n"
  "completions (a\<lparr>a_requests := rs\<rparr>) n = completions a n"
  "completions (a\<lparr>a_timer := b\<rparr>) n = completions a n"
  by (simp_all add: completions_def auth_emit_def)

lemma under_way_simps [simp]:
  "under_way (auth_emit ev a) n = under_way a n" "under_way (a\<lparr>a_timer := b\<rparr>) n = under_way a n"
  by (simp_all add: under_way_def auth_emit_def)

lemma auth_emit_fields [simp]:
  "a_requests (auth_emit ev a) = a_requests a" "a_timer (auth_emit ev a) = a_timer a"
  "a_url (auth_emit ev a) = a_url a"
  by (simp_all add: auth_emit_def)

lemma tdel_tput_fresh: "\<not> has_key t k \<Longrightarrow> tdel k (tput k v t) = t"
  using tdel_absent [of t k] by (simp add: tput_fresh tdel_filter has_key_def)

lemma auth_inv_call:
  assumes inv: "auth_inv ns a" and new: "\<not> has_key (a_requests a) uid"
  shows "auth_inv (n # ns) (authenticate L uid started n cookie a)" (is "auth_inv _ ?a")
proof -
  have one: "under_way (a\<lparr>a_requests := tput uid n (a_requests a)\<rparr>) m
      = under_way a m + (if m = n then 1 else 0)" for m
    using new by (simp add: under_way_def tput_fresh)
  have len: "length (tput uid n (a_requests a)) = Suc (length (a_requests a))"
    "tput uid n (a_requests a) \<noteq> []"
    using new by (simp_all add: length_tput tput_fresh)
  have count: "completions a m + under_way a m = count_list ns m" for m
    using inv by (simp add: auth_inv_def)
  have "completions ?a m + under_way ?a m = count_list (n # ns) m" for m
    using count [of m] one [of m] new
    by (auto simp: authenticate_def Let_def tdel_tput_fresh under_way_def split: if_splits)
  moreover have "table_ok (a_requests ?a) \<and> length (a_requests ?a) \<le> 64
      \<and> (a_timer ?a \<longleftrightarrow> a_requests ?a \<noteq> [])"
    using inv new len by (auto simp: auth_inv_def authenticate_def Let_def tdel_tput_fresh)
  ultimately show ?thesis by (simp add: auth_inv_def)
qed

lemma length_filter_tdel_split:
  "table_ok t \<Longrightarrow> tget t k = Some v \<Longrightarrow>
     length (filter f t) = length (filter f (tdel k t)) + (if f (k, v) then 1 else 0)"
proof (induction t)
  case (Cons e t)
  show ?case
  proof (cases "fst e = k")
    case True
    then have "tget t k = None" "e = (k, v)"
      using Cons.prems by (cases e; auto simp: table_ok_def tkeys_def tget_def map_of_eq_None_iff)+
    moreover have "tdel k (e # t) = tdel k t" using True by (simp add: tdel_filter)
    ultimately show ?thesis by (simp add: tdel_absent)
  next
    case False
    then have "tdel k (e # t) = e # tdel k t" "tget t k = Some v" "table_ok t"
      using Cons.prems by (cases e; simp add: tdel_filter tget_Cons table_ok_def tkeys_def)+
    then show ?thesis using Cons.IH by simp
  qed
qed simp

lemma auth_inv_answer:
  assumes "auth_inv ns a"
  shows "auth_inv ns (auth_response L t uid r a)"
proof (cases "tget (a_requests a) uid")
  case None
  then show ?thesis using assms by (simp add: auth_response_def)
next
  case (Some n)
  have tab: "table_ok (a_requests a)" using assms by (simp add: auth_inv_def)
  let ?a = "auth_response L t uid r a"
  have one: "under_way a m = length (filter (\<lambda>(k, j). j = m) (tdel uid (a_requests a)))
      + (if m = n then 1 else 0)" for m
    using length_filter_tdel_split [OF tab Some, of "\<lambda>(k, j). j = m"] by (simp add: under_way_def)
  have count: "completions a m + under_way a m = count_list ns m" for m
    using assms by (simp add: auth_inv_def)
  have "completions ?a m + under_way ?a m = count_list ns m" for m
    using count [of m] one [of m] Some
    by (auto simp: auth_response_def Let_def under_way_def split: if_splits)
  moreover have "length (tdel uid (a_requests a)) \<le> 64" "a_requests a \<noteq> []"
    using assms Some length_tdel_le [of uid "a_requests a"] by (auto simp: auth_inv_def)
  then have "table_ok (a_requests ?a) \<and> length (a_requests ?a) \<le> 64
      \<and> (a_timer ?a \<longleftrightarrow> a_requests ?a \<noteq> [])"
    using assms Some by (auto simp: auth_inv_def auth_response_def Let_def)
  ultimately show ?thesis by (simp add: auth_inv_def)
qed

text \<open>
  Every call of the authenticator completes exactly once: in every reachable state the
  number of completions of a call and the number of its requests under way add up to the
  number of times it was made. At most 64 requests are under way, and the poll timer runs
  exactly while there is one.
\<close>

theorem authenticate_completes_once:
  assumes "auth_reach L ns a"
  shows "length (a_requests a) \<le> 64 \<and> (a_timer a \<longleftrightarrow> a_requests a \<noteq> [])
    \<and> completions a n + under_way a n = count_list ns n"
proof -
  have "auth_inv ns a" using assms
  proof induction
    case (auth_start url)
    then show ?case
      by (simp add: auth_inv_def new_authenticator_def completions_def under_way_def)
  next
    case (auth_call ns a uid started n cookie)
    then show ?case by (simp add: auth_inv_call)
  next
    case (auth_answer ns a t uid r)
    then show ?case by (simp add: auth_inv_answer)
  qed
  then show ?thesis by (simp add: auth_inv_def)
qed

section \<open>What an account rests on\<close>

lemma response_principal_cases:
  "response_principal L t r = no_principal
   \<or> (response_ok L r \<and> live t (response_principal L t r) \<and> expires_at (response_principal L t r) = t + 60000
      \<and> account_id (response_principal L t r) = response_account L (hr_body r))"
  by (simp add: response_principal_def Let_def)

lemma response_account_nonempty:
  assumes "response_account L b \<noteq> []"
  shows "\<exists>e d s ac. json_parse L b = Some (JObj e) \<and> \<not> contains e ''errors''
    \<and> jval e ''data'' = JObj d \<and> jval d ''accountSession'' = JObj s
    \<and> jval s ''account'' = JObj ac \<and> jval ac ''sub'' = JStr (response_account L b)"
proof -
  have to_ob: "v = JObj (to_object v)" if "to_object v \<noteq> fmempty" for v
    using that by (cases v) auto
  let ?e = "parsed_object L b"
  let ?d = "to_object (jval ?e ''data'')"
  let ?s = "to_object (jval ?d ''accountSession'')"
  let ?a = "to_object (jval ?s ''account'')"
  have noerr: "\<not> contains ?e ''errors''"
    using assms by (auto simp: response_account_def Let_def)
  then have acc: "response_account L b = to_string (jval ?a ''sub'')"
    by (simp add: response_account_def Let_def)
  have sub: "jval ?a ''sub'' = JStr (response_account L b)"
    using to_string_nonempty assms unfolding acc by metis
  then have "?a \<noteq> fmempty" by (metis jval_fmempty json.distinct(7))
  then have a: "jval ?s ''account'' = JObj ?a" "?s \<noteq> fmempty" using to_ob by force+
  then have s: "jval ?d ''accountSession'' = JObj ?s" "?d \<noteq> fmempty" using to_ob by force+
  then have d: "jval ?e ''data'' = JObj ?d" "?e \<noteq> fmempty" using to_ob by force+
  then obtain v where v: "json_parse L b = Some v" "to_object v \<noteq> fmempty" "?e = to_object v"
    by (auto simp: parsed_object_def split: option.splits)
  then have "json_parse L b = Some (JObj ?e)" using to_ob [of v] by simp
  then show ?thesis using noerr d(1) s(1) a(1) sub by blast
qed

text \<open>
  A call completes with an account only on a response without transport error, with
  status 200 and JSON content, at most 65536 bytes long, whose envelope has no errors and
  names the account at \<open>data.accountSession.account.sub\<close> as a text of 1 to 256 characters;
  the account is then valid for exactly 60 seconds from the response.
\<close>

theorem account_needs_response:
  assumes "a_log (auth_step L ev a) = a_log a @ [Done n p]" and "p \<noteq> no_principal"
  shows "\<exists>t uid r e d s ac. ev = Respond t uid r \<and> tget (a_requests a) uid = Some n
    \<and> \<not> hr_error r \<and> hr_status r = 200 \<and> length (hr_body r) \<le> 65536 \<and> json_type L (hr_type r)
    \<and> json_parse L (hr_body r) = Some (JObj e) \<and> \<not> contains e ''errors''
    \<and> jval e ''data'' = JObj d \<and> jval d ''accountSession'' = JObj s
    \<and> jval s ''account'' = JObj ac \<and> jval ac ''sub'' = JStr (account_id p)
    \<and> 1 \<le> length (account_id p) \<and> length (account_id p) \<le> 256 \<and> expires_at p = t + 60000"
proof -
  obtain t uid r where ev: "ev = Respond t uid r"
    using assms by (cases ev) (auto simp: authenticate_def auth_emit_def Let_def split: if_splits)
  then have n: "tget (a_requests a) uid = Some n" and p: "p = response_principal L t r"
    using assms(1) by (auto simp: auth_response_def auth_emit_def Let_def split: option.splits if_splits)
  then have ok: "response_ok L r" "live t p" "expires_at p = t + 60000"
    "account_id p = response_account L (hr_body r)"
    using response_principal_cases [of L t r] assms(2) by auto
  then have "response_account L (hr_body r) \<noteq> []" by (auto dest: live_account)
  from response_account_nonempty [OF this] show ?thesis
    using ev n ok by (simp add: response_ok_def live_def Suc_le_eq)
qed

section \<open>Example instances\<close>

definition demo_envelope :: jobject where
  "demo_envelope = jobj [(''data'', JObj (jobj [(''accountSession'', JObj (jobj
     [(''account'', JObj (jobj [(''sub'', jtext ''acct'')]))]))]))]"

definition demo_auth_lib :: lib where
  "demo_auth_lib = demo_lib\<lparr>json_parse := (\<lambda>b. Some (JObj demo_envelope))\<rparr>"

definition demo_auth_url :: qurl where
  "demo_auth_url = blank_url\<lparr>url_valid := True, url_scheme := qs ''https'', url_host := qs ''id.example'',
     url_port := 443\<rparr>"

definition demo_answer :: http_response where
  "demo_answer = \<lparr>hr_error = False, hr_status = 200, hr_body = [],
     hr_type = qs ''application/json; charset=utf-8''\<rparr>"

definition demo_asked :: authenticator where
  "demo_asked = auth_step demo_auth_lib (Call (qs ''u1'') True 7 [65]) (new_authenticator demo_auth_url)"

definition demo_answered :: authenticator where
  "demo_answered = auth_step demo_auth_lib (Respond 1000 (qs ''u1'') demo_answer) demo_asked"

lemma demo_ok: "endpoint demo_auth_lib demo_auth_url ''https'' ''http''" "cookie_ok [65]"
  by code_simp+

lemma demo_response_ok: "response_ok demo_auth_lib demo_answer"
proof -
  have "json_type demo_auth_lib (hr_type demo_answer)" by code_simp
  then show ?thesis by (simp add: response_ok_def) (simp add: demo_answer_def)
qed

lemma demo_asked_requests: "a_requests demo_asked = [(qs ''u1'', 7)]"
  using demo_ok
  by (simp add: demo_asked_def authenticate_def new_authenticator_def Let_def tput_fresh)

lemma demo_answer_principal: "response_principal demo_auth_lib 1000 demo_answer
    = \<lparr>account_id = qs ''acct'', expires_at = 61000\<rparr>"
proof -
  have "response_account demo_auth_lib (hr_body demo_answer) = qs ''acct''"
  proof -
    have "\<not> contains demo_envelope ''errors''"
      by (simp add: contains_def demo_envelope_def jobj_def jinsert_def)
    then show ?thesis
      by (simp add: response_account_def parsed_object_def demo_auth_lib_def)
        (simp add: demo_envelope_def)
  qed
  then show ?thesis
    using demo_response_ok by (simp add: response_principal_def live_def)
qed

lemma demo_answered_log: "a_log demo_answered = a_log demo_asked
    @ [Done 7 \<lparr>account_id = qs ''acct'', expires_at = 61000\<rparr>]"
  "a_requests demo_answered = []"
  by (simp_all add: demo_answered_def auth_response_def demo_asked_requests tget_Cons Let_def
      demo_answer_principal tdel_filter) (simp_all add: auth_emit_def)

theorem authenticate_completes_once_witness:
  "completions demo_answered 7 + under_way demo_answered 7 = 1 \<and> completions demo_answered 7 = 1"
proof -
  have "auth_reach demo_auth_lib [7] demo_answered"
    unfolding demo_answered_def demo_asked_def
    by (intro auth_answer auth_call auth_start) (simp add: new_authenticator_def)
  moreover have "under_way demo_answered 7 = 0" by (simp add: under_way_def demo_answered_log)
  ultimately show ?thesis using authenticate_completes_once [of demo_auth_lib "[7]" demo_answered 7] by simp
qed

theorem account_needs_response_witness:
  "\<exists>p. a_log demo_answered = a_log demo_asked @ [Done 7 p] \<and> account_id p = qs ''acct''
     \<and> length (account_id p) \<le> 256 \<and> expires_at p = 61000"
proof -
  let ?p = "\<lparr>account_id = qs ''acct'', expires_at = 61000\<rparr>"
  have "?p \<noteq> no_principal" by (simp add: no_principal_def)
  from account_needs_response [OF demo_answered_log(1) [unfolded demo_answered_def] this]
  show ?thesis using demo_answered_log(1) by auto
qed

end
