(* ===== verification/LanLink.thy ===== *)
theory LanLink
  imports Protocol
begin

text \<open>
  \<open>LanLink\<close> of \<open>src/LanPeer.cpp\<close>: the text of a local QR code, and what both sides of a local
  pairing compute from it: the text that account proofs sign, the code people compare, and the
  comparison of one-time codes. The URL syntax, SHA-256 and number parsing are parameters.
\<close>

section \<open>Addresses\<close>

text \<open>\<open>None\<close> of \<open>k_expires\<close> is an invalid \<open>QDateTime\<close>, which orders before every valid one.\<close>

record lan_link =
  k_addresses :: "qstring list"
  k_port :: int
  k_host :: qstring
  k_name :: qstring
  k_fingerprint :: qstring
  k_code :: qstring
  k_expires :: "msecs option"

definition no_link :: lan_link where
  "no_link = \<lparr>k_addresses = [], k_port = 0, k_host = [], k_name = [], k_fingerprint = [], k_code = [],
     k_expires = None\<rparr>"

definition expired :: "msecs option \<Rightarrow> msecs \<Rightarrow> bool" where
  "expired d t = (case d of None \<Rightarrow> True | Some x \<Rightarrow> x \<le> t)"

definition local_address :: "lib \<Rightarrow> qstring \<Rightarrow> bool" where
  "local_address L t =
     (case parse_address L t of
        None \<Rightarrow> False
      | Some a \<Rightarrow>
          if addr_family a \<noteq> Ipv4 \<or> t \<noteq> addr_text a then False
          else
            let b = addr_bytes a in
            addr_loopback a \<or> b ! 0 = 10 \<or> (b ! 0 = 172 \<and> b ! 1 \<ge> 16 \<and> b ! 1 \<le> 31)
            \<or> (b ! 0 = 192 \<and> b ! 1 = 168))"

fun add_address :: "lib \<Rightarrow> interface \<Rightarrow> qstring list \<Rightarrow> qstring list" where
  "add_address L i found =
     (let t = addr_text (if_address i) in
      if \<not> if_loopback i \<and> local_address L t \<and> t \<notin> set found then found @ [t] else found)"

definition lan_addresses :: "lib \<Rightarrow> interface list \<Rightarrow> qstring list" where
  "lan_addresses L is = take 8 (fold (add_address L) is [])"

section \<open>The link\<close>

definition valid_link :: "lib \<Rightarrow> lan_link \<Rightarrow> bool" where
  "valid_link L k \<longleftrightarrow> \<not> (k_addresses k = [] \<or> length (k_addresses k) > 8 \<or> k_port k = 0
      \<or> \<not> identifier_ok (k_host k) \<or> k_name k = [] \<or> length (k_name k) > 128 \<or> \<not> hex_token (k_fingerprint k)
      \<or> \<not> hex_token (k_code k) \<or> k_expires k = None)
    \<and> list_all (local_address L) (k_addresses k)"

definition comma :: qchar where
  "comma = unit_of CHR '',''"

definition lan_items :: "lib \<Rightarrow> lan_link \<Rightarrow> (qstring \<times> qstring) list" where
  "lan_items L k =
     [(qs ''v'', qs ''2''), (qs ''addresses'', join_on comma (k_addresses k)),
      (qs ''port'', number_text (k_port k)), (qs ''host'', k_host k),
      (qs ''name'', from_latin1 (percent_encode L (k_name k))), (qs ''fingerprint'', k_fingerprint k),
      (qs ''code'', k_code k), (qs ''expires'', number_text (case k_expires k of None \<Rightarrow> 0 | Some x \<Rightarrow> x))]"

text \<open>The empty text stands for a link that is invalid.\<close>

definition lan_encode :: "lib \<Rightarrow> lan_link \<Rightarrow> qstring" where
  "lan_encode L k = (if \<not> valid_link L k then [] else url_with_query L (qs ''society://pair'') (lan_items L k))"

definition item_value :: "(qstring \<times> qstring) list \<Rightarrow> string \<Rightarrow> qstring" where
  "item_value items k = (case map_of items (qs k) of Some v \<Rightarrow> v | None \<Rightarrow> [])"

definition lan_keys :: "qstring set" where
  "lan_keys = {qs ''v'', qs ''addresses'', qs ''port'', qs ''host'', qs ''name'', qs ''fingerprint'',
     qs ''code'', qs ''expires''}"

definition lan_decode :: "lib \<Rightarrow> qstring \<Rightarrow> lan_link option" where
  "lan_decode L t =
     (if length t > 2048 then None
      else
        let url = parse_url_strict L t; items = url_query_items url in
        if \<not> url_valid url \<or> url_scheme url \<noteq> qs ''society'' \<or> url_host url \<noteq> qs ''pair''
           \<or> url_path url \<noteq> [] \<or> url_user_info url \<noteq> [] \<or> url_port url \<noteq> -1 \<or> url_has_fragment url then None
        else if length items \<noteq> 8 \<or> set (map fst items) \<noteq> lan_keys \<or> item_value items ''v'' \<noteq> qs ''2'' then None
        else case (to_ushort L (item_value items ''port''), to_longlong L (item_value items ''expires'')) of
            (Some port, Some t) \<Rightarrow>
              let link = \<lparr>k_addresses = split_on comma (item_value items ''addresses''), k_port = port,
                    k_host = item_value items ''host'', k_name = item_value items ''name'',
                    k_fingerprint = item_value items ''fingerprint'', k_code = item_value items ''code'',
                    k_expires = Some t\<rparr>
              in if valid_link L link then Some link else None
          | _ \<Rightarrow> None)"

section \<open>Codes\<close>

definition authentication_context :: "lib \<Rightarrow> lan_link \<Rightarrow> qstring \<Rightarrow> qstring \<Rightarrow> bytes" where
  "authentication_context L k peer nonce =
     json_compact L (JArr [JStr (k_host k), JStr peer, JStr (k_fingerprint k), JStr (k_code k), JStr nonce])"

definition upper_byte :: "8 word \<Rightarrow> 8 word" where
  "upper_byte b = (if 97 \<le> b \<and> b \<le> 122 then b - 32 else b)"

definition transcript :: "lan_link \<Rightarrow> qstring \<Rightarrow> qstring \<Rightarrow> qstring" where
  "transcript k peer nonce =
     k_fingerprint k @ qs '':'' @ k_code k @ qs '':'' @ peer @ qs '':'' @ nonce"

definition grouped :: "bytes \<Rightarrow> bytes" where
  "grouped d = take 4 d @ bs ''-'' @ take 4 (drop 4 d) @ bs ''-'' @ take 4 (drop 8 d)"

definition verification_text :: "lib \<Rightarrow> lan_link \<Rightarrow> qstring \<Rightarrow> qstring \<Rightarrow> qstring" where
  "verification_text L k peer nonce =
     from_latin1 (grouped (map upper_byte (take 12 (to_hex (sha256 L (utf8 L (transcript k peer nonce)))))))"

text \<open>The comparison visits all 64 bytes whatever they hold.\<close>

fun diff_bytes :: "bytes \<Rightarrow> bytes \<Rightarrow> 8 word \<Rightarrow> 8 word" where
  "diff_bytes (x # xs) (y # ys) d = diff_bytes xs ys (or d (xor x y))"
| "diff_bytes _ _ d = d"

definition same_code :: "qstring \<Rightarrow> qstring \<Rightarrow> bool" where
  "same_code a b =
     (let first = to_latin1 a; second = to_latin1 b in
      if length first \<noteq> 64 \<or> length second \<noteq> 64 then False else diff_bytes first second 0 = 0)"

section \<open>Private addresses\<close>

text \<open>The four bytes of an IPv4 address as the number they write.\<close>

definition address_number :: "bytes \<Rightarrow> nat" where
  "address_number b = foldl (\<lambda>v x. 256 * v + unat x) 0 b"

lemma four_bytes: "length b = 4 \<Longrightarrow> \<exists>w x y z. b = [w, x, y, z]"
  by (auto simp: eval_nat_numeral length_Suc_conv)

lemma address_number_four: "address_number [w, x, y, z] = 16777216 * unat w + 65536 * unat x + 256 * unat y + unat z"
  by (simp add: address_number_def)

lemma byte_le_255: "unat (x :: 8 word) \<le> 255"
  using byte_less [of x] by simp

lemma top_digit:
  assumes "q < m" "hi \<le> (m :: nat)"
  shows "(m * n + lo \<le> m * a + q \<and> m * a + q < m * n + hi) = (a = n \<and> lo \<le> q \<and> q < hi)"
proof -
  consider "a < n" | "a = n" | "n < a" by linarith
  then show ?thesis
  proof cases
    case 1
    then have "m * Suc a \<le> m * n" by (intro mult_le_mono) auto
    then show ?thesis using 1 assms by simp
  next
    case 3
    then have "m * Suc n \<le> m * a" by (intro mult_le_mono) auto
    then show ?thesis using 3 assms by simp
  qed simp
qed

lemma private_ranges:
  assumes "a \<le> 255" "b \<le> 255" "c \<le> 255" "d \<le> (255 :: nat)"
  shows "(a = 10 \<or> a = 172 \<and> 16 \<le> b \<and> b \<le> 31 \<or> a = 192 \<and> b = 168) \<longleftrightarrow>
    (167772160 \<le> 16777216 * a + 65536 * b + 256 * c + d \<and> 16777216 * a + 65536 * b + 256 * c + d < 184549376 \<or>
     2886729728 \<le> 16777216 * a + 65536 * b + 256 * c + d \<and> 16777216 * a + 65536 * b + 256 * c + d < 2887778304 \<or>
     3232235520 \<le> 16777216 * a + 65536 * b + 256 * c + d \<and> 16777216 * a + 65536 * b + 256 * c + d < 3232301056)"
proof -
  define r where "r = 256 * c + d"
  have r: "r < 65536" using assms by (simp add: r_def)
  have bs: "(1048576 \<le> 65536 * b + r \<and> 65536 * b + r < 2097152) = (16 \<le> b \<and> b \<le> 31)"
    using r by (safe; linarith)
  have x: "(11010048 \<le> 65536 * b + r \<and> 65536 * b + r < 11075584) = (b = 168)"
    using top_digit [OF r, of 65536 168 0 b] r by simp
  have q: "65536 * b + r < 16777216" using r assms by simp
  show ?thesis
    using top_digit [OF q, of 16777216 10 0 a] top_digit [OF q, of 2097152 172 1048576 a]
      top_digit [OF q, of 11075584 192 11010048 a] bs x q by (simp add: r_def add.assoc)
qed

text \<open>
  The addresses a local link may name are exactly the literal IPv4 addresses in canonical
  form that are loopback or lie in one of the private ranges 10.0.0.0 to 10.255.255.255,
  172.16.0.0 to 172.31.255.255 and 192.168.0.0 to 192.168.255.255.
\<close>

theorem local_address_ranges:
  assumes "parse_address L t = Some a" and "addr_family a = Ipv4" and "length (addr_bytes a) = 4"
  shows "local_address L t \<longleftrightarrow> t = addr_text a
    \<and> (addr_loopback a
       \<or> address_number (addr_bytes a) \<in> {10 * 2 ^ 24 ..< 11 * 2 ^ 24}
           \<union> {172 * 2 ^ 24 + 16 * 2 ^ 16 ..< 172 * 2 ^ 24 + 32 * 2 ^ 16}
           \<union> {192 * 2 ^ 24 + 168 * 2 ^ 16 ..< 192 * 2 ^ 24 + 169 * 2 ^ 16})"
proof -
  obtain w x y z where b: "addr_bytes a = [w, x, y, z]" using four_bytes [OF assms(3)] by blast
  have w: "(w = 10) = (unat w = 10)" "(w = 172) = (unat w = 172)" "(w = 192) = (unat w = 192)"
      "(x = 168) = (unat x = 168)" "(16 \<le> x) = (16 \<le> unat x)" "(x \<le> 31) = (unat x \<le> 31)"
    by (auto simp: word_unat_eq_iff word_le_nat_alt)
  show ?thesis
    using assms(1,2)
    by (simp add: local_address_def b w address_number_four
        private_ranges [OF byte_le_255 byte_le_255 byte_le_255 byte_le_255, of w x y z])
qed

section \<open>One-time codes\<close>

lemma or_xor_zero: "or d (xor x y) = 0 \<longleftrightarrow> d = 0 \<and> x = (y :: 8 word)"
  by (auto simp: bit_eq_iff bit_simps)

lemma diff_bytes_zero: "length a = length b \<Longrightarrow> diff_bytes a b d = 0 \<longleftrightarrow> d = 0 \<and> a = b"
  by (induction a b d rule: diff_bytes.induct) (auto simp: or_xor_zero)

lemma hex_no_question: "is_lower_hex u \<Longrightarrow> u < 256 \<and> ucast u \<noteq> byte_of CHR ''?''"
proof -
  assume "is_lower_hex u"
  then have u: "unat u \<le> 102" "unat u \<noteq> 63"
    by (auto simp: is_lower_hex_def is_digit_def in_range_def)
  then have "unat (ucast u :: 8 word) = unat u" by (simp add: unat_ucast)
  then show ?thesis using u by (auto simp: word_less_nat_alt unat_byte_of word_unat_eq_iff)
qed

lemma hex_latin1_plain: "list_all is_lower_hex b \<Longrightarrow> byte_of CHR ''?'' \<notin> set (to_latin1 b)"
proof (induction b)
  case (Cons u b)
  then have "u < 256" "byte_of CHR ''?'' \<noteq> ucast u" using hex_no_question [of u] by auto
  then show ?case using Cons by (simp add: to_latin1_def)
qed (simp add: to_latin1_def)

lemma hex_latin1_eq:
  assumes "list_all is_lower_hex b"
  shows "to_latin1 a = to_latin1 b \<longleftrightarrow> a = b"
proof
  assume eq: "to_latin1 a = to_latin1 b"
  then have "byte_of CHR ''?'' \<notin> set (to_latin1 a)" using hex_latin1_plain [OF assms] by simp
  then show "a = b" using from_to_latin1 eq hex_latin1_plain [OF assms] by metis
qed simp

text \<open>
  The constant-time comparison accepts exactly the code itself: for the code of an offer,
  64 lower-case hexadecimal digits, no other text is accepted, also none that only differs
  from it in characters outside Latin-1.
\<close>

theorem same_code_exact:
  assumes "hex_token b"
  shows "same_code a b \<longleftrightarrow> a = b"
proof (cases "length a = 64")
  case True
  have b: "length b = 64" "list_all is_lower_hex b" using assms by (simp_all add: hex_token_def)
  have "length (to_latin1 a) = length (to_latin1 b)" by (simp only: length_to_latin1 True b(1))
  from diff_bytes_zero [OF this, of 0] have "same_code a b \<longleftrightarrow> to_latin1 a = to_latin1 b"
    by (simp only: same_code_def Let_def length_to_latin1 True b(1) simp_thms if_False)
  then show ?thesis by (simp only: hex_latin1_eq [OF b(2)])
next
  case False
  then show ?thesis using assms by (auto simp: same_code_def hex_token_def)
qed

section \<open>The compared code\<close>

lemma transcript_inj:
  assumes "length (k_fingerprint k) = length (k_fingerprint k')" "length (k_code k) = length (k_code k')"
    and "length nonce = length nonce'"
  shows "transcript k peer nonce = transcript k' peer' nonce' \<longleftrightarrow>
    k_fingerprint k = k_fingerprint k' \<and> k_code k = k_code k' \<and> peer = peer' \<and> nonce = nonce'"
proof
  let ?c = "qs '':''"
  assume "transcript k peer nonce = transcript k' peer' nonce'"
  then have "k_fingerprint k @ (?c @ k_code k @ ?c @ peer @ ?c @ nonce)
      = k_fingerprint k' @ (?c @ k_code k' @ ?c @ peer' @ ?c @ nonce')" by (simp only: transcript_def)
  then have fp: "k_fingerprint k = k_fingerprint k'"
    and "?c @ (k_code k @ (?c @ peer @ ?c @ nonce)) = ?c @ (k_code k' @ (?c @ peer' @ ?c @ nonce'))"
    using append_eq_append_conv [OF disjI1 [OF assms(1)]] by (simp_all only: simp_thms)
  then have "k_code k @ (?c @ peer @ ?c @ nonce) = k_code k' @ (?c @ peer' @ ?c @ nonce')"
    by (simp only: same_append_eq)
  then have code: "k_code k = k_code k'" and "?c @ (peer @ ?c @ nonce) = ?c @ (peer' @ ?c @ nonce')"
    using append_eq_append_conv [OF disjI1 [OF assms(2)]] by (simp_all only: simp_thms)
  then have "(peer @ ?c) @ nonce = (peer' @ ?c) @ nonce'" by (simp only: same_append_eq append_assoc)
  then have "peer @ ?c = peer' @ ?c \<and> nonce = nonce'"
    using append_eq_append_conv [of "peer @ ?c" "peer' @ ?c" nonce nonce'] assms(3) by blast
  then show "k_fingerprint k = k_fingerprint k' \<and> k_code k = k_code k' \<and> peer = peer' \<and> nonce = nonce'"
    using fp code by (simp only: append_same_eq)
qed (simp add: transcript_def)

lemma valid_link_simps:
  "valid_link L k \<Longrightarrow> hex_token (k_code k) \<and> hex_token (k_fingerprint k) \<and> identifier_ok (k_host k)
     \<and> k_expires k \<noteq> None \<and> k_addresses k \<noteq> []"
  by (simp add: valid_link_def)

lemma local_address_text: "local_address L t \<Longrightarrow> \<exists>a. parse_address L t = Some a \<and> t = addr_text a"
  by (auto simp: local_address_def split: option.splits if_splits)

lemma lan_decode_valid: "lan_decode L t = Some k \<Longrightarrow> valid_link L k"
  by (auto simp: lan_decode_def Let_def split: if_splits option.splits)

text \<open>
  Decoding the text of a local link that was encoded gives the link back. Used of Qt and
  iiNetwork: the text a URL prints for eight query items is at most 2048 characters and parses,
  strictly, to a URL with those parts and the percent-decoded items, numbers read back what
  they print, and no address is printed with a comma.
\<close>

theorem lan_link_roundtrip:
  assumes "lan_encode L k \<noteq> []" and "k_expires k = Some t"
    and "length (url_with_query L (qs ''society://pair'') (lan_items L k)) \<le> 2048"
    and "parse_url_strict L (url_with_query L (qs ''society://pair'') (lan_items L k))
      = url \<lparr>url_query_items := map (\<lambda>(i, v). (i, if i = qs ''name'' then k_name k else v)) (lan_items L k)\<rparr>"
    and "url_valid url" "url_scheme url = qs ''society''" "url_host url = qs ''pair''"
      "url_path url = []" "url_user_info url = []" "url_port url = -1" "\<not> url_has_fragment url"
    and "to_ushort L (number_text (k_port k)) = Some (k_port k)" "to_longlong L (number_text t) = Some t"
    and "\<And>i a. parse_address L i = Some a \<Longrightarrow> comma \<notin> set (addr_text a)"
  shows "lan_decode L (lan_encode L k) = Some k"
proof -
  have v: "valid_link L k" and
    e: "lan_encode L k = url_with_query L (qs ''society://pair'') (lan_items L k)"
    using assms(1) by (auto simp: lan_encode_def split: if_splits)
  let ?items = "map (\<lambda>(i, v). (i, if i = qs ''name'' then k_name k else v)) (lan_items L k)"
  have "\<forall>a\<in>set (k_addresses k). comma \<notin> set a"
    using v assms(14) by (auto simp: valid_link_def list_all_iff dest!: bspec dest: local_address_text)
  then have "split_on comma (join_on comma (k_addresses k)) = k_addresses k"
    using v by (intro split_join) (auto simp: valid_link_def)
  moreover have "set (map fst ?items) = lan_keys" "length ?items = 8"
    "item_value ?items ''v'' = qs ''2''" "item_value ?items ''addresses'' = join_on comma (k_addresses k)"
    "item_value ?items ''port'' = number_text (k_port k)" "item_value ?items ''host'' = k_host k"
    "item_value ?items ''name'' = k_name k" "item_value ?items ''fingerprint'' = k_fingerprint k"
    "item_value ?items ''code'' = k_code k" "item_value ?items ''expires'' = number_text t"
    by (auto simp: lan_items_def lan_keys_def item_value_def assms(2))
  moreover have "k = \<lparr>k_addresses = k_addresses k, k_port = k_port k, k_host = k_host k, k_name = k_name k,
      k_fingerprint = k_fingerprint k, k_code = k_code k, k_expires = Some t\<rparr>" using assms(2) by (cases k) simp
  ultimately show ?thesis
    using assms(3-13) v e by (simp add: lan_decode_def Let_def del: map_map list.map)
qed

section \<open>An example link\<close>

text \<open>The one address of the example is 10.0.0.1.\<close>

definition demo_address :: address where
  "demo_address = \<lparr>addr_family = Ipv4, addr_bytes = [10, 0, 0, 1], addr_loopback = False, addr_multicast = False,
     addr_unspecified = False, addr_text = qs ''10.0.0.1''\<rparr>"

definition demo_lan_link :: lan_link where
  "demo_lan_link = \<lparr>k_addresses = [qs ''10.0.0.1''], k_port = 7, k_host = qs ''host'', k_name = qs ''desk'',
     k_fingerprint = replicate 64 97, k_code = replicate 64 98, k_expires = Some 5000\<rparr>"

definition demo_lan_url :: qurl where
  "demo_lan_url = blank_url\<lparr>url_valid := True, url_scheme := qs ''society'', url_host := qs ''pair''\<rparr>"

definition demo_lan_lib :: lib where
  "demo_lan_lib = demo_lib\<lparr>parse_address := (\<lambda>t. if t = qs ''10.0.0.1'' then Some demo_address else None),
     parse_url_strict := (\<lambda>t. demo_lan_url\<lparr>url_query_items := lan_items demo_lib demo_lan_link\<rparr>)\<rparr>"

lemma demo_lan_items: "lan_items demo_lan_lib demo_lan_link = lan_items demo_lib demo_lan_link"
  by (simp add: lan_items_def demo_lan_lib_def)

lemma demo_lan_valid: "valid_link demo_lan_lib demo_lan_link"
  by code_simp

lemma demo_lan_text: "lan_encode demo_lan_lib demo_lan_link = qs ''society://pair''"
  by (simp add: lan_encode_def demo_lan_valid) (simp add: demo_lan_lib_def demo_lib_def)

theorem lan_link_roundtrip_witness:
  "lan_decode demo_lan_lib (qs ''society://pair'') = Some demo_lan_link"
proof -
  have "lan_decode demo_lan_lib (lan_encode demo_lan_lib demo_lan_link) = Some demo_lan_link"
  proof (rule lan_link_roundtrip [where url = demo_lan_url and t = 5000])
    show "to_ushort demo_lan_lib (number_text (k_port demo_lan_link)) = Some (k_port demo_lan_link)" by code_simp
    show "to_longlong demo_lan_lib (number_text 5000) = Some 5000" by code_simp
    show "comma \<notin> set (addr_text a)" if "parse_address demo_lan_lib i = Some a" for i a
      using that by (auto simp: demo_lan_lib_def demo_address_def qs_def comma_def split: if_splits)
    show "parse_url_strict demo_lan_lib (url_with_query demo_lan_lib (qs ''society://pair'')
        (lan_items demo_lan_lib demo_lan_link)) = demo_lan_url \<lparr>url_query_items :=
          map (\<lambda>(i, v). (i, if i = qs ''name'' then k_name demo_lan_link else v)) (lan_items demo_lan_lib demo_lan_link)\<rparr>"
      unfolding demo_lan_items
      by (simp add: demo_lan_lib_def demo_lib_def lan_items_def demo_lan_link_def) code_simp
    show "length (url_with_query demo_lan_lib (qs ''society://pair'') (lan_items demo_lan_lib demo_lan_link)) \<le> 2048"
      by (simp add: demo_lan_lib_def demo_lib_def)
    show "lan_encode demo_lan_lib demo_lan_link \<noteq> []" by (simp add: demo_lan_text)
    show "k_expires demo_lan_link = Some 5000" by (simp add: demo_lan_link_def)
  qed (simp_all add: demo_lan_url_def blank_url_def)
  then show ?thesis by (simp add: demo_lan_text)
qed

theorem local_address_ranges_witness: "local_address demo_lan_lib (qs ''10.0.0.1'')"
proof -
  have "parse_address demo_lan_lib (qs ''10.0.0.1'') = Some demo_address" by (simp add: demo_lan_lib_def)
  from local_address_ranges [OF this] show ?thesis by (simp add: demo_address_def address_number_def)
qed

theorem same_code_exact_witness: "\<not> same_code (replicate 64 98) (replicate 64 97)"
proof -
  have "hex_token (replicate 64 97)" by code_simp
  from same_code_exact [OF this] show ?thesis by simp
qed

end
