(* ===== verification/LanPeer.thy ===== *)
theory LanPeer
  imports LanLink BinaryFrame Jobs
begin

text \<open>
  \<open>src/LanPeer.cpp\<close>: a peer on the local network, either the desktop that shows a QR code and
  serves its Files or the device that scanned it. Every slot, timer and method is a function
  from state to state; what it sends, opens, closes, asks the Files handler or emits is
  appended to \<open>trail\<close>. \<open>lan_env\<close> holds what one event gets from outside. A text message is
  given as the object it parses to, a binary message as its bytes.
\<close>

section \<open>State\<close>

datatype lan_phase = PIdle | PHosting | PShowing | PConnecting | PVerifying | PConfirming | PPaired | PError

record lan_session =
  s_id :: qstring
  s_name :: qstring
  s_paired :: bool
  s_deadline :: msecs
  s_awaiting :: bool
  s_binary :: bool
  s_authentication :: bytes

definition fresh_session :: "msecs \<Rightarrow> lan_session" where
  "fresh_session t = \<lparr>s_id = [], s_name = [], s_paired = False, s_deadline = t, s_awaiting = False,
     s_binary = False, s_authentication = []\<rparr>"

datatype lan_task = RefuseLan qstring | SendLan qstring jobject

datatype lan_effect =
    LanOpen sock qstring int
  | LanSend sock jobject
  | LanClose sock
  | LanAbort sock
  | AskFiles sock qstring jobject \<comment> \<open>the handler is called for the session of that socket\<close>
  | LanCompleted qstring jobject
  | Changed
  | PairedWith qstring

record lan =
  server_port :: "int option"
  client :: "sock option"
  clients :: "(sock, lan_session) table"
  lan_requests :: "(qstring, msecs) table"
  handling :: bool
  signer :: bool
  verifier :: bool
  authentication :: bytes
  authenticated :: bool
  offer :: lan_link
  joining :: lan_link
  phase :: lan_phase
  lan_error :: qstring
  qr :: qstring
  peer_name :: qstring
  client_id :: qstring
  client_name :: qstring
  connection_error :: qstring
  expected_peer :: qstring
  verification_code :: qstring
  client_nonce :: qstring
  ticking :: bool
  pair_deadline :: msecs
  connect_deadline :: msecs
  address_index :: nat
  client_paired :: bool
  hello_sent :: bool
  binary_on :: "sock list" \<comment> \<open>sockets whose property \<^verbatim>\<open>iish.binary\<close> is true\<close>
  waiting_work :: "lan_task list"
  trail :: "lan_effect list"

definition new_lan :: lan where
  "new_lan = \<lparr>server_port = None, client = None, clients = [], lan_requests = [], handling = False,
     signer = False, verifier = False, authentication = [], authenticated = False, offer = no_link,
     joining = no_link, phase = PIdle, lan_error = [], qr = [], peer_name = [], client_id = [],
     client_name = [], connection_error = [], expected_peer = [], verification_code = [],
     client_nonce = [], ticking = False, pair_deadline = 0, connect_deadline = 0, address_index = 0,
     client_paired = False, hello_sent = False, binary_on = [], waiting_work = [], trail = []\<rparr>"

record lan_env =
  v_now :: msecs
  v_fresh :: qstring
  v_random :: bytes \<comment> \<open>the 32 bytes of \<open>randomCode\<close>\<close>
  v_sock :: sock
  v_takes :: "sock \<Rightarrow> jobject \<Rightarrow> bool"
  v_handle :: "qstring \<Rightarrow> jobject \<Rightarrow> jobject option" \<comment> \<open>\<open>None\<close> when the handler throws\<close>
  v_sign :: "bytes \<Rightarrow> jobject"
  v_verify :: "bytes \<Rightarrow> jobject \<Rightarrow> bool"
  v_interfaces :: "interface list"
  v_payload_bytes :: "jobject \<Rightarrow> int"
  v_desktop :: bool \<comment> \<open>built with \<open>IIWEBSERVER_LAN_HOST\<close>\<close>
  v_identity :: "qstring option" \<comment> \<open>fingerprint of \<open>createLanIdentity\<close>, if it has an identity\<close>
  v_bound :: "qstring + int" \<comment> \<open>error or port of binding the server\<close>

definition note_effect :: "lan_effect \<Rightarrow> lan \<Rightarrow> lan" where
  "note_effect x st = st\<lparr>trail := trail st @ [x]\<rparr>"

definition lan_send :: "lan_env \<Rightarrow> sock \<Rightarrow> jobject \<Rightarrow> lan \<Rightarrow> bool \<times> lan" where
  "lan_send e s m st = (if v_takes e s m then (True, note_effect (LanSend s m) st) else (False, st))"

definition random_code :: "lan_env \<Rightarrow> qstring" where
  "random_code e = from_latin1 (to_hex (v_random e))"

definition ask_files :: "lan_env \<Rightarrow> sock \<Rightarrow> qstring \<Rightarrow> jobject \<Rightarrow> lan \<Rightarrow> jobject \<times> lan" where
  "ask_files e s peer payload st =
     (case if handling st then v_handle e peer payload else None of
        None \<Rightarrow> error_object ''host_error'' | Some r \<Rightarrow> r,
      note_effect (AskFiles s peer payload) st)"

definition list_files :: jobject where
  "list_files = jobj [(''op'', jtext ''list''), (''path'', jtext '''')]"

definition files_listed :: "jobject \<Rightarrow> bool" where
  "files_listed r \<longleftrightarrow> to_bool (jval r ''ok'') \<and> is_array (jval r ''entries'')"

definition set_binary :: "sock \<Rightarrow> bool \<Rightarrow> lan \<Rightarrow> lan" where
  "set_binary s b st = st\<lparr>binary_on := (if b then [s] else []) @ filter (\<lambda>x. x \<noteq> s) (binary_on st)\<rparr>"

section \<open>The side that joins\<close>

definition drop_client :: "lan \<Rightarrow> lan" where
  "drop_client st = (case client st of None \<Rightarrow> st | Some s \<Rightarrow> note_effect (LanAbort s) (st\<lparr>client := None\<rparr>))"

definition complete_all :: "string \<Rightarrow> lan \<Rightarrow> lan" where
  "complete_all code st =
     fold (\<lambda>rid. note_effect (LanCompleted rid (error_object code))) (tkeys (lan_requests st)) (st\<lparr>lan_requests := []\<rparr>)"

definition lan_fail :: "qstring \<Rightarrow> lan \<Rightarrow> lan" where
  "lan_fail msg st =
     note_effect Changed (complete_all ''connection_lost'' (drop_client (st\<lparr>lan_error := msg, phase := PError,
       qr := [], joining := (joining st)\<lparr>k_code := []\<rparr>, client_paired := False\<rparr>)))"

definition open_address :: "lib \<Rightarrow> lan_env \<Rightarrow> lan \<Rightarrow> lan" where
  "open_address L e st =
     (let st = drop_client st; k = joining st in
      if address_index st \<ge> length (k_addresses k)
      then lan_fail (qs ''Cannot reach the desktop. Use the same Wi-Fi or LAN and allow Society in the firewall. ''
        @ connection_error st) st
      else
        let s = v_sock e; st = set_binary s False (st\<lparr>client := Some s\<rparr>) in
        if pin_certificate L (k_fingerprint k) = None
        then lan_fail (qs ''Invalid desktop certificate fingerprint.'') st
        else note_effect (LanOpen s (k_addresses k ! address_index st) (k_port k))
          (st\<lparr>hello_sent := False, address_index := address_index st + 1, connect_deadline := v_now e + 4000\<rparr>))"

definition role_text :: "string \<Rightarrow> bytes \<Rightarrow> bytes" where
  "role_text role b = bs role @ [10] @ b"

text \<open>\<open>connected\<close> of the client socket; \<open>fp\<close> is the fingerprint of the certificate it met.\<close>

definition client_connected :: "lib \<Rightarrow> lan_env \<Rightarrow> sock \<Rightarrow> qstring \<Rightarrow> lan \<Rightarrow> lan" where
  "client_connected L e s fp st =
     (if fp \<noteq> k_fingerprint (joining st)
      then lan_fail (qs ''The desktop certificate does not match the QR code.'') st
      else
        let k = joining st; nonce = random_code e; auth = authentication_context L k (client_id st) nonce;
            st = st\<lparr>hello_sent := True, phase := PVerifying, client_nonce := nonce,
              verification_code := verification_text L k (client_id st) nonce,
              authenticated := False, authentication := auth\<rparr>;
            proof_object = (if signer st then v_sign e (role_text ''client'' auth) else fmempty)
        in if (signer st \<or> verifier st) \<and> (\<not> signer st \<or> \<not> verifier st \<or> proof_object = fmempty)
           then lan_fail (qs ''Account authentication required.'') st
           else
             let st = snd (lan_send e s (jobj [(''proof'', JObj proof_object), (''type'', jtext ''pair''),
                   (''host'', JStr (k_host k)), (''code'', JStr (k_code k)), (''peerId'', JStr (client_id st)),
                   (''name'', JStr (client_name st)), (''nonce'', JStr nonce), (''binary'', JNum 1)]) st)
             in note_effect Changed (st\<lparr>joining := k\<lparr>k_code := []\<rparr>\<rparr>))"

definition client_send :: "lan_env \<Rightarrow> jobject \<Rightarrow> lan \<Rightarrow> bool \<times> lan" where
  "client_send e m st = (case client st of None \<Rightarrow> (False, st) | Some s \<Rightarrow> lan_send e s m st)"

text \<open>The account proof of the host, checked on \<open>verify\<close> and \<open>ready\<close>; \<open>None\<close> when it fails.\<close>

definition check_host :: "lan_env \<Rightarrow> jobject \<Rightarrow> lan \<Rightarrow> lan option" where
  "check_host e m st =
     (if to_string (jval m ''type'') \<in> {qs ''verify'', qs ''ready''} \<and> (signer st \<or> verifier st) then
        (if verifier st \<and> v_verify e (role_text ''host'' (authentication st)) (to_object (jval m ''proof''))
         then Some (st\<lparr>authenticated := True\<rparr>) else None)
      else Some st)"

definition client_message :: "lan_env \<Rightarrow> jobject \<Rightarrow> lan \<Rightarrow> lan" where
  "client_message e m st =
     (let type = to_string (jval m ''type'') in
      if type = qs ''error''
      then lan_fail (string_or (qs ''Pairing failed. Scan a new QR code.'') (jval m ''error'')) st
      else case check_host e m st of
          None \<Rightarrow> lan_fail (qs ''Host account authentication failed.'') st
        | Some st \<Rightarrow>
            let same_host = (to_string (jval m ''host'') = k_host (joining st)) in
            if type = qs ''verify'' \<and> phase st = PVerifying \<and> same_host
            then note_effect Changed (st\<lparr>phase := PConfirming, pair_deadline := v_now e + 60000\<rparr>)
            else if type = qs ''ready'' \<and> (phase st = PVerifying \<or> phase st = PConfirming) \<and> same_host then
              let st = st\<lparr>phase := PVerifying\<rparr> in
              if \<not> files_listed (to_object (jval m ''files''))
              then lan_fail (qs ''The desktop could not open its Files. Pairing was not completed.'') st
              else snd (client_send e (jobj [(''type'', jtext ''confirm'')]) st)
            else if type = qs ''paired'' \<and> phase st = PVerifying \<and> same_host then
              if (signer st \<or> verifier st) \<and> \<not> authenticated st
              then lan_fail (qs ''Host account authentication required.'') st
              else
                let st = st\<lparr>client_paired := True, phase := PPaired, peer_name := to_string (jval m ''name'')\<rparr>;
                    st = (case client st of None \<Rightarrow> st | Some s \<Rightarrow> set_binary s (is_one (jval m ''binary'')) st)
                in note_effect (PairedWith (k_host (joining st))) (note_effect Changed st)
            else if type = qs ''response'' \<and> client_paired st then
              let rid = to_string (jval m ''id'') in
              if \<not> has_key (lan_requests st) rid then st
              else note_effect (LanCompleted rid (to_object (jval m ''result'')))
                (st\<lparr>lan_requests := tdel rid (lan_requests st)\<rparr>)
            else lan_fail (qs ''The desktop returned an invalid local pairing response.'') st)"

definition client_binary :: "lib \<Rightarrow> lan_env \<Rightarrow> sock \<Rightarrow> bytes \<Rightarrow> lan \<Rightarrow> lan" where
  "client_binary L e s frame st =
     (if \<not> client_paired st \<or> s \<notin> set (binary_on st) then lan_fail (qs ''Unnegotiated binary frame.'') st
      else client_message e (frame_decode L frame) st)"

definition client_failed :: "lib \<Rightarrow> lan_env \<Rightarrow> qstring \<Rightarrow> lan \<Rightarrow> lan" where
  "client_failed L e text st =
     (let st = st\<lparr>connection_error := text\<rparr> in
      if \<not> hello_sent st then open_address L e st
      else lan_fail (qs ''The local connection failed. Scan a new QR code.'') st)"

section \<open>The side that hosts\<close>

definition put_session :: "sock \<Rightarrow> lan_session \<Rightarrow> lan \<Rightarrow> lan" where
  "put_session s x st = st\<lparr>clients := tput s x (clients st)\<rparr>"

definition host_reject :: "lan_env \<Rightarrow> sock \<Rightarrow> qstring \<Rightarrow> lan \<Rightarrow> lan" where
  "host_reject e s text st =
     note_effect (LanClose s) (snd (lan_send e s (jobj [(''type'', jtext ''error''), (''error'', JStr text)]) st))"

text \<open>The conditions under which a \<open>pair\<close> message is good for the offer.\<close>

definition offer_accepts :: "lan_env \<Rightarrow> jobject \<Rightarrow> lan \<Rightarrow> bool" where
  "offer_accepts e m st \<longleftrightarrow>
     (let peer = to_string (jval m ''peerId''); name = to_string (jval m ''name'') in
      \<not> (qr st = [] \<or> expired (k_expires (offer st)) (v_now e) \<or> to_string (jval m ''host'') \<noteq> k_host (offer st)
         \<or> \<not> same_code (to_string (jval m ''code'')) (k_code (offer st)) \<or> \<not> identifier_ok peer
         \<or> peer = k_host (offer st) \<or> name = [] \<or> length name > 128
         \<or> (expected_peer st \<noteq> [] \<and> (expected_peer st \<noteq> peer \<or> \<not> hex_token (to_string (jval m ''nonce''))))))"

definition device_proved :: "lan_env \<Rightarrow> jobject \<Rightarrow> bytes \<Rightarrow> lan \<Rightarrow> bool" where
  "device_proved e m auth st \<longleftrightarrow>
     \<not> ((signer st \<or> verifier st) \<and> (\<not> signer st \<or> \<not> verifier st \<or> \<not> hex_token (to_string (jval m ''nonce''))
        \<or> \<not> v_verify e (role_text ''client'' auth) (to_object (jval m ''proof''))))"

definition ready_message :: "jobject \<Rightarrow> qstring \<Rightarrow> jobject \<Rightarrow> jobject" where
  "ready_message proof_object host files =
     jobj [(''proof'', JObj proof_object), (''type'', jtext ''ready''), (''host'', JStr host), (''files'', JObj files)]"

text \<open>The offer is consumed; a device offer then waits for the person, another asks for Files.\<close>

definition host_admit :: "lib \<Rightarrow> lan_env \<Rightarrow> sock \<Rightarrow> lan_session \<Rightarrow> jobject \<Rightarrow> jobject \<Rightarrow> lan \<Rightarrow> lan" where
  "host_admit L e s x m proof_object st =
     (let peer = to_string (jval m ''peerId''); name = to_string (jval m ''name'');
          expected = (expected_peer st \<noteq> []);
          x = x\<lparr>s_binary := is_one (jval m ''binary''), s_id := peer, s_name := name,
            s_deadline := v_now e + (if expected then 60000 else 15000)\<rparr>;
          st = st\<lparr>verification_code := (if expected
              then verification_text L (offer st) peer (to_string (jval m ''nonce'')) else []),
            offer := (offer st)\<lparr>k_code := []\<rparr>, qr := []\<rparr>
      in if expected then
           let st = put_session s (x\<lparr>s_awaiting := True\<rparr>) (st\<lparr>phase := PConfirming, peer_name := name\<rparr>);
               st = snd (lan_send e s (jobj [(''proof'', JObj proof_object), (''type'', jtext ''verify''),
                 (''host'', JStr (k_host (offer st)))]) st)
           in note_effect Changed st
         else
           let st = put_session s x (st\<lparr>phase := PVerifying, peer_name := name\<rparr>) in
           case ask_files e s peer list_files st of
             (files, st) \<Rightarrow>
               if \<not> files_listed files then
                 let text = qs ''The desktop could not open its Files.''; st = st\<lparr>lan_error := text, phase := PError\<rparr>
                 in note_effect Changed (host_reject e s text st)
               else note_effect Changed (snd (lan_send e s (ready_message proof_object (k_host (offer st)) files) st)))"

definition host_pair :: "lib \<Rightarrow> lan_env \<Rightarrow> sock \<Rightarrow> lan_session \<Rightarrow> jobject \<Rightarrow> lan \<Rightarrow> lan" where
  "host_pair L e s x m st =
     (let peer = to_string (jval m ''peerId'') in
      if \<not> offer_accepts e m st
      then host_reject e s (qs ''This QR code is expired, cancelled, or already used. Show a new QR code.'') st
      else if list_ex (\<lambda>(t, y). s_id y = peer) (clients st)
      then host_reject e s (qs ''This device is already connected.'') st
      else
        let auth = authentication_context L (offer st) peer (to_string (jval m ''nonce''));
            x = x\<lparr>s_authentication := auth\<rparr>; st = put_session s x st in
        if \<not> device_proved e m auth st then host_reject e s (qs ''Device account authentication failed.'') st
        else
          let proof_object = (if signer st then v_sign e (role_text ''host'' auth) else fmempty) in
          if signer st \<and> proof_object = fmempty
          then host_reject e s (qs ''Host account authentication expired.'') st
          else host_admit L e s x m proof_object st)"

definition host_message :: "lib \<Rightarrow> lan_env \<Rightarrow> sock \<Rightarrow> jobject \<Rightarrow> lan \<Rightarrow> lan" where
  "host_message L e s m st =
     (case tget (clients st) s of
        None \<Rightarrow> st
      | Some x \<Rightarrow>
          let type = to_string (jval m ''type'') in
          if type = qs ''pair'' \<and> s_id x = [] then host_pair L e s x m st
          else if type = qs ''confirm'' \<and> s_id x \<noteq> [] \<and> \<not> s_paired x \<and> \<not> s_awaiting x \<and> s_deadline x > v_now e then
            let st = put_session s (x\<lparr>s_paired := True\<rparr>) (st\<lparr>phase := PPaired\<rparr>);
                st = snd (lan_send e s (jobj [(''type'', jtext ''paired''), (''host'', JStr (k_host (offer st))),
                  (''name'', JStr (k_name (offer st))), (''binary'', JNum (if s_binary x then 1 else 0))]) st);
                st = set_binary s (s_binary x) st
            in note_effect (PairedWith (s_id x)) (note_effect Changed st)
          else if type = qs ''request'' \<and> s_paired x \<and> identifier_ok (to_string (jval m ''id''))
             \<and> is_object (jval m ''payload'') then
            (case ask_files e s (s_id x) (to_object (jval m ''payload'')) st of
               (result, st) \<Rightarrow> snd (lan_send e s (jobj [(''type'', jtext ''response''), (''id'', jval m ''id''),
                 (''result'', JObj result)]) st))
          else host_reject e s (qs ''Pair the device before requesting Files.'') st)"

definition host_binary :: "lib \<Rightarrow> lan_env \<Rightarrow> sock \<Rightarrow> bytes \<Rightarrow> lan \<Rightarrow> lan" where
  "host_binary L e s frame st =
     (if (case tget (clients st) s of None \<Rightarrow> True | Some x \<Rightarrow> \<not> s_paired x) \<or> s \<notin> set (binary_on st)
      then note_effect (LanClose s) st
      else host_message L e s (frame_decode L frame) st)"

definition host_incoming :: "lib \<Rightarrow> lan_env \<Rightarrow> qstring \<Rightarrow> lan \<Rightarrow> lan" where
  "host_incoming L e peer st =
     (if server_port st = None then st
      else if length (clients st) \<ge> 8 \<or> \<not> local_address L peer then note_effect (LanClose (v_sock e)) st
      else put_session (v_sock e) (fresh_session (v_now e + 5000)) (set_binary (v_sock e) False st))"

definition host_gone :: "sock \<Rightarrow> lan \<Rightarrow> lan" where
  "host_gone s st =
     (case tget (clients st) s of
        None \<Rightarrow> note_effect Changed st
      | Some x \<Rightarrow>
          let st = st\<lparr>clients := tdel s (clients st)\<rparr> in
          note_effect Changed
            (if s_id x \<noteq> [] \<and> \<not> s_paired x \<and> phase st = PVerifying
             then st\<lparr>phase := PError, lan_error := qs ''Pairing was interrupted. Show a new QR code.''\<rparr> else st))"

text \<open>The person compared the codes: the first waiting session goes on to Files.\<close>

definition confirm_device :: "lan_env \<Rightarrow> lan \<Rightarrow> bool \<times> lan" where
  "confirm_device e st =
     (if phase st \<noteq> PConfirming then (False, st)
      else case find (\<lambda>(s, x). s_awaiting x \<and> s_deadline x > v_now e) (clients st) of
          None \<Rightarrow> (False, st)
        | Some (s, x) \<Rightarrow>
            let st = put_session s (x\<lparr>s_awaiting := False, s_deadline := v_now e + 15000\<rparr>) st;
                proof_object = (if signer st then v_sign e (role_text ''host'' (s_authentication x)) else fmempty) in
            if signer st \<and> proof_object = fmempty then (False, note_effect (LanClose s) st)
            else
              case ask_files e s (s_id x) list_files st of
                (files, st) \<Rightarrow>
                  if \<not> files_listed files then
                    let text = qs ''The desktop could not open its Files.''; st = st\<lparr>lan_error := text, phase := PError\<rparr>
                    in (False, note_effect Changed (host_reject e s text st))
                  else (True, note_effect Changed (snd (lan_send e s
                    (ready_message proof_object (k_host (offer st)) files) (st\<lparr>phase := PVerifying\<rparr>)))))"

section \<open>The timer\<close>

text \<open>\<open>slot\<close> is what the application does when it is told of a timed-out request.\<close>

definition lan_timeout :: "(qstring \<Rightarrow> lan \<Rightarrow> lan) \<Rightarrow> msecs \<Rightarrow> qstring \<Rightarrow> lan \<Rightarrow> lan" where
  "lan_timeout slot t rid st =
     (if (case tget (lan_requests st) rid of None \<Rightarrow> True | Some d \<Rightarrow> d \<le> t)
      then slot rid (note_effect (LanCompleted rid (error_object ''timeout''))
        (st\<lparr>lan_requests := tdel rid (lan_requests st)\<rparr>))
      else st)"

definition close_late :: "msecs \<Rightarrow> lan \<Rightarrow> lan" where
  "close_late t st =
     fold (\<lambda>(s, x). if \<not> s_paired x \<and> s_deadline x \<le> t then note_effect (LanClose s) else id) (clients st) st"

definition sweep_qr :: "msecs \<Rightarrow> lan \<Rightarrow> lan" where
  "sweep_qr t st =
     (if qr st = [] then st
      else if expired (k_expires (offer st)) t
      then note_effect Changed (st\<lparr>qr := [], offer := (offer st)\<lparr>k_code := []\<rparr>, phase := PError,
        lan_error := qs ''The QR code expired. Show a new code.''\<rparr>)
      else note_effect Changed st)"

definition sweep_client :: "lib \<Rightarrow> lan_env \<Rightarrow> lan \<Rightarrow> lan" where
  "sweep_client L e st =
     (if client st = None \<or> client_paired st then st
      else if pair_deadline st \<le> v_now e
      then lan_fail (qs ''Pairing timed out. Check the local network and scan a new QR code.'') st
      else if \<not> hello_sent st \<and> connect_deadline st \<le> v_now e then open_address L e st else st)"

definition lan_sweep :: "lib \<Rightarrow> lan_env \<Rightarrow> (qstring \<Rightarrow> lan \<Rightarrow> lan) \<Rightarrow> lan \<Rightarrow> lan" where
  "lan_sweep L e slot st =
     (let st = sweep_client L e (close_late (v_now e) (sweep_qr (v_now e) st))
      in fold (lan_timeout slot (v_now e)) (tkeys (lan_requests st)) st)"

section \<open>The methods\<close>

definition abort_all :: "sock list \<Rightarrow> lan \<Rightarrow> lan" where
  "abort_all = fold (\<lambda>s. note_effect (LanAbort s))"

definition lan_stop :: "lan \<Rightarrow> lan" where
  "lan_stop st =
     (let st = drop_client (st\<lparr>ticking := False, server_port := None\<rparr>);
          st = abort_all (tkeys (clients st)) st;
          st = st\<lparr>clients := [], client_paired := False, handling := False, offer := no_link, joining := no_link,
            qr := [], lan_error := [], peer_name := [], expected_peer := [], verification_code := [],
            client_nonce := [], phase := PIdle, connection_error := []\<rparr>
      in note_effect Changed (complete_all ''stopped'' st))"

definition lan_cancel :: "lan \<Rightarrow> lan" where
  "lan_cancel st =
     (let st = st\<lparr>qr := [], offer := (offer st)\<lparr>k_code := []\<rparr>, expected_peer := [], verification_code := []\<rparr>;
          unpaired = map fst (filter (\<lambda>(s, x). \<not> s_paired x) (clients st));
          st = abort_all unpaired (st\<lparr>clients := filter (\<lambda>(s, x). s_paired x) (clients st)\<rparr>);
          st = (if client_paired st then st else drop_client st)
      in note_effect Changed (st\<lparr>phase := (if server_port st \<noteq> None then PHosting
           else if client_paired st then PPaired else PIdle), lan_error := []\<rparr>))"

text \<open>\<open>addresses\<close> is empty when the caller wants the interfaces listed.\<close>

definition start_host :: "lib \<Rightarrow> lan_env \<Rightarrow> qstring \<Rightarrow> qstring \<Rightarrow> bool \<Rightarrow> qstring list \<Rightarrow> address \<Rightarrow> lan \<Rightarrow> bool \<times> lan" where
  "start_host L e host name has_handler addresses bind_address st =
     (let st = lan_stop st;
          addresses = (if addresses = [] then lan_addresses L (v_interfaces e) else addresses);
          failed = (\<lambda>text. (False, lan_fail text st))
      in if \<not> v_desktop e then failed (qs ''Only desktop Society can host Files.'')
         else if addresses = []
         then failed (qs ''Connect this desktop to Wi-Fi or Ethernet before showing a QR code.'')
         else if \<not> list_all (local_address L) addresses then failed (qs ''A private local IPv4 address is required.'')
         else if \<not> identifier_ok host \<or> name = [] \<or> length name > 128 \<or> \<not> has_handler
         then failed (qs ''Invalid local host identity.'')
         else case v_identity e of
             None \<Rightarrow> failed (qs ''Could not create the desktop TLS identity.'')
           | Some fp \<Rightarrow>
               case (listener bind_address True (case v_bound e of Inl x \<Rightarrow> Some x | Inr p \<Rightarrow> None), v_bound e) of
                 (Listening, Inr port) \<Rightarrow>
                   (True, note_effect Changed (st\<lparr>server_port := Some port, handling := True,
                      offer := \<lparr>k_addresses = addresses, k_port = port, k_host = host, k_name = name,
                        k_fingerprint = fp, k_code = [], k_expires = None\<rparr>,
                      phase := PHosting, ticking := True\<rparr>))
               | (ListenError x, _) \<Rightarrow> failed x
               | (Listening, Inl x) \<Rightarrow> failed x)"

definition create_offer :: "lib \<Rightarrow> lan_env \<Rightarrow> int \<Rightarrow> lan \<Rightarrow> qstring \<times> lan" where
  "create_offer L e lifetime st =
     (if server_port st = None \<or> lifetime < 1 \<or> lifetime > 60 then ([], st)
      else
        let st = lan_cancel st;
            k = (offer st)\<lparr>k_code := random_code e, k_expires := Some (v_now e + 1000 * lifetime)\<rparr>;
            text = lan_encode L k
        in (text, note_effect Changed (st\<lparr>lan_error := [], phase := PShowing, offer := k, qr := text\<rparr>)))"

definition create_device_offer :: "lib \<Rightarrow> lan_env \<Rightarrow> qstring \<Rightarrow> int \<Rightarrow> lan \<Rightarrow> qstring \<times> lan" where
  "create_device_offer L e peer lifetime st =
     (if \<not> identifier_ok peer \<or> peer = k_host (offer st) then ([], st)
      else case create_offer L e lifetime st of
          (text, st) \<Rightarrow> (text, if text = [] then st else st\<lparr>expected_peer := peer\<rparr>))"

definition lan_join :: "lib \<Rightarrow> lan_env \<Rightarrow> qstring \<Rightarrow> qstring \<Rightarrow> qstring \<Rightarrow> lan \<Rightarrow> bool \<times> lan" where
  "lan_join L e text peer name st =
     (let st = lan_stop st in
      case lan_decode L text of
        None \<Rightarrow> (False, lan_fail (qs ''This is not a valid, current local Society QR code.'') st)
      | Some k \<Rightarrow>
          if expired (k_expires k) (v_now e) \<or> \<not> identifier_ok peer \<or> name = [] \<or> length name > 128
          then (False, lan_fail (qs ''This is not a valid, current local Society QR code.'') st)
          else (True, note_effect Changed (open_address L e (st\<lparr>joining := k, client_id := peer, client_name := name,
            phase := PConnecting, pair_deadline := v_now e + 15000, address_index := 0, ticking := True\<rparr>))))"

definition set_authentication :: "bool \<Rightarrow> bool \<Rightarrow> lan \<Rightarrow> lan" where
  "set_authentication s v st = (lan_stop st)\<lparr>signer := s, verifier := v\<rparr>"

definition lan_request :: "lan_env \<Rightarrow> qstring \<Rightarrow> jobject \<Rightarrow> lan \<Rightarrow> lan" where
  "lan_request e host payload st =
     (let rid = v_fresh e in
      if \<not> client_paired st \<or> host \<noteq> k_host (joining st) \<or> length (lan_requests st) \<ge> 32
         \<or> v_payload_bytes e payload > wire_limit - 1024
      then st\<lparr>waiting_work := waiting_work st @ [RefuseLan rid]\<rparr>
      else st\<lparr>lan_requests := tput rid (v_now e + 15000) (lan_requests st),
        waiting_work := waiting_work st @ [SendLan rid payload]\<rparr>)"

definition lan_later :: "lan_env \<Rightarrow> lan_task \<Rightarrow> lan \<Rightarrow> lan" where
  "lan_later e w st =
     (case w of
        RefuseLan rid \<Rightarrow> note_effect (LanCompleted rid (error_object ''not_connected_or_busy'')) st
      | SendLan rid payload \<Rightarrow>
          if \<not> has_key (lan_requests st) rid then st
          else case client_send e (jobj [(''type'', jtext ''request''), (''id'', JStr rid), (''payload'', JObj payload)]) st of
              (ok, st) \<Rightarrow> if ok then st else lan_fail (qs ''The local connection closed.'') st)"

text \<open>What the application reads.\<close>

definition shown_code :: "lan \<Rightarrow> qstring" where
  "shown_code st = (if phase st = PConfirming then verification_code st else [])"

definition seconds_remaining :: "msecs \<Rightarrow> lan \<Rightarrow> int" where
  "seconds_remaining t st =
     (if qr st = [] then 0
      else max 0 (((case k_expires (offer st) of None \<Rightarrow> 0 | Some x \<Rightarrow> x - t) + 999) div 1000))"

definition paired_device_ids :: "lan \<Rightarrow> qstring list" where
  "paired_device_ids st = (if client_paired st then [k_host (joining st)] else [])
     @ map (s_id \<circ> snd) (filter (\<lambda>(s, x). s_paired x) (clients st))"

definition lan_peers :: "lan \<Rightarrow> json list" where
  "lan_peers st = (if client_paired st
     then [JObj (jobj [(''peerId'', JStr (k_host (joining st))), (''name'', JStr (peer_name st))])] else [])"

definition binary_transfer :: "lan \<Rightarrow> bool" where
  "binary_transfer st \<longleftrightarrow> client_paired st \<and> (case client st of None \<Rightarrow> False | Some s \<Rightarrow> s \<in> set (binary_on st))"

section \<open>Events\<close>

datatype lan_event =
    HostText sock jobject | HostBinary sock bytes | HostGone sock | Incoming qstring
  | ClientUp sock qstring | ClientText sock jobject | ClientBinary sock bytes | ClientFailed sock qstring
  | ClientGone sock | LanTimer | LanLater
  | StartHost qstring qstring bool "qstring list" address | CreateLanOffer int | CreateDeviceOffer qstring int
  | ConfirmDevice | Join qstring qstring qstring | CancelLan | StopLan | SetAuthentication bool bool
  | RequestLan qstring jobject

text \<open>
  One event of the owner's thread. The slots of a client socket are disconnected whenever
  another takes its place, so only the current one is heard. Signals, also those of a socket
  that is closed here, are handled after the event.
\<close>

definition lan_step :: "lib \<Rightarrow> lan_env \<Rightarrow> lan_event \<Rightarrow> lan \<Rightarrow> lan" where
  "lan_step L e ev st =
     (case ev of
        HostText s m \<Rightarrow> host_message L e s m st
      | HostBinary s frame \<Rightarrow> host_binary L e s frame st
      | HostGone s \<Rightarrow> host_gone s st
      | Incoming peer \<Rightarrow> host_incoming L e peer st
      | ClientUp s fp \<Rightarrow> if client st = Some s then client_connected L e s fp st else st
      | ClientText s m \<Rightarrow> if client st = Some s then client_message e m st else st
      | ClientBinary s frame \<Rightarrow> if client st = Some s then client_binary L e s frame st else st
      | ClientFailed s text \<Rightarrow> if client st = Some s then client_failed L e text st else st
      | ClientGone s \<Rightarrow> if client st = Some s
          then lan_fail (qs ''The desktop disconnected. Scan a new QR code to reconnect.'') st else st
      | LanTimer \<Rightarrow> if ticking st then lan_sweep L e (\<lambda>rid st. st) st else st
      | LanLater \<Rightarrow> (case waiting_work st of [] \<Rightarrow> st | w # ws \<Rightarrow> lan_later e w (st\<lparr>waiting_work := ws\<rparr>))
      | StartHost host name has_handler addresses a \<Rightarrow> snd (start_host L e host name has_handler addresses a st)
      | CreateLanOffer n \<Rightarrow> snd (create_offer L e n st)
      | CreateDeviceOffer peer n \<Rightarrow> snd (create_device_offer L e peer n st)
      | ConfirmDevice \<Rightarrow> snd (confirm_device e st)
      | Join text peer name \<Rightarrow> snd (lan_join L e text peer name st)
      | CancelLan \<Rightarrow> lan_cancel st
      | StopLan \<Rightarrow> lan_stop st
      | SetAuthentication s v \<Rightarrow> set_authentication s v st
      | RequestLan host payload \<Rightarrow> lan_request e host payload st)"

end
