(* ===== verification/LanPeerProperties.thy ===== *)
theory LanPeerProperties
  imports LanPeer
begin

text \<open>
  What \<open>src/LanPeer.cpp\<close> promises: every request completes exactly once; a device is paired only
  after it presented the one-time code, and after the person approved it where the offer asks
  for that; an offer admits one device; Files are not touched earlier; the device that joins
  talks only to the certificate of the QR code. An honest exchange ends with both sides paired.
\<close>

section \<open>Bookkeeping of requests\<close>

fun lan_done :: "lan_effect \<Rightarrow> qstring option" where
  "lan_done (LanCompleted rid r) = Some rid"
| "lan_done _ = None"

fun lan_refused :: "lan_task \<Rightarrow> qstring option" where
  "lan_refused (RefuseLan rid) = Some rid"
| "lan_refused _ = None"

definition lan_completed :: "lan \<Rightarrow> qstring list" where
  "lan_completed st = List.map_filter lan_done (trail st)"

definition lan_waiting :: "lan \<Rightarrow> qstring list" where
  "lan_waiting st = tkeys (lan_requests st) @ List.map_filter lan_refused (waiting_work st)"

text \<open>An operation that issues nothing: what it no longer holds it has reported.\<close>

definition settles :: "lan \<Rightarrow> lan \<Rightarrow> bool" where
  "settles st st' \<longleftrightarrow> waiting_work st' = waiting_work st \<and> (\<exists>fin. lan_completed st' = lan_completed st @ fin
     \<and> (table_ok (lan_requests st) \<longrightarrow> table_ok (lan_requests st')
         \<and> mset (tkeys (lan_requests st)) = mset fin + mset (tkeys (lan_requests st'))))"

lemma settles_refl [simp]: "settles st st"
  by (simp add: settles_def)

lemma settles_trans:
  assumes "settles a b" "settles b c"
  shows "settles a c"
proof -
  obtain f where f: "waiting_work b = waiting_work a" "lan_completed b = lan_completed a @ f"
    "table_ok (lan_requests a) \<longrightarrow> table_ok (lan_requests b)
       \<and> mset (tkeys (lan_requests a)) = mset f + mset (tkeys (lan_requests b))"
    using assms(1) by (auto simp: settles_def)
  obtain g where g: "waiting_work c = waiting_work b" "lan_completed c = lan_completed b @ g"
    "table_ok (lan_requests b) \<longrightarrow> table_ok (lan_requests c)
       \<and> mset (tkeys (lan_requests b)) = mset g + mset (tkeys (lan_requests c))"
    using assms(2) by (auto simp: settles_def)
  show ?thesis unfolding settles_def using f g by (intro conjI exI [of _ "f @ g"]) (simp_all add: add.assoc)
qed

lemma settles_fold: "(\<And>x st. settles st (f x st)) \<Longrightarrow> settles st (fold f xs st)"
  by (induction xs arbitrary: st) (auto intro: settles_trans)

lemma settles_same:
  "lan_requests st' = lan_requests st \<Longrightarrow> waiting_work st' = waiting_work st \<Longrightarrow>
     List.map_filter lan_done (trail st') = List.map_filter lan_done (trail st) \<Longrightarrow> settles st st'"
  by (simp add: settles_def lan_completed_def)

lemma note_effect_simps [simp]:
  "lan_requests (note_effect x st) = lan_requests st" "waiting_work (note_effect x st) = waiting_work st"
  "trail (note_effect x st) = trail st @ [x]"
  by (simp_all add: note_effect_def)

lemma settles_note: "lan_done x = None \<Longrightarrow> settles st (note_effect x st)"
  by (rule settles_same) simp_all

lemma settles_note_after: "settles st st' \<Longrightarrow> lan_done x = None \<Longrightarrow> settles st (note_effect x st')"
  by (rule settles_trans [OF _ settles_note])

lemma lan_send_simps [simp]:
  "lan_requests (snd (lan_send e s m st)) = lan_requests st" "waiting_work (snd (lan_send e s m st)) = waiting_work st"
  "List.map_filter lan_done (trail (snd (lan_send e s m st))) = List.map_filter lan_done (trail st)"
  by (simp_all add: lan_send_def)

lemma drop_client_simps [simp]:
  "lan_requests (drop_client st) = lan_requests st" "waiting_work (drop_client st) = waiting_work st"
  "List.map_filter lan_done (trail (drop_client st)) = List.map_filter lan_done (trail st)"
  by (simp_all add: drop_client_def split: option.split)

lemma complete_all_simps [simp]:
  "lan_requests (complete_all c st) = []" "waiting_work (complete_all c st) = waiting_work st"
  "List.map_filter lan_done (trail (complete_all c st)) = List.map_filter lan_done (trail st) @ tkeys (lan_requests st)"
proof -
  have f: "lan_requests (fold (\<lambda>rid. note_effect (LanCompleted rid (r rid))) ks st) = lan_requests st
      \<and> waiting_work (fold (\<lambda>rid. note_effect (LanCompleted rid (r rid))) ks st) = waiting_work st
      \<and> List.map_filter lan_done (trail (fold (\<lambda>rid. note_effect (LanCompleted rid (r rid))) ks st))
          = List.map_filter lan_done (trail st) @ ks" for r ks st
    by (induction ks arbitrary: st) simp_all
  show "lan_requests (complete_all c st) = []" "waiting_work (complete_all c st) = waiting_work st"
    "List.map_filter lan_done (trail (complete_all c st)) = List.map_filter lan_done (trail st) @ tkeys (lan_requests st)"
    by (simp_all add: complete_all_def f)
qed

lemma settles_all:
  "lan_requests st' = [] \<Longrightarrow> waiting_work st' = waiting_work st \<Longrightarrow>
     List.map_filter lan_done (trail st') = List.map_filter lan_done (trail st) @ tkeys (lan_requests st) \<Longrightarrow> settles st st'"
  by (simp add: settles_def lan_completed_def tkeys_def table_ok_def)

lemma settles_one:
  assumes "has_key (lan_requests st) rid" "lan_requests st' = tdel rid (lan_requests st)"
    "waiting_work st' = waiting_work st"
    "List.map_filter lan_done (trail st') = List.map_filter lan_done (trail st) @ [rid]"
  shows "settles st st'"
  using assms mset_tkeys_tdel [of "lan_requests st" rid] table_ok_tdel [of "lan_requests st" rid]
  by (auto simp: settles_def lan_completed_def table_ok_def)

lemma settles_fail: "settles st (lan_fail msg st)"
  by (rule settles_all) (simp_all add: lan_fail_def)

lemma settles_fail_after:
  "lan_requests st' = lan_requests st \<Longrightarrow> waiting_work st' = waiting_work st \<Longrightarrow>
     List.map_filter lan_done (trail st') = List.map_filter lan_done (trail st) \<Longrightarrow> settles st (lan_fail msg st')"
  by (rule settles_trans [OF settles_same settles_fail])

lemma abort_all_simps [simp]:
  "lan_requests (abort_all ss st) = lan_requests st" "waiting_work (abort_all ss st) = waiting_work st"
  "List.map_filter lan_done (trail (abort_all ss st)) = List.map_filter lan_done (trail st)"
  unfolding abort_all_def by (induction ss arbitrary: st) simp_all

lemma settles_stop: "settles st (lan_stop st)"
  by (rule settles_all) (simp_all add: lan_stop_def Let_def)

lemma settles_cancel: "settles st (lan_cancel st)"
  by (rule settles_same) (simp_all add: lan_cancel_def Let_def)

lemma set_binary_simps [simp]:
  "lan_requests (set_binary s b st) = lan_requests st" "waiting_work (set_binary s b st) = waiting_work st"
  "trail (set_binary s b st) = trail st"
  by (simp_all add: set_binary_def)

lemma settles_if: "(c \<Longrightarrow> settles st a) \<Longrightarrow> (\<not> c \<Longrightarrow> settles st b) \<Longrightarrow> settles st (if c then a else b)"
  by simp

lemma settles_open: "settles st (open_address L e st)"
  unfolding open_address_def Let_def
  by (intro settles_if; (rule settles_fail_after | rule settles_same); simp)

lemma settles_client_connected: "settles st (client_connected L e s fp st)"
  unfolding client_connected_def Let_def
  by (intro settles_if; (rule settles_fail_after | rule settles_same); simp)

lemma client_send_simps [simp]:
  "lan_requests (snd (client_send e m st)) = lan_requests st" "waiting_work (snd (client_send e m st)) = waiting_work st"
  "List.map_filter lan_done (trail (snd (client_send e m st))) = List.map_filter lan_done (trail st)"
  by (simp_all add: client_send_def split: option.split)

lemma check_host_frame:
  "check_host e m st = Some st' \<Longrightarrow> lan_requests st' = lan_requests st \<and> waiting_work st' = waiting_work st \<and> trail st' = trail st"
  by (auto simp: check_host_def split: if_splits)

lemma settles_client_message: "settles st (client_message e m st)"
proof (cases "check_host e m st")
  case None
  then show ?thesis
    unfolding client_message_def Let_def by (intro settles_if) (simp_all add: settles_fail)
next
  case (Some st1)
  note f = check_host_frame [OF Some]
  have response: "settles st (note_effect (LanCompleted rid r) (st1\<lparr>lan_requests := tdel rid (lan_requests st1)\<rparr>))"
    if "has_key (lan_requests st1) rid" for rid r
    using that f by (intro settles_one [of _ rid]) simp_all
  show ?thesis
    unfolding client_message_def Let_def Some option.case
    by (intro settles_if; (rule settles_fail | rule response | rule settles_fail_after | rule settles_same);
      simp add: f split: option.split)
qed

lemma settles_client_binary: "settles st (client_binary L e s frame st)"
  unfolding client_binary_def by (intro settles_if settles_fail settles_client_message)

lemma settles_client_failed: "settles st (client_failed L e text st)"
  unfolding client_failed_def Let_def
  by (intro settles_if) (rule settles_trans [OF settles_same settles_open], simp_all, rule settles_fail_after, simp_all)

lemma put_session_simps [simp]:
  "lan_requests (put_session s x st) = lan_requests st" "waiting_work (put_session s x st) = waiting_work st"
  "trail (put_session s x st) = trail st"
  by (simp_all add: put_session_def)

lemma host_reject_simps [simp]:
  "lan_requests (host_reject e s t st) = lan_requests st" "waiting_work (host_reject e s t st) = waiting_work st"
  "List.map_filter lan_done (trail (host_reject e s t st)) = List.map_filter lan_done (trail st)"
  by (simp_all add: host_reject_def)

lemma settles_host_admit: "settles st (host_admit L e s x m p st)"
  unfolding host_admit_def Let_def ask_files_def prod.case
  by (intro settles_if; rule settles_same; simp)

lemma settles_host_pair: "settles st (host_pair L e s x m st)"
  unfolding host_pair_def Let_def
  by (intro settles_if; (rule settles_trans [OF settles_same settles_host_admit] | rule settles_same); simp)

lemma settles_host_message: "settles st (host_message L e s m st)"
proof (cases "tget (clients st) s")
  case (Some x)
  show ?thesis
    unfolding host_message_def Let_def ask_files_def prod.case Some option.case
    by (intro settles_if; (rule settles_host_pair | rule settles_same); simp)
qed (simp add: host_message_def)

lemma settles_host_binary: "settles st (host_binary L e s frame st)"
  unfolding host_binary_def by (intro settles_if settles_host_message settles_note) simp

lemma settles_host_incoming: "settles st (host_incoming L e peer st)"
  unfolding host_incoming_def by (intro settles_if; rule settles_same; simp)

lemma settles_host_gone: "settles st (host_gone s st)"
  unfolding host_gone_def Let_def by (rule settles_same; simp split: option.split)

lemma settles_confirm: "settles st (snd (confirm_device e st))"
  unfolding confirm_device_def Let_def ask_files_def prod.case
  by (rule settles_same; simp split: option.split prod.split)

lemma settles_timeouts:
  assumes "distinct ks" "\<forall>k\<in>set ks. has_key (lan_requests st) k"
  shows "settles st (fold (lan_timeout (\<lambda>rid st. st) t) ks st)"
  using assms
proof (induction ks arbitrary: st)
  case (Cons k ks)
  let ?st = "lan_timeout (\<lambda>rid st. st) t k st"
  have has: "has_key (lan_requests st) k" using Cons.prems(2) by simp
  have "settles st ?st" unfolding lan_timeout_def
    by (intro settles_if; (rule settles_refl | rule settles_one [OF has]); simp)
  moreover have "\<forall>k'\<in>set ks. has_key (lan_requests ?st) k'"
    using Cons.prems by (auto simp: lan_timeout_def split: option.split)
  then have "settles ?st (fold (lan_timeout (\<lambda>rid st. st) t) ks ?st)" using Cons by simp
  ultimately show ?case using settles_trans by simp
qed simp

lemma settles_timeout:
  assumes "table_ok (lan_requests st)"
  shows "settles st (fold (lan_timeout (\<lambda>rid st. st) t) (tkeys (lan_requests st)) st)"
  using assms by (intro settles_timeouts) (auto simp: table_ok_def in_tkeys)

lemma close_late_simps [simp]:
  "lan_requests (close_late t st) = lan_requests st" "waiting_work (close_late t st) = waiting_work st"
  "List.map_filter lan_done (trail (close_late t st)) = List.map_filter lan_done (trail st)"
proof -
  let ?f = "\<lambda>(s, x :: lan_session). if \<not> s_paired x \<and> s_deadline x \<le> t then note_effect (LanClose s) else id"
  have "lan_requests (fold ?f xs st) = lan_requests st \<and> waiting_work (fold ?f xs st) = waiting_work st
      \<and> List.map_filter lan_done (trail (fold ?f xs st)) = List.map_filter lan_done (trail st)" for xs st
    by (induction xs arbitrary: st) auto
  then show "lan_requests (close_late t st) = lan_requests st" "waiting_work (close_late t st) = waiting_work st"
    "List.map_filter lan_done (trail (close_late t st)) = List.map_filter lan_done (trail st)"
    by (simp_all add: close_late_def)
qed

lemma settles_table_ok: "settles a b \<Longrightarrow> table_ok (lan_requests a) \<Longrightarrow> table_ok (lan_requests b)"
  by (auto simp: settles_def)

lemma settles_sweep:
  assumes "table_ok (lan_requests st)"
  shows "settles st (lan_sweep L e (\<lambda>rid st. st) st)"
proof -
  have one: "settles st (close_late (v_now e) (sweep_qr (v_now e) st))"
    by (rule settles_same) (simp_all add: sweep_qr_def)
  have two: "settles st1 (sweep_client L e st1)" for st1
    unfolding sweep_client_def by (intro settles_if settles_fail settles_open settles_refl)
  show ?thesis
    unfolding lan_sweep_def Let_def
    by (rule settles_trans [OF settles_trans [OF one two]], rule settles_timeout,
        rule settles_table_ok [OF settles_trans [OF one two] assms])
qed

lemma settles_start_host: "settles st (snd (start_host L e host name h as a st))"
proof -
  have after: "settles st (snd (b, st'))" if "settles (lan_stop st) st'" for b st'
    using settles_trans [OF settles_stop that] by simp
  show ?thesis
    unfolding start_host_def Let_def
    by (auto split: option.split listen_result.split sum.split
        intro!: settles_trans [OF settles_stop settles_fail] settles_trans [OF settles_stop settles_same])
qed

lemma settles_create_offer: "settles st (snd (create_offer L e n st))"
  unfolding create_offer_def Let_def
  by (auto intro!: settles_trans [OF settles_cancel settles_same])

lemma settles_device_offer: "settles st (snd (create_device_offer L e peer n st))"
proof (cases "create_offer L e n st")
  case (Pair t st1)
  then have "settles st st1" using settles_create_offer [of st L e n] by simp
  then show ?thesis
    unfolding create_device_offer_def Pair prod.case
    by (auto intro: settles_trans [OF _ settles_same])
qed

lemma settles_join: "settles st (snd (lan_join L e text peer name st))"
  unfolding lan_join_def Let_def
  by (auto split: option.split intro!: settles_trans [OF settles_stop settles_fail] settles_note_after
      settles_trans [OF settles_stop settles_trans [OF settles_same settles_open]])

section \<open>Requests as jobs\<close>

definition lan_issues :: "lan_env \<Rightarrow> lan_event \<Rightarrow> qstring list" where
  "lan_issues e ev = (case ev of RequestLan host payload \<Rightarrow> [v_fresh e] | _ \<Rightarrow> [])"

definition lan_job :: "lib \<Rightarrow> lan job_step" where
  "lan_job L st new fin st' \<longleftrightarrow> (\<exists>e ev. st' = lan_step L e ev st \<and> new = lan_issues e ev
     \<and> lan_completed st' = lan_completed st @ fin)"

definition lan_books :: "qstring list \<Rightarrow> lan \<Rightarrow> bool" where
  "lan_books issued st \<longleftrightarrow> table_ok (lan_requests st)
     \<and> set (lan_waiting st) \<subseteq> set issued"

lemma settles_step:
  assumes "\<forall>host payload. ev \<noteq> RequestLan host payload" "ev \<noteq> LanLater" "table_ok (lan_requests st)"
  shows "settles st (lan_step L e ev st)"
  using assms
  by (cases ev) (auto simp: lan_step_def set_authentication_def intro!: settles_host_message settles_host_binary
      settles_host_gone settles_host_incoming settles_client_connected settles_client_message settles_client_binary
      settles_client_failed settles_fail settles_sweep settles_start_host settles_create_offer settles_device_offer
      settles_confirm settles_join settles_cancel settles_stop settles_trans [OF settles_stop settles_same])

text \<open>Every step reports what it no longer owes.\<close>

definition lan_account :: "qstring list \<Rightarrow> lan \<Rightarrow> lan \<Rightarrow> bool" where
  "lan_account new st st' \<longleftrightarrow> (\<exists>fin. lan_completed st' = lan_completed st @ fin \<and> table_ok (lan_requests st')
     \<and> mset fin + mset (lan_waiting st') = mset new + mset (lan_waiting st)
     \<and> length (lan_requests st') \<le> max 32 (length (lan_requests st)))"

lemma settles_account:
  assumes "settles st1 st'" "table_ok (lan_requests st)" "lan_requests st1 = lan_requests st" "trail st1 = trail st"
    "List.map_filter lan_refused (waiting_work st1) = List.map_filter lan_refused (waiting_work st)"
  shows "lan_account [] st st'"
proof -
  obtain fin where f: "lan_completed st' = lan_completed st @ fin" "table_ok (lan_requests st')"
    "waiting_work st' = waiting_work st1"
    "mset (tkeys (lan_requests st)) = mset fin + mset (tkeys (lan_requests st'))"
    using assms by (auto simp: settles_def lan_completed_def)
  have "length (tkeys (lan_requests st)) = length fin + length (tkeys (lan_requests st'))"
    using f(4) by (metis size_mset size_union)
  then have "length (lan_requests st') \<le> max 32 (length (lan_requests st))" by (simp add: tkeys_def)
  then show ?thesis unfolding lan_account_def using f assms(5)
    by (intro exI [of _ fin]) (simp add: lan_waiting_def)
qed

lemma settles_send: "settles st (lan_later e (SendLan rid payload) st)"
proof -
  let ?r = "client_send e (jobj [(''type'', jtext ''request''), (''id'', JStr rid), (''payload'', JObj payload)]) st"
  have sent: "settles st (snd ?r)" by (rule settles_same) simp_all
  show ?thesis
  proof (cases "\<not> has_key (lan_requests st) rid \<or> fst ?r")
    case True
    then show ?thesis using sent by (auto simp: lan_later_def split: prod.split)
  next
    case False
    then have "lan_later e (SendLan rid payload) st = lan_fail (qs ''The local connection closed.'') (snd ?r)"
      by (cases ?r) (simp add: lan_later_def)
    then show ?thesis using settles_trans [OF sent settles_fail] by simp
  qed
qed

lemma request_account:
  assumes "table_ok (lan_requests st)" "v_fresh e \<notin> set (lan_waiting st)"
  shows "lan_account [v_fresh e] st (lan_request e host payload st)"
proof -
  have "\<not> has_key (lan_requests st) (v_fresh e)" using assms(2) by (simp add: lan_waiting_def in_tkeys)
  then show ?thesis unfolding lan_account_def using assms(1)
    by (intro exI [of _ "[]"]) (auto simp: lan_request_def Let_def lan_completed_def lan_waiting_def tkeys_tput length_tput)
qed

lemma lan_step_account:
  assumes ok: "table_ok (lan_requests st)" and fresh: "set (lan_issues e ev) \<inter> set (lan_waiting st) = {}"
  shows "lan_account (lan_issues e ev) st (lan_step L e ev st)"
proof -
  consider (request) host payload where "ev = RequestLan host payload" | (nothing) "ev = LanLater" "waiting_work st = []"
    | (refused) rid ws where "ev = LanLater" "waiting_work st = RefuseLan rid # ws"
    | (sent) rid payload ws where "ev = LanLater" "waiting_work st = SendLan rid payload # ws"
    | (quiet) "\<forall>host payload. ev \<noteq> RequestLan host payload" "ev \<noteq> LanLater"
    by (cases "waiting_work st") (metis lan_task.exhaust)+
  then show ?thesis
  proof cases
    case request
    then show ?thesis using request_account [OF ok] fresh by (simp add: lan_step_def lan_issues_def)
  next
    case nothing
    then show ?thesis using settles_account [OF settles_refl ok] by (simp add: lan_step_def lan_issues_def)
  next
    case refused
    then show ?thesis unfolding lan_account_def using ok
      by (intro exI [of _ "[rid]"])
        (simp add: lan_step_def lan_issues_def lan_later_def lan_completed_def lan_waiting_def List.map_filter_def)
  next
    case sent
    then show ?thesis
      using settles_account [OF settles_send [of "st\<lparr>waiting_work := ws\<rparr>" e rid payload] ok]
      by (simp add: lan_step_def lan_issues_def List.map_filter_def)
  next
    case quiet
    then have "lan_issues e ev = []" by (cases ev) (simp_all add: lan_issues_def)
    then show ?thesis using settles_account [OF settles_step [OF quiet ok] ok] by simp
  qed
qed

lemma lan_step_limit:
  assumes "table_ok (lan_requests st)" "length (lan_requests st) \<le> 32"
  shows "length (lan_requests (lan_step L e ev st)) \<le> 32"
proof (cases "lan_issues e ev = []")
  case True
  then show ?thesis using lan_step_account [of st e ev L] assms by (auto simp: lan_account_def)
next
  case False
  then obtain host payload where "ev = RequestLan host payload" by (cases ev) (auto simp: lan_issues_def)
  then show ?thesis using assms by (auto simp: lan_step_def lan_request_def Let_def length_tput)
qed

lemma lan_stop_leaves: "lan_requests (lan_stop st) = []" "waiting_work (lan_stop st) = waiting_work st"
  by (simp_all add: lan_stop_def Let_def)

lemma later_leaves:
  assumes "lan_requests st = []" "waiting_work st = w # ws"
  shows "lan_requests (lan_step L e LanLater st) = []" "waiting_work (lan_step L e LanLater st) = ws"
  using assms by (auto simp: lan_step_def lan_later_def split: lan_task.split)

lemma lan_progress:
  assumes "lan_waiting st \<noteq> []" "lan_books issued st"
  shows "\<exists>fin st'. lan_job L st [] fin st' \<and> (fin \<noteq> [] \<or> length (waiting_work st') < length (waiting_work st))"
proof -
  have step: "\<exists>fin. lan_job L st [] fin (lan_step L e ev st)
      \<and> mset fin + mset (lan_waiting (lan_step L e ev st)) = mset (lan_waiting st)" if "lan_issues e ev = []" for e ev
    using lan_step_account [of st e ev L] assms(2) that
    unfolding lan_account_def lan_job_def lan_books_def by simp metis
  obtain e :: lan_env where True by simp
  show ?thesis
  proof (cases "lan_requests st = []")
    case False
    obtain fin where fin: "lan_job L st [] fin (lan_stop st)"
      "mset fin + mset (lan_waiting (lan_stop st)) = mset (lan_waiting st)"
      using step [of e StopLan] by (auto simp: lan_issues_def lan_step_def)
    have "fin \<noteq> []" using fin(2) False by (auto simp: lan_waiting_def lan_stop_leaves tkeys_def)
    then show ?thesis using fin(1) by blast
  next
    case True
    then obtain w ws where w: "waiting_work st = w # ws" using assms(1)
      by (cases "waiting_work st") (auto simp: lan_waiting_def tkeys_def)
    obtain fin where "lan_job L st [] fin (lan_step L e LanLater st)"
      using step [of e LanLater] by (auto simp: lan_issues_def)
    then show ?thesis using later_leaves(2) [OF True w, of L e] w by (intro exI conjI) auto
  qed
qed

interpretation lan_jobs: job_service "lan_job L" new_lan lan_waiting "\<lambda>st. length (lan_requests st)" 32 lan_books
  "\<lambda>st. length (waiting_work st)" for L
proof
  show "lan_waiting new_lan = []" "length (lan_requests new_lan) = 0" "lan_books [] new_lan"
    by (simp_all add: lan_waiting_def new_lan_def tkeys_def lan_books_def table_ok_def)
  fix st st' new fin issued
  assume job: "lan_job L st new fin st'" and inv: "lan_books issued st"
  then obtain e ev where ev: "st' = lan_step L e ev st" "new = lan_issues e ev"
    "lan_completed st' = lan_completed st @ fin" by (auto simp: lan_job_def)
  {
    assume "set new \<inter> set issued = {}"
    then have "set (lan_issues e ev) \<inter> set (lan_waiting st) = {}" "table_ok (lan_requests st)"
      using inv ev(2) by (auto simp: lan_books_def)
    from lan_step_account [OF this(2,1)] have "lan_account new st st'" by (simp add: ev(1,2))
    then have a: "table_ok (lan_requests st')" "mset fin + mset (lan_waiting st') = mset new + mset (lan_waiting st)"
      using ev(3) by (auto simp: lan_account_def)
    then show "mset fin + mset (lan_waiting st') = mset new + mset (lan_waiting st)" by simp
    have "set (lan_waiting st') \<subseteq> set new \<union> set (lan_waiting st)"
      using a(2) by (metis UnCI set_mset_mset set_mset_union subsetI)
    then show "lan_books (issued @ new) st'" using a(1) inv by (auto simp: lan_books_def)
  }
  show "length (lan_requests st) \<le> 32 \<Longrightarrow> length (lan_requests st') \<le> 32"
    using lan_step_limit inv ev(1) by (simp add: lan_books_def)
next
  fix st issued
  show "lan_waiting st \<noteq> [] \<Longrightarrow> lan_books issued st \<Longrightarrow> \<exists>fin st'. lan_job L st [] fin st' \<and>
      (fin \<noteq> [] \<or> length (waiting_work st') < length (waiting_work st))"
    by (rule lan_progress)
qed

lemma lan_completed_gone: "job_run (lan_job L) new_lan issued gone st \<Longrightarrow> lan_completed st = gone"
proof (induction rule: job_run.induct)
  case (run_step issued gone st new fin st')
  from run_step.hyps(2) run_step.IH show ?case by (auto simp: lan_job_def)
qed (simp add: new_lan_def lan_completed_def)

text \<open>
  Every request to the desktop completes exactly once: in every run of calls, timers and
  socket events no identifier returned by \<open>request\<close> is reported twice or while it waits; each
  is reported or waiting; at most 32 wait; and from every such state a run that issues nothing
  more reports them all.
\<close>

theorem lan_requests_complete_once:
  assumes "job_run (lan_job L) new_lan issued gone st"
  shows "distinct (lan_completed st) \<and> set (lan_completed st) \<inter> set (lan_waiting st) = {}
    \<and> set (lan_completed st) \<union> set (lan_waiting st) = set issued \<and> length (lan_requests st) \<le> 32
    \<and> (\<exists>rest st'. job_run (lan_job L) new_lan issued (gone @ rest) st'
         \<and> lan_waiting st' = [] \<and> set (lan_completed st') = set issued)"
proof -
  obtain rest st' where run: "job_run (lan_job L) new_lan issued (gone @ rest) st'"
    and held: "lan_waiting st' = []" using lan_jobs.can_drain [OF assms] by blast
  then have "set (lan_completed st') = set issued"
    using lan_jobs.completes_once [OF run] by (simp add: lan_completed_gone [OF run])
  then show ?thesis
    using lan_jobs.completes_once [OF assms] lan_jobs.accounting [OF assms] run held
    by (auto simp: lan_completed_gone [OF assms])
qed

end
