(* ===== verification/LanPairing.thy ===== *)
theory LanPairing
  imports LanPeerProperties
begin

text \<open>
  Pairing on the local network: what has to happen before a session of the host is identified,
  approved and paired, and what has to happen before the side that joins is. Both are stated
  over the history of a run: every event with its environment and the state it met.
\<close>

section \<open>Runs\<close>

type_synonym lan_history = "(lan_env \<times> lan_event \<times> lan) list"

inductive lan_run :: "lib \<Rightarrow> lan_history \<Rightarrow> lan \<Rightarrow> bool" for L where
  lan_start: "lan_run L [] new_lan"
| lan_more: "lan_run L h st \<Longrightarrow> lan_run L (h @ [(e, ev, st)]) (lan_step L e ev st)"

inductive_cases lan_runE: "lan_run L h st"

section \<open>What an operation does to the sessions\<close>

lemma clients_note [simp]: "clients (note_effect x st) = clients st"
  by (simp add: note_effect_def)

lemma clients_send [simp]: "clients (snd (lan_send e s m st)) = clients st"
  "clients (snd (client_send e m st)) = clients st"
  by (simp_all add: lan_send_def client_send_def split: option.split)

lemma clients_drop [simp]: "clients (drop_client st) = clients st"
  by (simp add: drop_client_def split: option.split)

lemma clients_set_binary [simp]: "clients (set_binary s b st) = clients st"
  by (simp add: set_binary_def)

lemma clients_complete_all [simp]: "clients (complete_all c st) = clients st"
  unfolding complete_all_def by (subst fold_frame) simp_all

lemma clients_fail [simp]: "clients (lan_fail t st) = clients st"
  by (simp add: lan_fail_def)

lemma clients_open [simp]: "clients (open_address L e st) = clients st"
  by (simp add: open_address_def Let_def)

lemma clients_abort_all [simp]: "clients (abort_all ss st) = clients st"
  unfolding abort_all_def by (rule fold_frame) simp

lemma clients_check_host: "check_host e m st = Some st' \<Longrightarrow> clients st' = clients st"
  by (auto simp: check_host_def split: if_splits)

lemma clients_client_ops [simp]:
  "clients (client_connected L e s fp st) = clients st" "clients (client_message e m st) = clients st"
  "clients (client_binary L e s f st) = clients st" "clients (client_failed L e t st) = clients st"
proof -
  show m: "clients (client_message e m st) = clients st" for m
    by (cases "check_host e m st")
      (simp_all add: client_message_def Let_def clients_check_host split: option.split)
  show "clients (client_connected L e s fp st) = clients st" by (simp add: client_connected_def Let_def)
  show "clients (client_binary L e s f st) = clients st" by (simp add: client_binary_def m)
  show "clients (client_failed L e t st) = clients st" by (simp add: client_failed_def Let_def)
qed

lemma clients_sweep [simp]: "clients (lan_sweep L e (\<lambda>rid st. st) st) = clients st"
proof -
  have "clients (fold (lan_timeout (\<lambda>rid st. st) t) ks st) = clients st" for t ks st
    by (rule fold_frame) (simp add: lan_timeout_def)
  moreover have "clients (close_late t st) = clients st" for t st
    unfolding close_late_def by (rule fold_frame) (auto split: prod.split)
  ultimately show ?thesis by (simp add: lan_sweep_def Let_def sweep_client_def sweep_qr_def)
qed

lemma clients_put_session [simp]: "clients (put_session s x st) = tput s x (clients st)"
  by (simp add: put_session_def)

lemma clients_reject [simp]: "clients (host_reject e s t st) = clients st"
  by (simp add: host_reject_def)

lemma clients_stop [simp]: "clients (lan_stop st) = []"
  by (simp add: lan_stop_def Let_def)

lemma clients_cancel [simp]: "clients (lan_cancel st) = filter (\<lambda>(s, x). s_paired x) (clients st)"
  by (simp add: lan_cancel_def Let_def)

lemma clients_later [simp]: "clients (lan_later e w st) = clients st"
proof (cases w)
  case (SendLan rid payload)
  let ?r = "client_send e (jobj [(''type'', jtext ''request''), (''id'', JStr rid), (''payload'', JObj payload)]) st"
  have "clients (snd ?r) = clients st" by simp
  then show ?thesis unfolding SendLan lan_later_def by (cases ?r) simp
qed (simp add: lan_later_def)

lemma clients_start_host [simp]: "clients (snd (start_host L e host name h as a st)) = []"
  by (auto simp: start_host_def Let_def split: option.split listen_result.split sum.split)

lemma clients_create [simp]:
  "clients (snd (create_offer L e n st)) = (if server_port st = None \<or> n < 1 \<or> n > 60 then clients st
     else filter (\<lambda>(s, x). s_paired x) (clients st))"
  by (simp add: create_offer_def Let_def)

lemma clients_device_offer:
  "clients (snd (create_device_offer L e p n st)) = clients st \<or>
   clients (snd (create_device_offer L e p n st)) = filter (\<lambda>(s, x). s_paired x) (clients st)"
  using clients_create [of L e n st]
  by (cases "create_offer L e n st") (auto simp: create_device_offer_def split: if_splits)

lemma clients_join [simp]: "clients (snd (lan_join L e t p n st)) = []"
  by (auto simp: lan_join_def Let_def split: option.split)

section \<open>The life of a session\<close>

text \<open>A \<open>pair\<close> message that the offer, the connected devices and the account proof allow.\<close>

definition admits :: "lib \<Rightarrow> lan_env \<Rightarrow> jobject \<Rightarrow> lan \<Rightarrow> bool" where
  "admits L e m st \<longleftrightarrow> to_string (jval m ''type'') = qs ''pair'' \<and> offer_accepts e m st
     \<and> \<not> list_ex (\<lambda>(t, y). s_id y = to_string (jval m ''peerId'')) (clients st)
     \<and> device_proved e m (authentication_context L (offer st) (to_string (jval m ''peerId''))
          (to_string (jval m ''nonce''))) st"

lemma tput_tput [simp]: "tput k v (tput k w t) = tput k v t"
  by (induction t) (auto simp: tput_def)

lemma tput_same: "tget t k = Some v \<Longrightarrow> tput k v t = t"
  by (induction t) (auto simp: tput_def tget_def split: if_splits)

lemma qr_simps [simp]:
  "qr (note_effect x st) = qr st" "qr (snd (lan_send e s m st)) = qr st" "qr (put_session s y st) = qr st"
  "qr (host_reject e s t st) = qr st" "qr (set_binary s b st) = qr st"
  by (simp_all add: note_effect_def lan_send_def put_session_def host_reject_def set_binary_def)

lemma host_admit_clients:
  "\<exists>y. clients (host_admit L e s x m p st) = tput s y (clients st) \<and> s_id y = to_string (jval m ''peerId'')
     \<and> s_paired y = s_paired x \<and> s_awaiting y = (expected_peer st \<noteq> [] \<or> s_awaiting x)
     \<and> qr (host_admit L e s x m p st) = []"
  by (auto simp: host_admit_def Let_def ask_files_def)

lemma device_proved_put [simp]: "device_proved e m auth (put_session s x st) = device_proved e m auth st"
  by (simp add: device_proved_def put_session_def)

lemma host_pair_cases:
  assumes "to_string (jval m ''type'') = qs ''pair''" "tget (clients st) s = Some x"
    and auth: "auth = authentication_context L (offer st) (to_string (jval m ''peerId'')) (to_string (jval m ''nonce''))"
    and p: "p = (if signer (put_session s (x\<lparr>s_authentication := auth\<rparr>) st)
        then v_sign e (role_text ''host'' auth) else fmempty)"
  obtains (refused) t where "host_pair L e s x m st = host_reject e s t st"
  | (unproved) t where "host_pair L e s x m st = host_reject e s t (put_session s (x\<lparr>s_authentication := auth\<rparr>) st)"
  | (admitted) "admits L e m st" "host_pair L e s x m st
      = host_admit L e s (x\<lparr>s_authentication := auth\<rparr>) m p (put_session s (x\<lparr>s_authentication := auth\<rparr>) st)"
proof -
  let ?peer = "to_string (jval m ''peerId'')"
  let ?auth = "authentication_context L (offer st) ?peer (to_string (jval m ''nonce''))"
  let ?x = "x\<lparr>s_authentication := ?auth\<rparr>"
  let ?p = "if signer (put_session s ?x st) then v_sign e (role_text ''host'' ?auth) else fmempty"
  note that = that [unfolded p auth]
  show thesis
  proof (cases "admits L e m st")
    case True
    then have d: "offer_accepts e m st" "\<not> list_ex (\<lambda>(t, y). s_id y = ?peer) (clients st)"
      "device_proved e m ?auth st" by (simp_all add: admits_def)
    show ?thesis
    proof (cases "signer (put_session s ?x st) \<and> ?p = fmempty")
      case True
      have "host_pair L e s x m st
          = host_reject e s (qs ''Host account authentication expired.'') (put_session s ?x st)"
        by (simp only: host_pair_def Let_def device_proved_put d not_True_eq_False if_False if_P [OF True])
      then show ?thesis by (rule that(2))
    next
      case False
      have "host_pair L e s x m st = host_admit L e s ?x m ?p (put_session s ?x st)"
        by (simp only: host_pair_def Let_def device_proved_put d not_True_eq_False if_False if_not_P [OF False])
      then show ?thesis using that(3) \<open>admits L e m st\<close> by blast
    qed
  next
    case False
    show ?thesis
    proof (cases "\<not> offer_accepts e m st \<or> list_ex (\<lambda>(t, y). s_id y = ?peer) (clients st)")
      case True
      then show ?thesis by (cases "offer_accepts e m st") (rule that(1), simp add: host_pair_def)+
    next
      case c: False
      then have "\<not> device_proved e m ?auth st" using False assms(1) by (simp add: admits_def)
      then have "host_pair L e s x m st
          = host_reject e s (qs ''Device account authentication failed.'') (put_session s ?x st)"
        using c by (simp only: host_pair_def Let_def device_proved_put simp_thms if_True if_False de_Morgan_disj)
      then show ?thesis by (rule that(2))
    qed
  qed
qed

lemma host_pair_clients:
  assumes "to_string (jval m ''type'') = qs ''pair''" "tget (clients st) s = Some x"
  shows "(\<exists>y. clients (host_pair L e s x m st) = tput s y (clients st) \<and> s_id y = s_id x
       \<and> s_paired y = s_paired x \<and> s_awaiting y = s_awaiting x \<and> qr (host_pair L e s x m st) = qr st)
    \<or> admits L e m st \<and> (\<exists>y. clients (host_pair L e s x m st) = tput s y (clients st)
       \<and> s_id y = to_string (jval m ''peerId'') \<and> s_paired y = s_paired x
       \<and> s_awaiting y = (expected_peer st \<noteq> [] \<or> s_awaiting x) \<and> qr (host_pair L e s x m st) = [])"
proof -
  let ?auth = "authentication_context L (offer st) (to_string (jval m ''peerId'')) (to_string (jval m ''nonce''))"
  let ?x = "x\<lparr>s_authentication := ?auth\<rparr>"
  let ?p = "if signer (put_session s ?x st) then v_sign e (role_text ''host'' ?auth) else fmempty"
  have same: "clients st = tput s x (clients st)" using tput_same [OF assms(2)] by simp
  show ?thesis
    using assms refl refl
  proof (cases rule: host_pair_cases [where auth = ?auth and p = ?p])
    case refused
    then show ?thesis using same by (intro disjI1 exI [of _ x]) simp
  next
    case unproved
    then show ?thesis by (intro disjI1 exI [of _ ?x]) simp
  next
    case admitted
    then show ?thesis using host_admit_clients [of L e s ?x m ?p "put_session s ?x st"]
      by (intro disjI2) (auto simp: put_session_def)
  qed
qed

text \<open>The fields of a session that matter for what it may do.\<close>

definition standing :: "lan_session \<Rightarrow> qstring \<times> bool \<times> bool" where
  "standing x = (s_id x, s_paired x, s_awaiting x)"

lemma host_message_session:
  assumes "tget (clients (host_message L e s m st)) t = Some y"
  shows "(\<exists>x. tget (clients st) t = Some x \<and> standing y = standing x)
    \<or> (\<exists>x. t = s \<and> tget (clients st) s = Some x \<and> s_id x = [] \<and> admits L e m st
         \<and> standing y = (to_string (jval m ''peerId''), s_paired x, expected_peer st \<noteq> [] \<or> s_awaiting x)
         \<and> qr (host_message L e s m st) = [])
    \<or> (\<exists>x. t = s \<and> tget (clients st) s = Some x \<and> to_string (jval m ''type'') = qs ''confirm''
         \<and> s_id y \<noteq> [] \<and> standing x = (s_id y, False, False) \<and> v_now e < s_deadline x
         \<and> standing y = (s_id y, True, False))"
proof (cases "tget (clients st) s")
  case None
  then show ?thesis using assms by (auto simp: host_message_def)
next
  case (Some x)
  let ?type = "to_string (jval m ''type'')"
  let ?c = "?type = qs ''confirm'' \<and> s_id x \<noteq> [] \<and> \<not> s_paired x \<and> \<not> s_awaiting x \<and> v_now e < s_deadline x"
  consider (pair) "?type = qs ''pair''" "s_id x = []" "host_message L e s m st = host_pair L e s x m st"
    | (confirm) ?c "clients (host_message L e s m st) = tput s (x\<lparr>s_paired := True\<rparr>) (clients st)"
    | (other) "clients (host_message L e s m st) = clients st"
  proof (cases "?type = qs ''pair'' \<and> s_id x = []")
    case True
    then show ?thesis using that(1) by (simp add: host_message_def Some Let_def)
  next
    case False
    show ?thesis
    proof (cases ?c)
      case True
      then show ?thesis using that(2) False by (simp add: host_message_def Some Let_def)
    next
      case c: False
      have "clients (host_message L e s m st) = clients st"
        unfolding host_message_def Some option.case Let_def ask_files_def prod.case if_not_P [OF False] if_not_P [OF c]
        by simp
      then show ?thesis using that(3) by simp
    qed
  qed
  then show ?thesis
  proof cases
    case pair
    from host_pair_clients [OF pair(1) Some, of L e] show ?thesis
      using assms Some unfolding pair(3)
      by (elim disjE exE conjE) (auto simp: standing_def pair(2) split: if_splits)
  next
    case confirm
    then show ?thesis using assms Some by (auto simp: standing_def split: if_splits)
  next
    case other
    then show ?thesis using assms by auto
  qed
qed

lemma confirm_device_session:
  "clients (snd (confirm_device e st)) = clients st
   \<or> (\<exists>s x y. phase st = PConfirming \<and> tget (clients st) s = Some x \<and> s_awaiting x
        \<and> clients (snd (confirm_device e st)) = tput s y (clients st) \<and> standing y = (s_id x, s_paired x, False))"
  if ok: "table_ok (clients st)"
proof (cases "phase st = PConfirming")
  case confirming: True
  show ?thesis
  proof (cases "find (\<lambda>(s, x). s_awaiting x \<and> v_now e < s_deadline x) (clients st)")
    case None
    then show ?thesis by (simp add: confirm_device_def)
  next
    case (Some p)
    then obtain s x where p: "p = (s, x)" "s_awaiting x" "(s, x) \<in> set (clients st)"
      by (cases p) (auto simp: find_Some_iff dest: nth_mem)
    then have "tget (clients st) s = Some x" using ok by (simp add: tget_in_set)
    moreover have "clients (snd (confirm_device e st))
        = tput s (x\<lparr>s_awaiting := False, s_deadline := v_now e + 15000\<rparr>) (clients st)"
      using confirming Some p(1) by (simp add: confirm_device_def ask_files_def Let_def)
    ultimately show ?thesis using confirming p(2)
      by (intro disjI2 exI [of _ s] exI [of _ x] exI conjI) (assumption | simp add: standing_def)+
  qed
qed (simp add: confirm_device_def)

lemma host_gone_clients: "clients (host_gone s st) = tdel s (clients st)"
  by (auto simp: host_gone_def Let_def tdel_absent split: option.split)

definition sessions_ok :: "lan \<Rightarrow> bool" where
  "sessions_ok st \<longleftrightarrow> table_ok (clients st)
     \<and> (\<forall>s x. tget (clients st) s = Some x \<longrightarrow> (s_paired x \<or> s_awaiting x \<longrightarrow> s_id x \<noteq> []) \<and> \<not> (s_paired x \<and> s_awaiting x))"

lemma sessions_okD:
  assumes "sessions_ok st" "tget (clients st) s = Some x"
  shows "s_paired x \<Longrightarrow> s_id x \<noteq> []" "s_awaiting x \<Longrightarrow> s_id x \<noteq> []" "s_paired x \<Longrightarrow> \<not> s_awaiting x"
  using assms by (auto simp: sessions_ok_def)

text \<open>The only ways in which a session comes to where it stands after an event.\<close>

lemma session_step:
  assumes ok: "sessions_ok st" and y: "tget (clients (lan_step L e ev st)) t = Some y"
  obtains (fresh) "standing y = ([], False, False)"
  | (same) x where "tget (clients st) t = Some x" "standing y = standing x"
  | (admitted) m where "ev = HostText t m" "admits L e m st" "qr (lan_step L e ev st) = []"
      "standing y = (to_string (jval m ''peerId''), False, expected_peer st \<noteq> [])"
  | (confirmed) m x where "ev = HostText t m" "to_string (jval m ''type'') = qs ''confirm''" "tget (clients st) t = Some x"
      "s_id y \<noteq> []" "standing x = (s_id y, False, False)" "standing y = (s_id y, True, False)"
  | (approved) x where "ev = ConfirmDevice" "phase st = PConfirming" "tget (clients st) t = Some x"
      "standing x = (s_id y, False, True)" "standing y = (s_id y, False, False)"
proof -
  have tok: "table_ok (clients st)" using ok by (simp add: sessions_ok_def)
  have unchanged: thesis if "clients (lan_step L e ev st) = clients st" using same y that by metis
  show thesis
  proof (cases ev)
    case (HostText s m)
    have st': "lan_step L e ev st = host_message L e s m st" by (simp add: HostText lan_step_def)
    from host_message_session [OF y [unfolded st']] show thesis
    proof (elim disjE exE conjE)
      fix x assume "t = s" "tget (clients st) s = Some x" "s_id x = []" "admits L e m st"
        "standing y = (to_string (jval m ''peerId''), s_paired x, expected_peer st \<noteq> [] \<or> s_awaiting x)"
        "qr (host_message L e s m st) = []"
      then show thesis using admitted [of m] HostText st' sessions_okD [OF ok, of s x] by auto
    next
      fix x assume "t = s" "tget (clients st) s = Some x" "to_string (jval m ''type'') = qs ''confirm''"
        "s_id y \<noteq> []" "standing x = (s_id y, False, False)" "standing y = (s_id y, True, False)"
      then show thesis using confirmed HostText by metis
    qed (use same in metis)
  next
    case (HostBinary s f)
    have st': "lan_step L e ev st = host_binary L e s f st" by (simp add: HostBinary lan_step_def)
    show thesis
    proof (cases "\<exists>x. tget (clients st) s = Some x \<and> s_paired x \<and> s \<in> set (binary_on st)")
      case False
      then have "clients (lan_step L e ev st) = clients st"
        unfolding st' host_binary_def by (auto split: option.splits)
      then show thesis by (rule unchanged)
    next
      case True
      then obtain x where x: "tget (clients st) s = Some x" "s_paired x" "s \<in> set (binary_on st)" by blast
      then have "lan_step L e ev st = host_message L e s (frame_decode L f) st"
        unfolding st' host_binary_def by simp
      from host_message_session [OF y [unfolded this]] show thesis
        using x sessions_okD(1) [OF ok x(1,2)] same by (auto simp: standing_def)
    qed
  next
    case (HostGone s)
    then show thesis using same y by (auto simp: lan_step_def host_gone_clients split: if_splits)
  next
    case (Incoming p)
    then show thesis using same fresh y
      by (auto simp: lan_step_def host_incoming_def standing_def fresh_session_def split: if_splits)
  next
    case ConfirmDevice
    from confirm_device_session [OF tok, of e] show thesis
    proof (elim disjE exE conjE)
      fix s x z assume a: "phase st = PConfirming" "tget (clients st) s = Some x" "s_awaiting x"
        "clients (snd (confirm_device e st)) = tput s z (clients st)" "standing z = (s_id x, s_paired x, False)"
      show thesis
      proof (cases "t = s")
        case True
        then have "y = z" using y a by (simp add: ConfirmDevice lan_step_def)
        then show thesis using approved [of x] ConfirmDevice a True sessions_okD(3) [OF ok a(2)]
          by (auto simp: standing_def)
      next
        case False
        then show thesis using same y a by (simp add: ConfirmDevice lan_step_def)
      qed
    qed (use unchanged in \<open>simp add: ConfirmDevice lan_step_def\<close>)
  next
    case (CreateDeviceOffer p n)
    then show thesis using same y clients_device_offer [of L e p n st]
      by (auto simp: lan_step_def tget_filter [OF tok] split: option.splits if_splits)
  next
    case (CreateLanOffer n)
    then show thesis using same y
      by (auto simp: lan_step_def tget_filter [OF tok] split: option.splits if_splits)
  next
    case CancelLan
    then show thesis using same y
      by (auto simp: lan_step_def tget_filter [OF tok] split: option.splits if_splits)
  next
    case (SetAuthentication a b)
    then show thesis using y by (simp add: lan_step_def set_authentication_def tget_def)
  next
    case (RequestLan h p)
    then show thesis using unchanged by (simp add: lan_step_def lan_request_def Let_def)
  next
    case LanLater
    then show thesis using unchanged by (simp add: lan_step_def split: list.splits)
  qed (use unchanged y in \<open>simp_all add: lan_step_def tget_def\<close>)
qed

lemma host_message_clients:
  "clients (host_message L e s m st) = clients st
   \<or> (\<exists>y. has_key (clients st) s \<and> clients (host_message L e s m st) = tput s y (clients st))"
proof (cases "tget (clients st) s")
  case (Some x)
  show ?thesis
  proof (cases "to_string (jval m ''type'') = qs ''pair'' \<and> s_id x = []")
    case True
    then have "host_message L e s m st = host_pair L e s x m st" by (simp add: host_message_def Some)
    then show ?thesis using host_pair_clients [of m st s x L e] True Some by (auto simp: has_key_def)
  next
    case False
    have "has_key (clients st) s" using Some by (simp add: has_key_def)
    then show ?thesis
      unfolding host_message_def Some option.case Let_def ask_files_def prod.case if_not_P [OF False] by auto
  qed
qed (simp add: host_message_def)

text \<open>The table of sessions changes at one socket, loses sessions, or is emptied.\<close>

lemma clients_shape:
  assumes "table_ok (clients st)"
  obtains "clients (lan_step L e ev st) = []" | "clients (lan_step L e ev st) = clients st"
  | "clients (lan_step L e ev st) = filter (\<lambda>(s, x). s_paired x) (clients st)"
  | s where "clients (lan_step L e ev st) = tdel s (clients st)"
  | s y where "clients (lan_step L e ev st) = tput s y (clients st)" "has_key (clients st) s \<or> length (clients st) < 8"
proof (cases ev)
  case (HostText s m)
  then show ?thesis using host_message_clients [of L e s m st] that(2,5) by (auto simp: lan_step_def)
next
  case (HostBinary s f)
  have "clients (host_binary L e s f st) \<in> {clients st, clients (host_message L e s (frame_decode L f) st)}"
    by (simp add: host_binary_def)
  then show ?thesis using HostBinary host_message_clients [of L e s "frame_decode L f" st] that(2,5)
    by (auto simp: lan_step_def)
next
  case (HostGone s)
  then show ?thesis using that(4) by (simp add: lan_step_def host_gone_clients)
next
  case (Incoming p)
  show ?thesis
  proof (cases "server_port st = None \<or> length (clients st) \<ge> 8 \<or> \<not> local_address L p")
    case True
    then show ?thesis using that(2) Incoming by (auto simp: lan_step_def host_incoming_def)
  next
    case False
    have "clients (lan_step L e ev st) = tput (v_sock e) (fresh_session (v_now e + 5000)) (clients st)"
      using False by (auto simp: Incoming lan_step_def host_incoming_def)
    then show ?thesis using that(5) False by simp
  qed
next
  case ConfirmDevice
  then show ?thesis using confirm_device_session [OF assms, of e] that(2,5)
    by (auto simp: lan_step_def has_key_def)
next
  case (CreateDeviceOffer p n)
  then show ?thesis using clients_device_offer [of L e p n st] that(2,3) by (auto simp: lan_step_def)
next
  case (CreateLanOffer n)
  then show ?thesis using that(2,3) by (cases "server_port st = None \<or> n < 1 \<or> n > 60") (simp_all add: lan_step_def)
next
  case LanLater
  then show ?thesis using that(2) by (cases "waiting_work st") (simp_all add: lan_step_def)
next
  case CancelLan
  then show ?thesis using that(3) by (simp add: lan_step_def)
next
  case (SetAuthentication a b)
  then show ?thesis using that(1) by (simp add: lan_step_def set_authentication_def)
next
  case (RequestLan h p)
  then show ?thesis using that(2) by (simp add: lan_step_def lan_request_def Let_def)
qed (use that(1,2) in \<open>auto simp: lan_step_def\<close>)

lemma clients_table_step:
  assumes "table_ok (clients st)" "length (clients st) \<le> 8"
  shows "table_ok (clients (lan_step L e ev st)) \<and> length (clients (lan_step L e ev st)) \<le> 8"
  using assms(1)
proof (cases rule: clients_shape [of st L e ev])
  case (4 s)
  then show ?thesis using assms length_tdel_le [of s "clients st"] by (simp add: table_ok_tdel)
next
  case 3
  show ?thesis unfolding 3
    using table_ok_filter [OF assms(1)] order_trans [OF length_filter_le assms(2)] by (rule conjI)
qed (use assms in \<open>auto simp: length_tput\<close>)

text \<open>When an offer is open afterwards, it was open before or has just been made.\<close>

lemma host_message_qr: "qr (host_message L e s m st) = [] \<or> qr (host_message L e s m st) = qr st"
proof (cases "tget (clients st) s")
  case (Some x)
  show ?thesis
  proof (cases "to_string (jval m ''type'') = qs ''pair'' \<and> s_id x = []")
    case True
    then have "host_message L e s m st = host_pair L e s x m st" by (simp add: host_message_def Some)
    then show ?thesis using host_pair_clients [of m st s x L e] True Some by auto
  next
    case False
    then show ?thesis
      unfolding host_message_def Some option.case Let_def ask_files_def prod.case if_not_P [OF False] by simp
  qed
qed (simp add: host_message_def)

lemma qr_client [simp]:
  "qr (drop_client st) = qr st" "qr (lan_fail t st) = []" "qr (lan_stop st) = []" "qr (lan_cancel st) = []"
proof -
  have f: "qr (fold (\<lambda>rid. note_effect (LanCompleted rid (r rid))) ks st) = qr st" for r ks st
    by (rule fold_frame) simp
  have a: "qr (abort_all ss st) = qr st" for ss st unfolding abort_all_def by (rule fold_frame) simp
  show d: "qr (drop_client st) = qr st" for st by (simp add: drop_client_def split: option.split)
  show "qr (lan_fail t st) = []" "qr (lan_stop st) = []" "qr (lan_cancel st) = []"
    by (simp_all add: lan_fail_def complete_all_def f d lan_stop_def Let_def a lan_cancel_def)
qed

lemma qr_open: "qr (open_address L e st) = [] \<or> qr (open_address L e st) = qr st"
  by (auto simp: open_address_def Let_def)

lemma qr_client_ops:
  "qr (client_connected L e s fp st) \<in> {[], qr st}" "qr (client_message e m st) \<in> {[], qr st}"
  "qr (client_binary L e s f st) \<in> {[], qr st}" "qr (client_failed L e t st) \<in> {[], qr st}"
  "qr (lan_later e w st) \<in> {[], qr st}"
proof -
  have cs: "qr (snd (client_send e m st)) = qr st" for m st by (simp add: client_send_def split: option.split)
  have ch: "qr st' = qr st" if "check_host e m st = Some st'" for st' m using that by (auto simp: check_host_def split: if_splits)
  show m: "qr (client_message e m st) \<in> {[], qr st}" for m
    by (cases "check_host e m st") (simp_all add: client_message_def Let_def ch cs split: option.split)
  show "qr (client_connected L e s fp st) \<in> {[], qr st}" by (simp add: client_connected_def Let_def)
  show "qr (client_binary L e s f st) \<in> {[], qr st}" using m by (simp add: client_binary_def)
  show "qr (client_failed L e t st) \<in> {[], qr st}"
    using qr_open [of L e "st\<lparr>connection_error := t\<rparr>"] by (simp add: client_failed_def Let_def)
  show "qr (lan_later e w st) \<in> {[], qr st}"
  proof (cases w)
    case (SendLan rid payload)
    let ?r = "client_send e (jobj [(''type'', jtext ''request''), (''id'', JStr rid), (''payload'', JObj payload)]) st"
    have "qr (snd ?r) = qr st" by (rule cs)
    then show ?thesis unfolding SendLan lan_later_def by (cases ?r) simp
  qed (simp add: lan_later_def)
qed

lemma qr_sweep: "qr (lan_sweep L e (\<lambda>rid st. st) st) \<in> {[], qr st}"
proof -
  have fold: "qr (fold (lan_timeout (\<lambda>rid st. st) t) ks st) = qr st" for t ks st
    by (rule fold_frame) (simp add: lan_timeout_def)
  have late: "qr (close_late t st) = qr st" for t st
    unfolding close_late_def by (rule fold_frame) (auto split: prod.split)
  have first: "qr (sweep_qr t st) = [] \<or> qr (sweep_qr t st) = qr st" for t by (simp add: sweep_qr_def)
  have mid: "qr (sweep_client L e st) = [] \<or> qr (sweep_client L e st) = qr st" for st
    using qr_open [of L e st] by (simp add: sweep_client_def)
  show ?thesis unfolding lan_sweep_def Let_def fold
    using mid [of "close_late (v_now e) (sweep_qr (v_now e) st)"] first [of "v_now e"] by (auto simp: late)
qed

lemma qr_confirm [simp]: "qr (snd (confirm_device e st)) = qr st"
  by (simp add: confirm_device_def ask_files_def Let_def split: option.split prod.split)

definition makes_offer :: "lan_event \<Rightarrow> bool" where
  "makes_offer ev \<longleftrightarrow> (\<exists>n. ev = CreateLanOffer n) \<or> (\<exists>p n. ev = CreateDeviceOffer p n)"

lemma create_cases:
  "create_offer L e n st = ([], st) \<or> clients (snd (create_offer L e n st)) = filter (\<lambda>(s, x). s_paired x) (clients st)"
  by (simp add: create_offer_def Let_def)

lemma qr_step:
  assumes "qr (lan_step L e ev st) \<noteq> []"
  shows "qr (lan_step L e ev st) = qr st
    \<or> makes_offer ev \<and> clients (lan_step L e ev st) = filter (\<lambda>(s, x). s_paired x) (clients st)"
proof (cases ev)
  case (HostText s m)
  then show ?thesis using assms host_message_qr [of L e s m st] by (simp add: lan_step_def)
next
  case (HostBinary s f)
  then show ?thesis using assms host_message_qr [of L e s "frame_decode L f" st]
    by (auto simp: lan_step_def host_binary_def split: if_splits)
next
  case (CreateLanOffer n)
  then show ?thesis using create_cases [of L e n st] by (auto simp: lan_step_def makes_offer_def)
next
  case (CreateDeviceOffer p n)
  show ?thesis
  proof (cases "create_offer L e n st = ([], st)")
    case True
    then show ?thesis by (simp add: CreateDeviceOffer lan_step_def create_device_offer_def)
  next
    case False
    then have "clients (snd (create_offer L e n st)) = filter (\<lambda>(s, x). s_paired x) (clients st)"
      using create_cases by blast
    then show ?thesis unfolding CreateDeviceOffer lan_step_def create_device_offer_def makes_offer_def
      by (cases "create_offer L e n st") auto
  qed
next
  case (StartHost a b c d f)
  have "qr (snd (start_host L e a b c d f st)) = []"
    by (auto simp: start_host_def Let_def split: option.split listen_result.split sum.split)
  then show ?thesis using assms StartHost by (simp add: lan_step_def)
next
  case (Join a b c)
  have o: "qr (open_address L e st') = []" if "qr st' = []" for st' using qr_open [of L e st'] that by auto
  have "qr (snd (lan_join L e a b c st)) = []" by (auto simp: lan_join_def Let_def o split: option.split)
  then show ?thesis using assms Join by (simp add: lan_step_def)
next
  case (HostGone s)
  then show ?thesis by (simp add: lan_step_def host_gone_def Let_def split: option.split)
next
  case (Incoming p)
  then show ?thesis by (simp add: lan_step_def host_incoming_def)
next
  case LanLater
  have "qr (lan_later e w (st\<lparr>waiting_work := ws\<rparr>)) \<in> {[], qr st}" for w ws
    using qr_client_ops(5) [of e w "st\<lparr>waiting_work := ws\<rparr>"] by simp
  then show ?thesis using assms LanLater by (auto simp: lan_step_def split: list.splits)
next
  case LanTimer
  then show ?thesis using assms qr_sweep [of L e st] by (auto simp: lan_step_def split: if_splits)
next
  case (ClientUp s fp)
  then show ?thesis using assms qr_client_ops(1) [of L e s fp st] by (auto simp: lan_step_def split: if_splits)
next
  case (ClientText s m)
  then show ?thesis using assms qr_client_ops(2) [of e m st] by (auto simp: lan_step_def split: if_splits)
next
  case (ClientBinary s f)
  then show ?thesis using assms qr_client_ops(3) [of L e s f st] by (auto simp: lan_step_def split: if_splits)
next
  case (ClientFailed s t)
  then show ?thesis using assms qr_client_ops(4) [of L e t st] by (auto simp: lan_step_def split: if_splits)
next
  case (RequestLan h p)
  then show ?thesis by (simp add: lan_step_def lan_request_def Let_def)
qed (use assms in \<open>auto simp: lan_step_def set_authentication_def split: if_splits\<close>)

section \<open>Invariant of the host\<close>

definition pending_session :: "lan \<Rightarrow> sock \<Rightarrow> bool" where
  "pending_session st s \<longleftrightarrow> (case tget (clients st) s of None \<Rightarrow> False | Some x \<Rightarrow> s_id x \<noteq> [] \<and> \<not> s_paired x)"

definition known_as :: "lan \<Rightarrow> sock \<Rightarrow> qstring" where
  "known_as st s = (case tget (clients st) s of None \<Rightarrow> [] | Some x \<Rightarrow> s_id x)"

definition pairing_inv :: "lan \<Rightarrow> bool" where
  "pairing_inv st \<longleftrightarrow> sessions_ok st \<and> length (clients st) \<le> 8
     \<and> (\<forall>s t. known_as st s = known_as st t \<longrightarrow> known_as st s \<noteq> [] \<longrightarrow> s = t)
     \<and> (\<forall>s t. pending_session st s \<longrightarrow> pending_session st t \<longrightarrow> s = t)
     \<and> (qr st \<noteq> [] \<longrightarrow> (\<forall>s. \<not> pending_session st s))"

lemma standing_simps: "standing x = (i, p, a) \<longleftrightarrow> s_id x = i \<and> s_paired x = p \<and> s_awaiting x = a"
  by (auto simp: standing_def)

lemma sessions_ok_step:
  assumes "sessions_ok st" "length (clients st) \<le> 8"
  shows "sessions_ok (lan_step L e ev st)" "length (clients (lan_step L e ev st)) \<le> 8"
proof -
  have t: "table_ok (clients st)" using assms(1) by (simp add: sessions_ok_def)
  have "(s_paired y \<or> s_awaiting y \<longrightarrow> s_id y \<noteq> []) \<and> \<not> (s_paired y \<and> s_awaiting y)"
    if y: "tget (clients (lan_step L e ev st)) s = Some y" for s y
    using assms(1) y
  proof (cases rule: session_step)
    case (same x)
    then show ?thesis using assms(1) by (auto simp: sessions_ok_def standing_def)
  next
    case (admitted m)
    then have "identifier_ok (to_string (jval m ''peerId''))"
      by (simp add: admits_def offer_accepts_def Let_def)
    then show ?thesis using admitted by (auto simp: standing_simps)
  next
    case (confirmed m x)
    then show ?thesis by (auto simp: standing_simps)
  qed (use assms(1) in \<open>auto simp: standing_simps sessions_ok_def\<close>)
  then show "sessions_ok (lan_step L e ev st)" "length (clients (lan_step L e ev st)) \<le> 8"
    using clients_table_step [OF t assms(2), of L e ev] by (auto simp: sessions_ok_def)
qed

lemma known_step:
  assumes "sessions_ok st" "known_as (lan_step L e ev st) s \<noteq> []"
  obtains "known_as (lan_step L e ev st) s = known_as st s"
  | m where "ev = HostText s m" "admits L e m st" "known_as (lan_step L e ev st) s = to_string (jval m ''peerId'')"
proof -
  obtain y where y: "tget (clients (lan_step L e ev st)) s = Some y" "known_as (lan_step L e ev st) s = s_id y"
    using assms(2) by (auto simp: known_as_def split: option.splits)
  show thesis
    using assms(1) y(1)
  proof (cases rule: session_step)
    case (admitted m)
    then show ?thesis using that(2) y(2) by (simp add: standing_simps)
  qed (use assms(2) y(2) that(1) in \<open>auto simp: standing_simps known_as_def standing_def\<close>)
qed

lemma pending_step:
  assumes "sessions_ok st" "pending_session (lan_step L e ev st) s"
  obtains "pending_session st s"
  | m where "ev = HostText s m" "admits L e m st" "qr (lan_step L e ev st) = []"
proof -
  obtain y where y: "tget (clients (lan_step L e ev st)) s = Some y" "s_id y \<noteq> []" "\<not> s_paired y"
    using assms(2) by (auto simp: pending_session_def split: option.splits)
  show thesis
    using assms(1) y(1)
  proof (cases rule: session_step)
    case (admitted m)
    then show ?thesis using that(2) by blast
  qed (use y(2,3) that(1) in \<open>auto simp: standing_simps pending_session_def standing_def\<close>)
qed

lemma admits_new:
  assumes "admits L e m st"
  shows "qr st \<noteq> []" "known_as st t \<noteq> to_string (jval m ''peerId'')"
proof -
  have i: "identifier_ok (to_string (jval m ''peerId''))" and q: "qr st \<noteq> []"
    using assms by (auto simp: admits_def offer_accepts_def Let_def)
  have "to_string (jval m ''peerId'') \<noteq> []" by (rule identifier_nonempty [OF i])
  moreover have "s_id y \<noteq> to_string (jval m ''peerId'')" if "tget (clients st) t = Some y" for y
    using assms tget_Some_in_set [OF that] by (auto simp: admits_def list_ex_iff)
  ultimately show "known_as st t \<noteq> to_string (jval m ''peerId'')"
    by (auto simp: known_as_def split: option.split)
  show "qr st \<noteq> []" by (rule q)
qed

lemma pairing_inv_step:
  assumes inv: "pairing_inv st"
  shows "pairing_inv (lan_step L e ev st)"
proof -
  let ?st = "lan_step L e ev st"
  have ok: "sessions_ok st" "length (clients st) \<le> 8" using inv by (simp_all add: pairing_inv_def)
  have "s = t" if eq: "known_as ?st s = known_as ?st t" "known_as ?st s \<noteq> []" for s t
    using ok(1) eq(2)
  proof (cases rule: known_step)
    case s: 1
    show ?thesis
      using ok(1) eq(2)[unfolded eq(1)]
    proof (cases rule: known_step)
      case 1
      then show ?thesis using s eq inv unfolding pairing_inv_def by metis
    next
      case (2 m)
      then show ?thesis using admits_new(2) s eq by metis
    qed
  next
    case s: (2 m)
    show ?thesis
      using ok(1) eq(2)[unfolded eq(1)]
    proof (cases rule: known_step)
      case 1
      then show ?thesis using admits_new(2) s eq by metis
    qed (use s in simp)
  qed
  moreover have "s = t" if p: "pending_session ?st s" "pending_session ?st t" for s t
    using ok(1) p(1)
  proof (cases rule: pending_step)
    case s: 1
    show ?thesis
      using ok(1) p(2)
    proof (cases rule: pending_step)
      case (2 m)
      then show ?thesis using admits_new(1) inv s by (auto simp: pairing_inv_def)
    qed (use s inv in \<open>auto simp: pairing_inv_def\<close>)
  next
    case s: (2 m)
    show ?thesis
      using ok(1) p(2)
    proof (cases rule: pending_step)
      case 1
      then show ?thesis using admits_new(1) inv s by (auto simp: pairing_inv_def)
    qed (use s in simp)
  qed
  moreover have "\<not> pending_session ?st s" if q: "qr ?st \<noteq> []" for s
  proof
    assume p: "pending_session ?st s"
    from qr_step [OF q] show False
    proof (elim disjE conjE)
      assume "qr ?st = qr st"
      with ok(1) p q show False
        by (cases rule: pending_step) (use inv in \<open>auto simp: pairing_inv_def\<close>)
    next
      assume "clients ?st = filter (\<lambda>(s, x). s_paired x) (clients st)"
      then show False using p ok(1)
        by (auto simp: pending_session_def sessions_ok_def tget_filter split: option.splits if_splits)
    qed
  qed
  ultimately show ?thesis using sessions_ok_step [OF ok, of L e ev] by (auto simp: pairing_inv_def)
qed

lemma pairing_inv_new: "pairing_inv new_lan"
  by (simp add: pairing_inv_def sessions_ok_def new_lan_def known_as_def pending_session_def tget_def)

lemma run_pairing_inv: "lan_run L h st \<Longrightarrow> pairing_inv st"
  by (induction rule: lan_run.induct) (simp_all add: pairing_inv_new pairing_inv_step)

text \<open>
  C25: In every run the host has at most eight connections, no two of them known as the same
  device, at most one device that presented a code and is not paired yet, and none of that
  kind while an offer is open. A session that is paired or waits for approval is one that
  presented a code, and none does both.
\<close>

theorem lan_host_invariant:
  assumes "lan_run L h st"
  shows "pairing_inv st"
  using assms by (rule run_pairing_inv)

section \<open>What a paired device went through\<close>

text \<open>
  The history of a session that is known as some device: the pair message that was accepted,
  the approval of the person where the offer was made for one device, and its confirmation.
\<close>

definition approved_in :: "lan_history \<Rightarrow> sock \<Rightarrow> qstring \<Rightarrow> bool" where
  "approved_in h s peer \<longleftrightarrow> (\<exists>e st x. (e, ConfirmDevice, st) \<in> set h \<and> phase st = PConfirming
     \<and> tget (clients st) s = Some x \<and> s_id x = peer \<and> s_awaiting x)"

definition confirmed_in :: "lan_history \<Rightarrow> sock \<Rightarrow> bool" where
  "confirmed_in h s \<longleftrightarrow> (\<exists>e m st. (e, HostText s m, st) \<in> set h \<and> to_string (jval m ''type'') = qs ''confirm'')"

definition explained :: "lib \<Rightarrow> lan_history \<Rightarrow> sock \<Rightarrow> qstring \<Rightarrow> bool \<Rightarrow> bool \<Rightarrow> bool" where
  "explained L h s peer paired awaiting \<longleftrightarrow>
     (\<exists>h1 e m st h2. h = h1 @ (e, HostText s m, st) # h2 \<and> admits L e m st
        \<and> to_string (jval m ''peerId'') = peer
        \<and> (expected_peer st = [] \<or> expected_peer st = peer \<and> (awaiting \<or> approved_in h2 s peer))
        \<and> (paired \<longrightarrow> confirmed_in h2 s))"

lemma in_more [simp]: "approved_in h s p \<Longrightarrow> approved_in (h @ [x]) s p" "confirmed_in h s \<Longrightarrow> confirmed_in (h @ [x]) s"
  by (auto simp: approved_in_def confirmed_in_def)

text \<open>One more event: what was waiting may have been approved by it, what was not paired confirmed.\<close>

lemma explained_more:
  assumes "explained L h s peer paired awaiting"
    and "awaiting \<and> \<not> awaiting' \<longrightarrow> approved_in [x] s peer" and "paired' \<and> \<not> paired \<longrightarrow> confirmed_in [x] s"
  shows "explained L (h @ [x]) s peer paired' awaiting'"
proof -
  obtain h1 e m st h2 where h: "h = h1 @ (e, HostText s m, st) # h2" "admits L e m st"
    "to_string (jval m ''peerId'') = peer"
    "expected_peer st = [] \<or> expected_peer st = peer \<and> (awaiting \<or> approved_in h2 s peer)"
    "paired \<longrightarrow> confirmed_in h2 s" using assms(1) unfolding explained_def by blast
  have "approved_in (h2 @ [x]) s peer" if "approved_in [x] s peer" using that by (auto simp: approved_in_def)
  moreover have "confirmed_in (h2 @ [x]) s" if "confirmed_in [x] s" using that by (auto simp: confirmed_in_def)
  moreover have "h @ [x] = h1 @ (e, HostText s m, st) # (h2 @ [x])" using h(1) by simp
  ultimately show ?thesis unfolding explained_def using h(2-5) assms(2,3) in_more by metis
qed

lemma sessions_explained:
  assumes "lan_run L h st" "tget (clients st) s = Some y" "s_id y \<noteq> []"
  shows "explained L h s (s_id y) (s_paired y) (s_awaiting y)"
  using assms
proof (induction arbitrary: y rule: lan_run.induct)
  case (lan_more h st e ev)
  have ok: "sessions_ok st" using run_pairing_inv [OF lan_more.hyps] by (simp add: pairing_inv_def)
  show ?case
    using ok lan_more.prems(1)
  proof (cases rule: session_step)
    case fresh
    then show ?thesis using lan_more.prems(2) by (simp add: standing_simps)
  next
    case (same x)
    then show ?thesis using explained_more [OF lan_more.IH [of x]] lan_more.prems(2) by (simp add: standing_def)
  next
    case (admitted m)
    have "offer_accepts e m st" using admitted(2) by (simp add: admits_def)
    then have "expected_peer st = [] \<or> expected_peer st = to_string (jval m ''peerId'')"
      by (auto simp: offer_accepts_def Let_def)
    then show ?thesis using admitted
      unfolding explained_def by (intro exI [of _ h] exI [of _ e] exI [of _ m] exI [of _ st] exI [of _ "[]"])
        (auto simp: standing_simps)
  next
    case (confirmed m x)
    have x: "s_id x = s_id y" "\<not> s_awaiting x" "\<not> s_paired x" "s_paired y" "\<not> s_awaiting y"
      using confirmed(5,6) by (auto simp: standing_simps)
    have "confirmed_in [(e, ev, st)] s" using confirmed(1,2) by (simp add: confirmed_in_def)
    then show ?thesis using explained_more [OF lan_more.IH [OF confirmed(3)]] confirmed(4) x by simp
  next
    case (approved x)
    have x: "s_id x = s_id y" "s_awaiting x" "\<not> s_paired y" "\<not> s_awaiting y" "\<not> s_paired x"
      using approved(4,5) by (auto simp: standing_simps)
    have "approved_in [(e, ev, st)] s (s_id y)"
      using approved(1,2,3) x by (simp add: approved_in_def)
    then show ?thesis using explained_more [OF lan_more.IH [OF approved(3)]] lan_more.prems(2) x by simp
  qed
qed (simp add: new_lan_def tget_def)

text \<open>
  C26: A device is paired with the host only after all of this, in this order: it sent, on the
  connection that is paired, a pair message that met an open, unexpired offer with the host's
  identifier and the exact one-time code, from a device not connected already and, where
  account proofs are required, with a proof of its account for this offer; if the offer was
  made for one device it is that device, and the person confirmed it while its request was
  shown; and it confirmed on that connection.
\<close>

theorem lan_paired_only_after:
  assumes "lan_run L h st" and "tget (clients st) s = Some x" and "s_paired x"
  shows "\<exists>h1 e m st1 h2. h = h1 @ (e, HostText s m, st1) # h2
    \<and> to_string (jval m ''peerId'') = s_id x \<and> qr st1 \<noteq> [] \<and> \<not> expired (k_expires (offer st1)) (v_now e)
    \<and> to_string (jval m ''host'') = k_host (offer st1)
    \<and> same_code (to_string (jval m ''code'')) (k_code (offer st1))
    \<and> (\<nexists>t y. (t, y) \<in> set (clients st1) \<and> s_id y = s_id x)
    \<and> device_proved e m (authentication_context L (offer st1) (s_id x) (to_string (jval m ''nonce''))) st1
    \<and> (expected_peer st1 = [] \<or> expected_peer st1 = s_id x \<and> approved_in h2 s (s_id x))
    \<and> confirmed_in h2 s"
proof -
  have ok: "sessions_ok st" using run_pairing_inv [OF assms(1)] by (simp add: pairing_inv_def)
  note x = sessions_okD [OF ok assms(2)]
  have "explained L h s (s_id x) True False"
    using sessions_explained [OF assms(1,2)] x assms(3) by simp
  then obtain h1 e m st1 h2 where h: "h = h1 @ (e, HostText s m, st1) # h2" "admits L e m st1"
    "to_string (jval m ''peerId'') = s_id x"
    "expected_peer st1 = [] \<or> expected_peer st1 = s_id x \<and> approved_in h2 s (s_id x)" "confirmed_in h2 s"
    unfolding explained_def by blast
  have "qr st1 \<noteq> [] \<and> \<not> expired (k_expires (offer st1)) (v_now e)
      \<and> to_string (jval m ''host'') = k_host (offer st1) \<and> same_code (to_string (jval m ''code'')) (k_code (offer st1))"
    using h(2) by (auto simp: admits_def offer_accepts_def Let_def)
  moreover have "\<nexists>t y. (t, y) \<in> set (clients st1) \<and> s_id y = s_id x"
    using h(2,3) by (auto simp: admits_def list_ex_iff)
  moreover have "device_proved e m (authentication_context L (offer st1) (s_id x) (to_string (jval m ''nonce''))) st1"
    using h(2,3) by (simp add: admits_def)
  ultimately show ?thesis using h by blast
qed

section \<open>One device per offer\<close>

text \<open>A device comes to be known on a connection by this event.\<close>

definition becomes_known :: "lib \<Rightarrow> lan_env \<Rightarrow> lan_event \<Rightarrow> lan \<Rightarrow> bool" where
  "becomes_known L e ev st \<longleftrightarrow> (\<exists>s. known_as st s = [] \<and> known_as (lan_step L e ev st) s \<noteq> [])"

lemma becomes_known_admits:
  assumes "sessions_ok st" "becomes_known L e ev st"
  shows "qr st \<noteq> []" "qr (lan_step L e ev st) = []"
proof -
  obtain s where s: "known_as st s = []" "known_as (lan_step L e ev st) s \<noteq> []"
    using assms(2) by (auto simp: becomes_known_def)
  then obtain y where y: "tget (clients (lan_step L e ev st)) s = Some y" "s_id y \<noteq> []"
    by (auto simp: known_as_def split: option.splits)
  have "qr st \<noteq> [] \<and> qr (lan_step L e ev st) = []"
    using assms(1) y(1)
  proof (cases rule: session_step)
    case (admitted m)
    then show ?thesis using admits_new(1) by blast
  qed (use s(1) y(2) in \<open>auto simp: standing_simps known_as_def standing_def\<close>)
  then show "qr st \<noteq> []" "qr (lan_step L e ev st) = []" by simp_all
qed

text \<open>A run goes on from any of its states.\<close>

inductive continues :: "lib \<Rightarrow> lan \<Rightarrow> lan_history \<Rightarrow> lan \<Rightarrow> bool" for L st where
  continues_none: "continues L st [] st"
| continues_more: "continues L st h st' \<Longrightarrow> continues L st (h @ [(e, ev, st')]) (lan_step L e ev st')"

lemma no_offer_without_making:
  assumes "continues L st h st'" "qr st = []" "qr st' \<noteq> []"
  shows "\<exists>x\<in>set h. makes_offer (fst (snd x))"
  using assms
proof (induction rule: continues.induct)
  case (continues_more h st' e ev)
  show ?case
  proof (cases "qr st' = []")
    case True
    then have "makes_offer ev" using qr_step [of L e ev st'] continues_more.prems(2) by auto
    then show ?thesis by simp
  qed (use continues_more in auto)
qed simp

text \<open>
  C27: An offer admits one device: when a device came to be known by its code, and after more
  events another does, then in between the application made a new offer.
\<close>

theorem offer_admits_one:
  assumes "lan_run L h st" and "becomes_known L e1 ev1 st"
    and "continues L (lan_step L e1 ev1 st) h' st'" and "becomes_known L e2 ev2 st'"
  shows "\<exists>x\<in>set h'. makes_offer (fst (snd x))"
proof -
  have first: "lan_run L (h @ [(e1, ev1, st)]) (lan_step L e1 ev1 st)" using assms(1) by (rule lan_more)
  have "\<exists>k. lan_run L k st'" using assms(3)
    by induction (use first in blast, use lan_more in blast)
  then have "sessions_ok st" "sessions_ok st'"
    using run_pairing_inv assms(1) by (auto simp: pairing_inv_def)
  then show ?thesis using no_offer_without_making [OF assms(3)] becomes_known_admits assms(2,4) by blast
qed

section \<open>Access to Files\<close>

fun asked_of :: "lan_effect \<Rightarrow> (sock \<times> qstring \<times> jobject) option" where
  "asked_of (AskFiles s p r) = Some (s, p, r)"
| "asked_of _ = None"

abbreviation asked :: "lan \<Rightarrow> (sock \<times> qstring \<times> jobject) list" where
  "asked st \<equiv> List.map_filter asked_of (trail st)"

text \<open>An event that may ask for Files, and for whom.\<close>

definition may_ask :: "lib \<Rightarrow> lan_env \<Rightarrow> lan_event \<Rightarrow> lan \<Rightarrow> sock \<times> qstring \<times> jobject \<Rightarrow> bool" where
  "may_ask L e ev st a \<longleftrightarrow> (case a of (s, p, r) \<Rightarrow>
     (\<exists>m x. (ev = HostText s m \<or> (\<exists>f. ev = HostBinary s f \<and> m = frame_decode L f)) \<and> tget (clients st) s = Some x
        \<and> s_paired x \<and> s_id x = p \<and> r = to_object (jval m ''payload''))
     \<or> (\<exists>m. ev = HostText s m \<and> admits L e m st \<and> expected_peer st = [] \<and> p = to_string (jval m ''peerId'')
          \<and> r = list_files)
     \<or> (\<exists>x. ev = ConfirmDevice \<and> phase st = PConfirming \<and> tget (clients st) s = Some x \<and> s_awaiting x
          \<and> s_id x = p \<and> r = list_files))"

lemma asked_send [simp]: "asked (snd (lan_send e s m st)) = asked st" "asked (snd (client_send e m st)) = asked st"
  by (simp_all add: lan_send_def client_send_def split: option.split)

lemma asked_reject [simp]: "asked (host_reject e s t st) = asked st"
  by (simp add: host_reject_def)

lemma asked_drop [simp]: "asked (drop_client st) = asked st"
  by (simp add: drop_client_def split: option.split)

lemma asked_complete_all [simp]: "asked (complete_all c st) = asked st"
proof -
  have "asked (fold (\<lambda>rid. note_effect (LanCompleted rid (r rid))) ks st) = asked st" for r ks st
    by (induction ks arbitrary: st) simp_all
  then show ?thesis by (simp add: complete_all_def)
qed

lemma asked_abort_all [simp]: "asked (abort_all ss st) = asked st"
  unfolding abort_all_def by (induction ss arbitrary: st) simp_all

lemma asked_fail [simp]: "asked (lan_fail t st) = asked st"
  by (simp add: lan_fail_def)

lemma asked_stop [simp]: "asked (lan_stop st) = asked st"
  by (simp add: lan_stop_def Let_def)

lemma asked_open [simp]: "asked (open_address L e st) = asked st"
  by (simp add: open_address_def Let_def)

lemma asked_client_message [simp]: "asked (client_message e m st) = asked st"
proof (cases "check_host e m st")
  case (Some st1)
  have "trail st1 = trail st" using check_host_frame [OF Some] by simp
  then show ?thesis unfolding client_message_def Let_def Some option.case
    by (simp split: option.split)
qed (simp add: client_message_def Let_def)

lemma asked_later [simp]: "asked (lan_later e w st) = asked st"
proof (cases w)
  case (SendLan rid payload)
  let ?r = "client_send e (jobj [(''type'', jtext ''request''), (''id'', JStr rid), (''payload'', JObj payload)]) st"
  have "asked (snd ?r) = asked st" by simp
  then show ?thesis unfolding SendLan lan_later_def by (cases ?r) simp
qed (simp add: lan_later_def)

lemma asked_client_ops [simp]:
  "asked (client_connected L e s fp st) = asked st" "asked (client_binary L e s f st) = asked st"
  "asked (client_failed L e t st) = asked st"
  by (simp_all add: client_connected_def client_binary_def client_failed_def Let_def)

lemma asked_sweep [simp]: "asked (lan_sweep L e (\<lambda>rid st. st) st) = asked st"
proof -
  have t: "asked (fold (lan_timeout (\<lambda>rid st. st) t) ks st) = asked st" for t ks st
    by (rule fold_frame) (simp add: lan_timeout_def)
  have c: "asked (close_late t st) = asked st" for t st
    unfolding close_late_def by (rule fold_frame) (auto split: prod.split)
  show ?thesis by (simp add: lan_sweep_def Let_def t c sweep_qr_def sweep_client_def)
qed

lemma asked_cancel [simp]: "asked (lan_cancel st) = asked st"
  by (simp add: lan_cancel_def Let_def)

lemma asked_create [simp]: "asked (snd (create_offer L e n st)) = asked st"
  by (simp add: create_offer_def Let_def)

lemma asked_device_offer [simp]: "asked (snd (create_device_offer L e p n st)) = asked st"
  using asked_create [of L e n st]
  by (cases "create_offer L e n st") (simp add: create_device_offer_def)

lemma asked_start [simp]: "asked (snd (start_host L e host name h as a st)) = asked st"
  by (auto simp: start_host_def Let_def split: option.split listen_result.split sum.split)

lemma asked_join [simp]: "asked (snd (lan_join L e t p n st)) = asked st"
  by (auto simp: lan_join_def Let_def split: option.split)

lemma asked_host_admit:
  "asked (host_admit L e s x m p st)
     = asked st @ (if expected_peer st = [] then [(s, to_string (jval m ''peerId''), list_files)] else [])"
  by (simp add: host_admit_def Let_def ask_files_def)

lemma asked_host_pair:
  assumes "to_string (jval m ''type'') = qs ''pair''" "tget (clients st) s = Some x"
  shows "asked (host_pair L e s x m st) = asked st
    \<or> admits L e m st \<and> expected_peer st = []
       \<and> asked (host_pair L e s x m st) = asked st @ [(s, to_string (jval m ''peerId''), list_files)]"
  using assms refl refl
  by (cases rule: host_pair_cases [where L = L and e = e])
    (auto simp: asked_host_admit put_session_def)

lemma asked_host_message:
  assumes "ev = HostText s m \<or> (\<exists>f. ev = HostBinary s f \<and> m = frame_decode L f \<and> (\<exists>x. tget (clients st) s = Some x \<and> s_id x \<noteq> []))"
  shows "\<exists>l. asked (host_message L e s m st) = asked st @ l \<and> list_all (may_ask L e ev st) l"
proof (cases "tget (clients st) s")
  case (Some x)
  show ?thesis
  proof (cases "to_string (jval m ''type'') = qs ''pair'' \<and> s_id x = []")
    case True
    then have pair: "host_message L e s m st = host_pair L e s x m st" by (simp add: host_message_def Some)
    have ev: "ev = HostText s m" using assms True Some by auto
    from asked_host_pair [of m st s x L e] True Some show ?thesis unfolding pair
      by (elim disjE conjE) (auto simp: may_ask_def ev)
  next
    case False
    have "asked (host_message L e s m st) \<in> {asked st, asked st @ [(s, s_id x, to_object (jval m ''payload''))]}"
      and "asked (host_message L e s m st) = asked st \<or> s_paired x"
      unfolding host_message_def Some option.case Let_def ask_files_def prod.case if_not_P [OF False] by simp_all
    then show ?thesis using Some assms by (auto simp: may_ask_def)
  qed
qed (simp add: host_message_def)

lemma asked_confirm:
  assumes "table_ok (clients st)"
  shows "\<exists>l. asked (snd (confirm_device e st)) = asked st @ l \<and> list_all (may_ask L e ConfirmDevice st) l"
proof (cases "phase st = PConfirming")
  case confirming: True
  show ?thesis
  proof (cases "find (\<lambda>(s, x). s_awaiting x \<and> v_now e < s_deadline x) (clients st)")
    case (Some p)
    then obtain s x where p: "p = (s, x)" "s_awaiting x" "(s, x) \<in> set (clients st)"
      by (cases p) (auto simp: find_Some_iff dest: nth_mem)
    then have "tget (clients st) s = Some x" using assms by (simp add: tget_in_set)
    then have ask: "may_ask L e ConfirmDevice st (s, s_id x, list_files)" using p(2) confirming by (auto simp: may_ask_def)
    have "asked (snd (confirm_device e st)) \<in> {asked st, asked st @ [(s, s_id x, list_files)]}"
      using confirming Some p(1) by (simp add: confirm_device_def ask_files_def Let_def put_session_def)
    then show ?thesis using ask by auto
  qed (simp add: confirm_device_def)
qed (simp add: confirm_device_def)

text \<open>
  C28: The host's Files are asked only on behalf of a device that may have them: for a request
  of a paired device, with that device's name and payload; for the listing that completes the
  pairing of a device whose code was accepted by an offer for anyone; or, when the offer was
  made for one device, only in the call by which the person confirms it. Messages of any other
  connection, and every other event, reach no handler.
\<close>

theorem files_only_for_admitted:
  assumes "lan_run L h st"
  shows "\<exists>l. asked (lan_step L e ev st) = asked st @ l \<and> list_all (may_ask L e ev st) l"
proof -
  have ok: "sessions_ok st" using run_pairing_inv [OF assms] by (simp add: pairing_inv_def)
  show ?thesis
  proof (cases ev)
    case (HostText s m)
    then show ?thesis using asked_host_message [of ev s m L st e] by (simp add: lan_step_def)
  next
    case (HostBinary s f)
    show ?thesis
    proof (cases "\<exists>x. tget (clients st) s = Some x \<and> s_paired x \<and> s \<in> set (binary_on st)")
      case True
      then obtain x where x: "tget (clients st) s = Some x" "s_paired x" "s \<in> set (binary_on st)" by blast
      then have "lan_step L e ev st = host_message L e s (frame_decode L f) st"
        by (simp add: HostBinary lan_step_def host_binary_def)
      then show ?thesis using asked_host_message [of ev s "frame_decode L f" L st e] HostBinary x
          sessions_okD(1) [OF ok x(1,2)] by simp
    next
      case False
      then have "lan_step L e ev st = note_effect (LanClose s) st"
        unfolding HostBinary lan_step_def host_binary_def by (auto split: option.splits)
      then show ?thesis by simp
    qed
  next
    case ConfirmDevice
    then show ?thesis using asked_confirm [of st e L] ok by (simp add: lan_step_def sessions_ok_def)
  next
    case (HostGone s)
    then show ?thesis by (simp add: lan_step_def host_gone_def Let_def split: option.split)
  next
    case (Incoming p)
    then show ?thesis by (simp add: lan_step_def host_incoming_def)
  next
    case LanLater
    then show ?thesis by (cases "waiting_work st") (simp_all add: lan_step_def)
  next
    case (SetAuthentication a b)
    then show ?thesis by (simp add: lan_step_def set_authentication_def)
  next
    case (RequestLan p r)
    then show ?thesis by (simp add: lan_step_def lan_request_def Let_def)
  qed (simp_all add: lan_step_def)
qed

end
