(* ===== verification/LanClient.thy ===== *)
theory LanClient
  imports LanPairing
begin

text \<open>
  The side that joins: before it counts as paired it met, on the connection it still uses, the
  certificate of the QR code it was given, and where account proofs are required it checked
  the host's proof for this offer and its own random number.
\<close>

section \<open>Shapes of operations\<close>

text \<open>Most operations only extend the trail; that leaves every other field alone.\<close>

lemma note_shape: "\<exists>t. note_effect x st = st\<lparr>trail := t\<rparr>"
  by (auto simp: note_effect_def)

lemma trail_again: "\<exists>t. f (st\<lparr>trail := u\<rparr>) = st\<lparr>trail := t\<rparr>" if each: "\<And>st. \<exists>t. f st = st\<lparr>trail := t\<rparr>"
proof -
  obtain t where "f (st\<lparr>trail := u\<rparr>) = st\<lparr>trail := u\<rparr>\<lparr>trail := t\<rparr>" using each by blast
  then show ?thesis by (intro exI [of _ t]) simp
qed

lemma fold_trail_shape: "\<exists>t. fold f xs st = st\<lparr>trail := t\<rparr>" if each: "\<And>x st. \<exists>t. f x st = st\<lparr>trail := t\<rparr>"
proof (induction xs arbitrary: st)
  case Nil
  show ?case by (intro exI [of _ "trail st"]) simp
next
  case (Cons x xs)
  obtain u where u: "f x st = st\<lparr>trail := u\<rparr>" using each by blast
  show ?case using trail_again [of "fold f xs" u st] Cons.IH u by simp
qed

lemma send_shape: "\<exists>t. snd (lan_send e s m st) = st\<lparr>trail := t\<rparr>" "\<exists>t. snd (client_send e m st) = st\<lparr>trail := t\<rparr>"
proof -
  have same: "\<exists>t. st = st\<lparr>trail := t\<rparr>" by (intro exI [of _ "trail st"]) simp
  show lan: "\<exists>t. snd (lan_send e s m st) = st\<lparr>trail := t\<rparr>" for s
    using note_shape same by (simp add: lan_send_def)
  show "\<exists>t. snd (client_send e m st) = st\<lparr>trail := t\<rparr>"
    using lan same by (cases "client st") (simp_all add: client_send_def)
qed

lemma abort_shape: "\<exists>t. abort_all ss st = st\<lparr>trail := t\<rparr>"
  unfolding abort_all_def by (rule fold_trail_shape) (rule note_shape)

lemma complete_shape: "\<exists>t. complete_all c st = st\<lparr>lan_requests := [], trail := t\<rparr>"
  using fold_trail_shape [of "\<lambda>rid. note_effect (LanCompleted rid (error_object c))" "tkeys (lan_requests st)"
      "st\<lparr>lan_requests := []\<rparr>"] note_shape by (simp add: complete_all_def)

lemma drop_shape: "\<exists>t. drop_client st = st\<lparr>client := None, trail := t\<rparr>"
proof (cases "client st")
  case None
  then show ?thesis by (intro exI [of _ "trail st"]) (simp add: drop_client_def)
qed (auto simp: drop_client_def note_effect_def)

lemma close_shape: "\<exists>t. close_late d st = st\<lparr>trail := t\<rparr>"
proof -
  have "\<exists>t. (case p of (s, x) \<Rightarrow> if \<not> s_paired x \<and> s_deadline x \<le> d then note_effect (LanClose s) else id) st
      = st\<lparr>trail := t\<rparr>" for p and st :: lan
  proof (cases "\<not> s_paired (snd p) \<and> s_deadline (snd p) \<le> d")
    case True
    then show ?thesis by (cases p) (simp add: note_shape)
  next
    case False
    then show ?thesis by (cases p) (intro exI [of _ "trail st"], auto)
  qed
  then show ?thesis unfolding close_late_def by (rule fold_trail_shape)
qed

lemma timeouts_shape: "\<exists>r t. fold (lan_timeout (\<lambda>rid st. st) d) ks st = st\<lparr>lan_requests := r, trail := t\<rparr>"
proof (induction ks arbitrary: st)
  case Nil
  show ?case by (intro exI [of _ "lan_requests st"] exI [of _ "trail st"]) simp
next
  case (Cons k ks)
  have "\<exists>r t. lan_timeout (\<lambda>rid st. st) d k st = st\<lparr>lan_requests := r, trail := t\<rparr>"
  proof (cases "case tget (lan_requests st) k of None \<Rightarrow> True | Some x \<Rightarrow> x \<le> d")
    case True
    then show ?thesis by (auto simp: lan_timeout_def note_effect_def)
  next
    case False
    then show ?thesis by (intro exI [of _ "lan_requests st"] exI [of _ "trail st"]) (simp add: lan_timeout_def)
  qed
  then obtain r t where "lan_timeout (\<lambda>rid st. st) d k st = st\<lparr>lan_requests := r, trail := t\<rparr>" by blast
  moreover obtain r' t' where "fold (lan_timeout (\<lambda>rid st. st) d) ks (st\<lparr>lan_requests := r, trail := t\<rparr>)
      = st\<lparr>lan_requests := r, trail := t\<rparr>\<lparr>lan_requests := r', trail := t'\<rparr>" using Cons by blast
  ultimately show ?case by (intro exI [of _ r'] exI [of _ t']) simp
qed

lemma fail_shape: "\<exists>t. lan_fail msg st = st\<lparr>lan_error := msg, phase := PError, qr := [],
    joining := (joining st)\<lparr>k_code := []\<rparr>, client_paired := False, client := None, lan_requests := [], trail := t\<rparr>"
proof -
  let ?a = "st\<lparr>lan_error := msg, phase := PError, qr := [], joining := (joining st)\<lparr>k_code := []\<rparr>, client_paired := False\<rparr>"
  obtain t where t: "drop_client ?a = ?a\<lparr>client := None, trail := t\<rparr>" using drop_shape by blast
  obtain u where "complete_all ''connection_lost'' (?a\<lparr>client := None, trail := t\<rparr>)
      = ?a\<lparr>client := None, trail := t\<rparr>\<lparr>lan_requests := [], trail := u\<rparr>" using complete_shape by blast
  then show ?thesis unfolding lan_fail_def t by (intro exI [of _ "u @ [Changed]"]) (simp add: note_effect_def)
qed

section \<open>What the joining side has seen\<close>

text \<open>The host proved its account for this offer and number, in a message on this connection.\<close>

definition host_proved_in :: "lan_history \<Rightarrow> sock \<Rightarrow> bytes \<Rightarrow> bool" where
  "host_proved_in h s auth \<longleftrightarrow> (\<exists>e m st. (e, ClientText s m, st) \<in> set h
     \<and> to_string (jval m ''type'') \<in> {qs ''verify'', qs ''ready''}
     \<and> v_verify e (role_text ''host'' auth) (to_object (jval m ''proof'')))"

definition host_paired_in :: "lan_history \<Rightarrow> sock \<Rightarrow> qstring \<Rightarrow> bool" where
  "host_paired_in h s host \<longleftrightarrow> (\<exists>e m st. (e, ClientText s m, st) \<in> set h
     \<and> to_string (jval m ''type'') = qs ''paired'' \<and> to_string (jval m ''host'') = host)"

text \<open>The link in use is that of a QR code the application gave, current when it was given.\<close>

definition scanned :: "lib \<Rightarrow> lan_history \<Rightarrow> lan_link \<Rightarrow> bool" where
  "scanned L h k \<longleftrightarrow> (\<exists>e t p n st q. (e, Join t p n, st) \<in> set h \<and> lan_decode L t = Some q
     \<and> \<not> expired (k_expires q) (v_now e) \<and> k_host q = k_host k \<and> k_fingerprint q = k_fingerprint k)"

definition story :: "lib \<Rightarrow> lan_history \<Rightarrow> lan \<Rightarrow> sock \<Rightarrow> bool" where
  "story L h st s \<longleftrightarrow> (\<exists>h1 e st1 h2. h = h1 @ (e, ClientUp s (k_fingerprint (joining st)), st1) # h2
     \<and> k_host (joining st1) = k_host (joining st)
     \<and> authentication st = authentication_context L (joining st1) (client_id st1) (random_code e)
     \<and> (authenticated st \<longrightarrow> host_proved_in h2 s (authentication st))
     \<and> (client_paired st \<longrightarrow> host_paired_in h2 s (k_host (joining st))))"

definition joiner_inv :: "lib \<Rightarrow> lan_history \<Rightarrow> lan \<Rightarrow> bool" where
  "joiner_inv L h st \<longleftrightarrow> (case client st of
       None \<Rightarrow> \<not> client_paired st
     | Some s \<Rightarrow> clients st = [] \<and> server_port st = None \<and> scanned L h (joining st)
         \<and> (phase st \<in> {PVerifying, PConfirming} \<longrightarrow> hello_sent st \<and> \<not> client_paired st)
         \<and> (client_paired st \<longrightarrow> hello_sent st \<and> (signer st \<or> verifier st \<longrightarrow> authenticated st))
         \<and> (hello_sent st \<longrightarrow> story L h st s))"

lemma in_longer [simp]:
  "host_proved_in h s a \<Longrightarrow> host_proved_in (h @ [x]) s a" "host_paired_in h s p \<Longrightarrow> host_paired_in (h @ [x]) s p"
  "scanned L h k \<Longrightarrow> scanned L (h @ [x]) k"
  unfolding host_proved_in_def host_paired_in_def scanned_def by (metis UnCI set_append)+

text \<open>The story goes on over an event that leaves the connection and the link alone.\<close>

lemma story_more:
  assumes "story L h st s"
    and "k_fingerprint (joining st') = k_fingerprint (joining st)" "k_host (joining st') = k_host (joining st)"
      "authentication st' = authentication st"
    and "authenticated st' \<longrightarrow> authenticated st \<or> host_proved_in [x] s (authentication st)"
    and "client_paired st' \<longrightarrow> client_paired st \<or> host_paired_in [x] s (k_host (joining st))"
  shows "story L (h @ [x]) st' s"
proof -
  obtain h1 e st1 h2 where h: "h = h1 @ (e, ClientUp s (k_fingerprint (joining st)), st1) # h2"
    "k_host (joining st1) = k_host (joining st)"
    "authentication st = authentication_context L (joining st1) (client_id st1) (random_code e)"
    "authenticated st \<longrightarrow> host_proved_in h2 s (authentication st)"
    "client_paired st \<longrightarrow> host_paired_in h2 s (k_host (joining st))"
    using assms(1) unfolding story_def by blast
  have a: "authenticated st' \<longrightarrow> host_proved_in (h2 @ [x]) s (authentication st')"
    using h(4) assms(4,5) by (auto simp: host_proved_in_def)
  have b: "client_paired st' \<longrightarrow> host_paired_in (h2 @ [x]) s (k_host (joining st'))"
    using h(5) assms(3,6) by (auto simp: host_paired_in_def)
  show ?thesis unfolding story_def
    using h(1,2,3) assms(2,3,4) a b
    by (intro exI [of _ h1] exI [of _ e] exI [of _ st1] exI [of _ "h2 @ [x]"]) simp
qed

definition joiner_view where
  "joiner_view st = ((client st, client_paired st, hello_sent st), (authentication st, authenticated st),
     (k_host (joining st), k_fingerprint (joining st)), (signer st, verifier st), (clients st, server_port st))"

lemma scanned_link: "k_host k' = k_host k \<Longrightarrow> k_fingerprint k' = k_fingerprint k \<Longrightarrow> scanned L h k' = scanned L h k"
  by (simp add: scanned_def)

lemma joiner_keeps:
  assumes "joiner_inv L h st" "joiner_view st' = joiner_view st"
    "phase st' = phase st \<or> phase st' \<notin> {PVerifying, PConfirming}"
  shows "joiner_inv L (h @ [x]) st'"
proof (cases "client st")
  case None
  then show ?thesis using assms(1,2) by (simp add: joiner_inv_def joiner_view_def)
next
  case (Some s)
  have v: "client st' = client st" "client_paired st' = client_paired st" "hello_sent st' = hello_sent st"
    "authentication st' = authentication st" "authenticated st' = authenticated st"
    "k_host (joining st') = k_host (joining st)" "k_fingerprint (joining st') = k_fingerprint (joining st)"
    "signer st' = signer st" "verifier st' = verifier st" "clients st' = clients st" "server_port st' = server_port st"
    using assms(2) by (simp_all add: joiner_view_def)
  have "story L (h @ [x]) st' s" if "story L h st s" using story_more [OF that] v by simp
  moreover have "scanned L (h @ [x]) (joining st')" if "scanned L h (joining st)"
    using that scanned_link [OF v(6,7)] by simp
  ultimately show ?thesis using assms(1,3) v Some by (auto simp: joiner_inv_def)
qed

lemma joiner_drops: "client st' = None \<Longrightarrow> \<not> client_paired st' \<Longrightarrow> joiner_inv L h st'"
  by (simp add: joiner_inv_def)

lemma joiner_fail: "joiner_inv L h (lan_fail t st)"
  using fail_shape [of t st] by (auto intro: joiner_drops)

text \<open>Trying the next address: nothing has been said on the new connection.\<close>

lemma joiner_open:
  assumes "clients st = []" "server_port st = None" "scanned L h (joining st)" "\<not> client_paired st"
    "phase st \<notin> {PVerifying, PConfirming}"
  shows "joiner_inv L h (open_address L e st)"
proof -
  obtain t where d: "drop_client st = st\<lparr>client := None, trail := t\<rparr>" using drop_shape by blast
  let ?opened = "note_effect (LanOpen (v_sock e) (k_addresses (joining st) ! address_index st) (k_port (joining st)))
    ((set_binary (v_sock e) False (st\<lparr>client := None, trail := t, client := Some (v_sock e)\<rparr>))\<lparr>hello_sent := False,
      address_index := address_index st + 1, connect_deadline := v_now e + 4000\<rparr>)"
  have opened: "joiner_inv L h ?opened"
    using assms by (simp add: joiner_inv_def set_binary_def note_effect_def)
  have "(\<exists>u st1. open_address L e st = lan_fail u st1) \<or> open_address L e st = ?opened"
    unfolding open_address_def Let_def d by (simp add: set_binary_def) blast
  then show ?thesis using joiner_fail opened by metis
qed

lemma stop_shape: "\<exists>t. lan_stop st = st\<lparr>ticking := False, server_port := None, client := None, clients := [],
    client_paired := False, handling := False, offer := no_link, joining := no_link, qr := [], lan_error := [],
    peer_name := [], expected_peer := [], verification_code := [], client_nonce := [], phase := PIdle,
    connection_error := [], lan_requests := [], trail := t\<rparr>"
proof -
  let ?a = "st\<lparr>ticking := False, server_port := None\<rparr>"
  obtain t where t: "drop_client ?a = ?a\<lparr>client := None, trail := t\<rparr>" using drop_shape by blast
  let ?b = "?a\<lparr>client := None, trail := t\<rparr>"
  obtain u where u: "abort_all (tkeys (clients ?b)) ?b = ?b\<lparr>trail := u\<rparr>" using abort_shape by blast
  let ?c = "?b\<lparr>trail := u\<rparr>\<lparr>clients := [], client_paired := False, handling := False, offer := no_link, joining := no_link,
    qr := [], lan_error := [], peer_name := [], expected_peer := [], verification_code := [],
    client_nonce := [], phase := PIdle, connection_error := []\<rparr>"
  obtain v where v: "complete_all ''stopped'' ?c = ?c\<lparr>lan_requests := [], trail := v\<rparr>" using complete_shape by blast
  have "lan_stop st = note_effect Changed (complete_all ''stopped'' ?c)"
    unfolding lan_stop_def Let_def t u by simp
  then show ?thesis unfolding v by (intro exI [of _ "v @ [Changed]"]) (simp add: note_effect_def)
qed

lemma stop_fields: "client (lan_stop st) = None" "client_paired (lan_stop st) = False" "server_port (lan_stop st) = None"
  "phase (lan_stop st) = PIdle" "clients (lan_stop st) = []"
proof -
  obtain t where "lan_stop st = st\<lparr>ticking := False, server_port := None, client := None, clients := [],
    client_paired := False, handling := False, offer := no_link, joining := no_link, qr := [], lan_error := [],
    peer_name := [], expected_peer := [], verification_code := [], client_nonce := [], phase := PIdle,
    connection_error := [], lan_requests := [], trail := t\<rparr>" using stop_shape by blast
  then show "client (lan_stop st) = None" "client_paired (lan_stop st) = False" "server_port (lan_stop st) = None"
    "phase (lan_stop st) = PIdle" "clients (lan_stop st) = []" by simp_all
qed

lemma joiner_stop: "joiner_inv L h (lan_stop st)"
  by (simp add: joiner_drops stop_fields)

section \<open>Every event keeps the story\<close>

lemma joiner_update:
  assumes inv: "joiner_inv L h st" "client st = Some s"
    and same: "client st' = Some s" "hello_sent st' = hello_sent st" "authentication st' = authentication st"
      "k_host (joining st') = k_host (joining st)" "k_fingerprint (joining st') = k_fingerprint (joining st)"
      "signer st' = signer st" "verifier st' = verifier st" "clients st' = clients st" "server_port st' = server_port st"
    and auth: "authenticated st' \<longrightarrow> authenticated st \<or> host_proved_in [x] s (authentication st)"
      "authenticated st \<longrightarrow> authenticated st'"
    and paired: "client_paired st' \<longrightarrow> client_paired st \<or> host_paired_in [x] s (k_host (joining st)) \<and> hello_sent st
      \<and> phase st' \<notin> {PVerifying, PConfirming} \<and> (signer st \<or> verifier st \<longrightarrow> authenticated st')"
    and phase: "phase st' \<in> {PVerifying, PConfirming} \<longrightarrow> phase st \<in> {PVerifying, PConfirming}"
  shows "joiner_inv L (h @ [x]) st'"
proof -
  have i: "clients st = []" "server_port st = None" "scanned L h (joining st)"
    "phase st \<in> {PVerifying, PConfirming} \<longrightarrow> hello_sent st \<and> \<not> client_paired st"
    "client_paired st \<longrightarrow> hello_sent st \<and> (signer st \<or> verifier st \<longrightarrow> authenticated st)"
    "hello_sent st \<longrightarrow> story L h st s" using inv by (simp_all add: joiner_inv_def)
  have "story L (h @ [x]) st' s" if "hello_sent st"
    using i(6) that same auth paired by (intro story_more [of L h st s]) auto
  moreover have "scanned L (h @ [x]) (joining st')" using i(3) scanned_link [OF same(4,5)] by simp
  ultimately show ?thesis using i same auth paired phase by (auto simp: joiner_inv_def)
qed

lemma send_fields:
  "client (snd (client_send e m st)) = client st" "hello_sent (snd (client_send e m st)) = hello_sent st"
  "joiner_view (snd (client_send e m st)) = joiner_view st" "phase (snd (client_send e m st)) = phase st"
  "joiner_view (note_effect x st) = joiner_view st" "phase (note_effect x st) = phase st"
  using send_shape(2) [of e m st] note_shape [of x st] by (auto simp: joiner_view_def)

lemma joiner_view_fields:
  assumes "joiner_view st' = joiner_view st"
  shows "client st' = client st" "client_paired st' = client_paired st" "hello_sent st' = hello_sent st"
    "authentication st' = authentication st" "authenticated st' = authenticated st"
    "k_host (joining st') = k_host (joining st)" "k_fingerprint (joining st') = k_fingerprint (joining st)"
    "signer st' = signer st" "verifier st' = verifier st" "clients st' = clients st" "server_port st' = server_port st"
  using assms by (simp_all add: joiner_view_def)

lemma check_host_result:
  assumes "check_host e m st = Some st1"
  shows "st1 = st \<and> \<not> (to_string (jval m ''type'') \<in> {qs ''verify'', qs ''ready''} \<and> (signer st \<or> verifier st))
    \<or> st1 = st\<lparr>authenticated := True\<rparr> \<and> to_string (jval m ''type'') \<in> {qs ''verify'', qs ''ready''}
        \<and> v_verify e (role_text ''host'' (authentication st)) (to_object (jval m ''proof''))"
  using assms unfolding check_host_def by (auto split: if_splits)

lemma joiner_if: "(c \<Longrightarrow> joiner_inv L h a) \<Longrightarrow> (\<not> c \<Longrightarrow> joiner_inv L h b) \<Longrightarrow> joiner_inv L h (if c then a else b)"
  by simp

lemma joiner_client_message:
  assumes inv: "joiner_inv L h st" "client st = Some s"
  shows "joiner_inv L (h @ [(e, ClientText s m, st)]) (client_message e m st)"
proof (cases "to_string (jval m ''type'') = qs ''error'' \<or> check_host e m st = None")
  case True
  then show ?thesis by (auto simp: client_message_def Let_def joiner_fail)
next
  case False
  let ?x = "(e, ClientText s m, st)" and ?type = "to_string (jval m ''type'')"
  obtain st1 where st1: "check_host e m st = Some st1" using False by auto
  note r = check_host_result [OF st1]
  have proved: "st1 = st \<or> host_proved_in [?x] s (authentication st)"
    using r by (auto simp: host_proved_in_def)
  have v1: "client st1 = Some s" "hello_sent st1 = hello_sent st" "authentication st1 = authentication st"
    "joining st1 = joining st" "signer st1 = signer st" "verifier st1 = verifier st" "clients st1 = clients st"
    "server_port st1 = server_port st" "phase st1 = phase st" "client_paired st1 = client_paired st"
    using r inv(2) by auto
  have auth: "authenticated st1 \<longrightarrow> authenticated st \<or> host_proved_in [?x] s (authentication st)"
    "authenticated st \<longrightarrow> authenticated st1" using proved r by auto
  have hello: "phase st \<in> {PVerifying, PConfirming} \<longrightarrow> hello_sent st" using inv by (simp add: joiner_inv_def)
  let ?same = "to_string (jval m ''host'') = k_host (joining st1)"
  have verify: "joiner_inv L (h @ [?x]) (note_effect Changed (st1\<lparr>phase := PConfirming, pair_deadline := v_now e + 60000\<rparr>))"
    if "phase st1 = PVerifying"
    using that v1 auth inv by (intro joiner_update [OF inv]) (auto simp: note_effect_def)
  have ready: "joiner_inv L (h @ [?x]) (snd (client_send e (jobj [(''type'', jtext ''confirm'')]) (st1\<lparr>phase := PVerifying\<rparr>)))"
    if "phase st1 = PVerifying \<or> phase st1 = PConfirming"
  proof -
    obtain t where t: "snd (client_send e (jobj [(''type'', jtext ''confirm'')]) (st1\<lparr>phase := PVerifying\<rparr>))
        = st1\<lparr>phase := PVerifying\<rparr>\<lparr>trail := t\<rparr>" using send_shape(2) by blast
    show ?thesis unfolding t using that v1 auth inv by (intro joiner_update [OF inv]) auto
  qed
  have paired: "joiner_inv L (h @ [?x]) (note_effect y (note_effect Changed (case client (st1\<lparr>client_paired := True, phase := PPaired,
        peer_name := n\<rparr>) of None \<Rightarrow> st1\<lparr>client_paired := True, phase := PPaired, peer_name := n\<rparr>
      | Some s \<Rightarrow> set_binary s b (st1\<lparr>client_paired := True, phase := PPaired, peer_name := n\<rparr>))))"
    if "phase st1 = PVerifying" "?type = qs ''paired''" ?same "\<not> ((signer st1 \<or> verifier st1) \<and> \<not> authenticated st1)" for y n b
  proof -
    have "host_paired_in [?x] s (k_host (joining st))" using that(2,3) v1 by (auto simp: host_paired_in_def)
    then show ?thesis using that v1 auth hello
      by (intro joiner_update [OF inv]) (auto simp: note_effect_def set_binary_def)
  qed
  have response: "joiner_inv L (h @ [?x]) (note_effect y (st1\<lparr>lan_requests := q\<rparr>))" for y q
    using v1 auth by (intro joiner_update [OF inv]) (auto simp: note_effect_def)
  have other: "joiner_inv L (h @ [?x]) st1" using v1 auth by (intro joiner_update [OF inv]) auto
  show ?thesis
    unfolding client_message_def Let_def st1 option.case(2)
    by (intro joiner_if; (rule joiner_fail | rule other | rule response | (rule verify, simp) | (rule ready, simp)
      | (rule paired; simp)))
qed

end
