(* ===== verification/LanJoining.thy ===== *)
theory LanJoining
  imports LanClient
begin

text \<open>
  Every event of the peer keeps the story of the side that joins (theory \<open>LanClient\<close>), so
  that a run that ends with it paired has gone through all of it.
\<close>

section \<open>The slots of the connection and the timer\<close>

lemma joiner_connected:
  assumes inv: "joiner_inv L h st" "client st = Some s" and fresh: "\<not> client_paired st"
  shows "joiner_inv L (h @ [(e, ClientUp s fp, st)]) (client_connected L e s fp st)"
proof (cases "fp = k_fingerprint (joining st)")
  case False
  then show ?thesis by (simp add: client_connected_def joiner_fail)
next
  case True
  let ?x = "(e, ClientUp s fp, st)" and ?k = "joining st" and ?n = "random_code e"
  let ?auth = "authentication_context L ?k (client_id st) ?n"
  let ?st = "st\<lparr>hello_sent := True, phase := PVerifying, client_nonce := ?n,
    verification_code := verification_text L ?k (client_id st) ?n, authenticated := False, authentication := ?auth\<rparr>"
  have i: "clients st = []" "server_port st = None" "scanned L h ?k" using inv by (simp_all add: joiner_inv_def)
  have said: "joiner_inv L (h @ [?x]) (note_effect Changed (snd (lan_send e s m ?st)\<lparr>joining := ?k\<lparr>k_code := []\<rparr>\<rparr>))"
    if "\<not> client_paired st" for m
  proof -
    obtain t where t: "snd (lan_send e s m ?st) = ?st\<lparr>trail := t\<rparr>" using send_shape(1) by blast
    have "story L (h @ [?x]) (note_effect Changed (?st\<lparr>trail := t, joining := ?k\<lparr>k_code := []\<rparr>\<rparr>)) s"
      unfolding story_def using True that
      by (intro exI [of _ h] exI [of _ e] exI [of _ st] exI [of _ "[]"]) (simp add: note_effect_def)
    moreover have "scanned L (h @ [?x]) (?k\<lparr>k_code := []\<rparr>)" using i(3) scanned_link [of "?k\<lparr>k_code := []\<rparr>" ?k] by simp
    ultimately show ?thesis unfolding t using i(1,2) inv(2) that by (simp add: joiner_inv_def note_effect_def)
  qed
  show ?thesis
    unfolding client_connected_def Let_def if_not_P [OF not_not [THEN iffD2, OF True]]
    by (intro joiner_if; (rule joiner_fail | (rule said, rule fresh)))
qed

lemma joiner_failed:
  assumes inv: "joiner_inv L h st" "client st = Some s"
  shows "joiner_inv L h (client_failed L e t st)"
proof (cases "hello_sent st")
  case False
  let ?st = "st\<lparr>connection_error := t\<rparr>"
  have "joiner_inv L h (open_address L e ?st)"
    using inv False by (intro joiner_open) (auto simp: joiner_inv_def)
  then show ?thesis using False by (simp add: client_failed_def)
qed (simp add: client_failed_def joiner_fail)

lemma joiner_binary:
  assumes inv: "joiner_inv L h st" "client st = Some s"
  shows "joiner_inv L (h @ [x]) (client_binary L e s' f st)"
proof (cases "client_paired st \<and> s' \<in> set (binary_on st)")
  case True
  let ?m = "frame_decode L f"
  have ph: "phase st \<notin> {PVerifying, PConfirming}" "client_paired st" using inv True by (auto simp: joiner_inv_def)
  have auth: "signer st \<or> verifier st \<longrightarrow> authenticated st" using inv ph by (auto simp: joiner_inv_def)
  have other: "joiner_inv L (h @ [x]) (note_effect y (st1\<lparr>lan_requests := q\<rparr>))" "joiner_inv L (h @ [x]) st1"
    if "check_host e ?m st = Some st1" for st1 y q
  proof -
    have "st1 = st \<or> st1 = st\<lparr>authenticated := True\<rparr> \<and> authenticated st"
      using that auth by (auto simp: check_host_def split: if_splits)
    then show "joiner_inv L (h @ [x]) st1" "joiner_inv L (h @ [x]) (note_effect y (st1\<lparr>lan_requests := q\<rparr>))"
      using inv by (auto intro!: joiner_update [OF inv] simp: note_effect_def)
  qed
  have "joiner_inv L (h @ [x]) (client_message e ?m st)"
  proof (cases "check_host e ?m st")
    case None
    then show ?thesis by (simp add: client_message_def Let_def joiner_fail)
  next
    case (Some st1)
    have "phase st1 = phase st" using check_host_result [OF Some] by auto
    then have no: "phase st1 \<noteq> PVerifying" "phase st1 \<noteq> PConfirming" using ph by auto
    show ?thesis
      unfolding client_message_def Let_def Some option.case(2)
      by (intro joiner_if; (rule joiner_fail | rule other [OF Some] | simp add: no))
  qed
  then show ?thesis using True by (simp add: client_binary_def)
qed (auto simp: client_binary_def joiner_fail)

lemma joiner_later:
  assumes inv: "joiner_inv L h st"
  shows "joiner_inv L (h @ [x]) (lan_later e w st)"
proof (cases w)
  case (SendLan rid payload)
  let ?m = "jobj [(''type'', jtext ''request''), (''id'', JStr rid), (''payload'', JObj payload)]"
  obtain ok st1 where s: "client_send e ?m st = (ok, st1)" by fastforce
  have v: "joiner_view st1 = joiner_view st" "phase st1 = phase st"
    using send_fields(3,4) [of e ?m st] unfolding s by simp_all
  have "joiner_inv L (h @ [x]) st1" using v by (intro joiner_keeps [OF inv]) simp_all
  moreover have "joiner_inv L (h @ [x]) st" by (intro joiner_keeps [OF inv]) simp_all
  ultimately show ?thesis unfolding SendLan lan_later_def lan_task.case s prod.case
    by (intro joiner_if) (auto simp: joiner_fail)
next
  case (RefuseLan rid)
  show ?thesis unfolding RefuseLan lan_later_def lan_task.case
    using send_fields(5,6) by (intro joiner_keeps [OF inv]) simp_all
qed

lemma joiner_trail: "joiner_view (st\<lparr>trail := t\<rparr>) = joiner_view st" "joiner_view (st\<lparr>lan_requests := r\<rparr>) = joiner_view st"
  by (simp_all add: joiner_view_def)

text \<open>What the timer does before and after it looks at the connection.\<close>

lemma sweep_shapes:
  "joiner_view (sweep_qr d st) = joiner_view st" "phase (sweep_qr d st) \<in> {phase st, PError}"
  "joiner_view (close_late d st) = joiner_view st" "phase (close_late d st) = phase st"
  "joiner_view (fold (lan_timeout (\<lambda>rid st. st) d) ks st) = joiner_view st"
  "phase (fold (lan_timeout (\<lambda>rid st. st) d) ks st) = phase st"
proof -
  show "joiner_view (sweep_qr d st) = joiner_view st" "phase (sweep_qr d st) \<in> {phase st, PError}"
    by (simp_all add: sweep_qr_def joiner_view_def note_effect_def)
  obtain t where "close_late d st = st\<lparr>trail := t\<rparr>" using close_shape by blast
  then show "joiner_view (close_late d st) = joiner_view st" "phase (close_late d st) = phase st"
    by (simp_all add: joiner_view_def)
  obtain r u where "fold (lan_timeout (\<lambda>rid st. st) d) ks st = st\<lparr>lan_requests := r, trail := u\<rparr>"
    using timeouts_shape by blast
  then show "joiner_view (fold (lan_timeout (\<lambda>rid st. st) d) ks st) = joiner_view st"
    "phase (fold (lan_timeout (\<lambda>rid st. st) d) ks st) = phase st"
    by (simp_all add: joiner_view_def)
qed

lemma joiner_sweep:
  assumes inv: "joiner_inv L h st"
  shows "joiner_inv L (h @ [x]) (lan_sweep L e (\<lambda>rid st. st) st)"
proof -
  define st1 where "st1 = close_late (v_now e) (sweep_qr (v_now e) st)"
  have v: "joiner_view st1 = joiner_view st" "phase st1 = phase st \<or> phase st1 = PError"
    using sweep_shapes(1,2) [of "v_now e" st] by (auto simp: st1_def sweep_shapes(3,4))
  have one: "joiner_inv L (h @ [x]) st1" using v by (intro joiner_keeps [OF inv]) auto
  have two: "joiner_inv L (h @ [x]) (sweep_client L e st1)"
  proof (cases "client st1 = None \<or> client_paired st1 \<or> pair_deadline st1 \<le> v_now e \<or> hello_sent st1 \<or> v_now e < connect_deadline st1")
    case True
    then show ?thesis using one by (auto simp: sweep_client_def joiner_fail)
  next
    case False
    then have "sweep_client L e st1 = open_address L e st1" by (auto simp: sweep_client_def)
    moreover have "joiner_inv L (h @ [x]) (open_address L e st1)"
      using one False by (intro joiner_open) (auto simp: joiner_inv_def)
    ultimately show ?thesis by simp
  qed
  have keep: "joiner_inv L k (fold (lan_timeout (\<lambda>rid st. st) d) ks st2)" if "joiner_inv L k st2" for k d ks st2
  proof -
    obtain r u where f: "fold (lan_timeout (\<lambda>rid st. st) d) ks st2 = st2\<lparr>lan_requests := r, trail := u\<rparr>"
      using timeouts_shape by blast
    show ?thesis unfolding f using that by (simp add: joiner_inv_def story_def split: option.splits)
  qed
  show ?thesis unfolding lan_sweep_def Let_def st1_def [symmetric] by (rule keep [OF two])
qed

lemma cancel_shape: "\<exists>t. lan_cancel st = st\<lparr>qr := [], offer := (offer st)\<lparr>k_code := []\<rparr>, expected_peer := [],
    verification_code := [], clients := filter (\<lambda>(s, x). s_paired x) (clients st),
    client := (if client_paired st then client st else None),
    phase := (if server_port st \<noteq> None then PHosting else if client_paired st then PPaired else PIdle),
    lan_error := [], trail := t\<rparr>"
proof -
  let ?a = "st\<lparr>qr := [], offer := (offer st)\<lparr>k_code := []\<rparr>, expected_peer := [], verification_code := []\<rparr>"
  let ?b = "?a\<lparr>clients := filter (\<lambda>(s, x). s_paired x) (clients ?a)\<rparr>"
  obtain u where u: "abort_all (map fst (filter (\<lambda>(s, x). \<not> s_paired x) (clients ?a))) ?b = ?b\<lparr>trail := u\<rparr>"
    using abort_shape by blast
  obtain t where t: "drop_client (?b\<lparr>trail := u\<rparr>) = ?b\<lparr>trail := u\<rparr>\<lparr>client := None, trail := t\<rparr>" using drop_shape by blast
  show ?thesis
  proof (cases "client_paired st")
    case True
    show ?thesis unfolding lan_cancel_def Let_def u using True
      by (intro exI [of _ "u @ [Changed]"]) (simp add: note_effect_def)
  next
    case False
    then have "\<not> client_paired (?b\<lparr>trail := u\<rparr>)" by simp
    then show ?thesis unfolding lan_cancel_def Let_def u if_not_P [OF \<open>\<not> client_paired (?b\<lparr>trail := u\<rparr>)\<close>] t using False
      by (intro exI [of _ "t @ [Changed]"]) (simp add: note_effect_def)
  qed
qed

lemma joiner_cancel:
  assumes inv: "joiner_inv L h st"
  shows "joiner_inv L (h @ [x]) (lan_cancel st)"
proof -
  obtain t where c: "lan_cancel st = st\<lparr>qr := [], offer := (offer st)\<lparr>k_code := []\<rparr>, expected_peer := [],
    verification_code := [], clients := filter (\<lambda>(s, x). s_paired x) (clients st),
    client := (if client_paired st then client st else None),
    phase := (if server_port st \<noteq> None then PHosting else if client_paired st then PPaired else PIdle),
    lan_error := [], trail := t\<rparr>" using cancel_shape by blast
  show ?thesis
  proof (cases "client_paired st")
    case True
    then have "clients st = []" using inv by (cases "client st") (simp_all add: joiner_inv_def)
    then show ?thesis unfolding c using True by (intro joiner_keeps [OF inv]) (auto simp: joiner_view_def)
  next
    case False
    then show ?thesis unfolding c by (intro joiner_drops) simp_all
  qed
qed

section \<open>The host, the methods and every run\<close>

text \<open>The host's operations have no part in the side that joins.\<close>

definition joins :: "lan \<Rightarrow> sock option \<times> bool" where
  "joins st = (client st, client_paired st)"

lemma joins_simps [simp]:
  "joins (note_effect x st) = joins st" "joins (snd (lan_send e s m st)) = joins st" "joins (put_session s y st) = joins st"
  "joins (host_reject e s t st) = joins st" "joins (set_binary s b st) = joins st"
  "joins (st\<lparr>phase := p\<rparr>) = joins st" "joins (st\<lparr>lan_error := t\<rparr>) = joins st" "joins (st\<lparr>qr := t\<rparr>) = joins st"
  "joins (st\<lparr>offer := k\<rparr>) = joins st" "joins (st\<lparr>peer_name := t\<rparr>) = joins st" "joins (st\<lparr>clients := l\<rparr>) = joins st"
  "joins (st\<lparr>verification_code := t\<rparr>) = joins st" "joins (st\<lparr>expected_peer := t\<rparr>) = joins st"
  by (simp_all add: joins_def note_effect_def lan_send_def put_session_def host_reject_def set_binary_def)

lemma joins_host_admit: "joins (host_admit L e s x m p st) = joins st"
  by (simp add: host_admit_def Let_def ask_files_def)

lemma joins_host_pair: "joins (host_pair L e s x m st) = joins st"
  by (simp add: host_pair_def Let_def joins_host_admit)

lemma joins_host_message: "joins (host_message L e s m st) = joins st"
proof (cases "tget (clients st) s")
  case (Some x)
  show ?thesis by (simp add: host_message_def Some Let_def joins_host_pair ask_files_def)
qed (simp add: host_message_def)

lemma joins_host:
  "joins (host_binary L e s f st) = joins st" "joins (host_incoming L e p st) = joins st"
  "joins (host_gone s st) = joins st" "joins (snd (confirm_device e st)) = joins st"
proof -
  show "joins (host_binary L e s f st) = joins st"
    unfolding host_binary_def by (simp add: joins_host_message split del: if_split split: if_split)
  show "joins (host_incoming L e p st) = joins st" by (simp add: host_incoming_def)
  show "joins (host_gone s st) = joins st" by (simp add: host_gone_def Let_def split: option.split)
  show "joins (snd (confirm_device e st)) = joins st"
    by (simp add: confirm_device_def Let_def ask_files_def split: option.split prod.split)
qed

lemma joins_cancel: "client st = None \<Longrightarrow> joins (lan_cancel st) = joins st"
  using cancel_shape [of st] by (auto simp: joins_def)

lemma joins_offers: "client st = None \<Longrightarrow> joins (snd (create_offer L e n st)) = joins st"
  "client st = None \<Longrightarrow> joins (snd (create_device_offer L e p n st)) = joins st"
proof -
  show c: "joins (snd (create_offer L e n st)) = joins st" if "client st = None"
    using joins_cancel [OF that] by (simp add: create_offer_def Let_def)
  show "joins (snd (create_device_offer L e p n st)) = joins st" if "client st = None"
    using c [OF that] by (cases "create_offer L e n st") (auto simp: create_device_offer_def)
qed

text \<open>While this side joins it has no connections of devices and no server.\<close>

lemma joiner_host_event:
  assumes inv: "joiner_inv L h st"
    and ev: "ev \<in> {HostText s m, HostBinary s f, HostGone s, Incoming p, CreateLanOffer n, CreateDeviceOffer p n, ConfirmDevice}"
  shows "joiner_inv L (h @ [x]) (lan_step L e ev st)"
proof (cases "client st")
  case None
  then have "joins (lan_step L e ev st) = joins st"
    using ev joins_offers [OF None] by (auto simp: lan_step_def joins_host joins_host_message)
  then show ?thesis using inv None by (auto simp: joiner_inv_def joins_def)
next
  case (Some c)
  then have quiet: "clients st = []" "server_port st = None" using inv by (simp_all add: joiner_inv_def)
  then have "lan_step L e ev st = st \<or> (\<exists>y. lan_step L e ev st = note_effect y st)"
    using ev by (auto simp: lan_step_def host_message_def host_binary_def host_gone_def host_incoming_def create_offer_def
        create_device_offer_def confirm_device_def tget_def)
  then show ?thesis using send_fields(5,6) joiner_keeps [OF inv] by (elim disjE exE) simp_all
qed

lemma joiner_start_host: "joiner_inv L h (snd (start_host L e host name hh as a st))"
  by (auto simp: start_host_def Let_def joiner_fail joiner_drops stop_fields note_effect_def
      split: option.split listen_result.split sum.split)

lemma joiner_join: "joiner_inv L (h @ [(e, Join t p n, st)]) (snd (lan_join L e t p n st))"
proof (cases "lan_decode L t")
  case (Some k)
  let ?h = "h @ [(e, Join t p n, st)]"
  let ?st = "(lan_stop st)\<lparr>joining := k, client_id := p, client_name := n, phase := PConnecting,
    pair_deadline := v_now e + 15000, address_index := 0, ticking := True\<rparr>"
  have "joiner_inv L ?h (note_effect Changed (open_address L e ?st))" if "\<not> expired (k_expires k) (v_now e)"
  proof -
    have "scanned L ?h k" using Some that unfolding scanned_def
      by (intro exI [of _ e] exI [of _ t] exI [of _ p] exI [of _ n] exI [of _ st] exI [of _ k]) simp
    then have "joiner_inv L ?h (open_address L e ?st)" by (intro joiner_open) (simp_all add: stop_fields)
    then show ?thesis by (auto simp: note_effect_def joiner_inv_def story_def split: option.splits)
  qed
  then show ?thesis by (simp add: lan_join_def Let_def Some joiner_fail)
qed (simp add: lan_join_def Let_def joiner_fail)

text \<open>A socket reports that it is connected once.\<close>

definition connects_once :: "lan_history \<Rightarrow> bool" where
  "connects_once h \<longleftrightarrow> (\<forall>(e, ev, st) \<in> set h. \<forall>s fp. ev = ClientUp s fp \<and> client st = Some s \<longrightarrow> \<not> hello_sent st)"

lemma joiner_run:
  assumes "lan_run L h st" "connects_once h"
  shows "joiner_inv L h st"
  using assms
proof induction
  case lan_start
  show ?case by (simp add: joiner_inv_def new_lan_def)
next
  case (lan_more h st e ev)
  have inv: "joiner_inv L h st" using lan_more by (simp add: connects_once_def)
  let ?x = "(e, ev, st)"
  have same: "joiner_inv L (h @ [?x]) st" by (intro joiner_keeps [OF inv]) simp_all
  note host = joiner_host_event [OF inv, of ev _ _ _ _ _ ?x e]
  show ?case
  proof (cases ev)
    case (ClientUp s fp)
    have "\<not> client_paired st" if "client st = Some s"
      using lan_more.prems ClientUp that inv by (auto simp: connects_once_def joiner_inv_def)
    then show ?thesis using joiner_connected [OF inv, of s e fp] same ClientUp by (simp add: lan_step_def)
  next
    case (ClientText s m)
    then show ?thesis using joiner_client_message [OF inv, of s e m] same by (simp add: lan_step_def)
  next
    case (ClientBinary s f)
    then show ?thesis using joiner_binary [OF inv, of s] same by (simp add: lan_step_def)
  next
    case (ClientFailed s t)
    then show ?thesis using joiner_failed [OF same, of s e t] same by (simp add: lan_step_def)
  next
    case LanTimer
    then show ?thesis using joiner_sweep [OF inv] same by (simp add: lan_step_def)
  next
    case LanLater
    show ?thesis
    proof (cases "waiting_work st")
      case (Cons w ws)
      have "joiner_inv L h (st\<lparr>waiting_work := ws\<rparr>)"
        using inv by (simp add: joiner_inv_def story_def split: option.splits)
      then show ?thesis using joiner_later LanLater Cons by (simp add: lan_step_def)
    qed (use LanLater same in \<open>simp add: lan_step_def\<close>)
  next
    case (RequestLan p r)
    have "joiner_view (lan_request e p r st) = joiner_view st" "phase (lan_request e p r st) = phase st"
      by (simp_all add: lan_request_def Let_def joiner_view_def)
    then show ?thesis using joiner_keeps [OF inv] RequestLan by (simp add: lan_step_def)
  next
    case (SetAuthentication a b)
    then show ?thesis by (simp add: lan_step_def set_authentication_def joiner_drops stop_fields)
  qed (use host joiner_fail same joiner_start_host joiner_join joiner_cancel [OF inv] joiner_stop in
      \<open>simp_all add: lan_step_def\<close>)
qed

text \<open>
  C31: The side that joined counts as paired only with the desktop of a QR code it was given
  while that was current: on the connection it still uses it met exactly the certificate of
  that code, then was told by a message naming that desktop that they are paired, and where
  account proofs are in use it verified in between the desktop's proof over this link, its own
  name and the random number it drew for this connection.
\<close>

theorem lan_client_trusts_pin:
  assumes "lan_run L h st" and "connects_once h" and "client_paired st"
  shows "\<exists>s h1 e st1 h2. client st = Some s \<and> h = h1 @ (e, ClientUp s (k_fingerprint (joining st)), st1) # h2
    \<and> scanned L h (joining st) \<and> host_paired_in h2 s (k_host (joining st))
    \<and> (signer st \<or> verifier st \<longrightarrow>
        host_proved_in h2 s (authentication_context L (joining st1) (client_id st1) (random_code e)))"
proof -
  have inv: "joiner_inv L h st" using joiner_run [OF assms(1,2)] .
  then obtain s where s: "client st = Some s" using assms(3) by (cases "client st") (auto simp: joiner_inv_def)
  then have i: "scanned L h (joining st)" "signer st \<or> verifier st \<longrightarrow> authenticated st" "story L h st s"
    using inv assms(3) by (auto simp: joiner_inv_def)
  from i(3) obtain h1 e st1 h2 where h: "h = h1 @ (e, ClientUp s (k_fingerprint (joining st)), st1) # h2"
    "authentication st = authentication_context L (joining st1) (client_id st1) (random_code e)"
    "authenticated st \<longrightarrow> host_proved_in h2 s (authentication st)" "host_paired_in h2 s (k_host (joining st))"
    using assms(3) unfolding story_def by blast
  then show ?thesis using s i(1,2) by auto
qed

end
