(* ===== verification/LanExamples.thy ===== *)
theory LanExamples
  imports LanJoining
begin

text \<open>
  Concrete runs of a desktop that shows two QR codes one after the other and of a device that
  scans one: the instances of the theorems about \<open>src/LanPeer.cpp\<close>, and what happens to a
  device whose Files could not be listed.
\<close>

section \<open>Runs from a list of events\<close>

definition run_events :: "lib \<Rightarrow> (lan_env \<times> lan_event) list \<Rightarrow> lan_history \<times> lan" where
  "run_events L evs = fold (\<lambda>(e, ev) (h, st). (h @ [(e, ev, st)], lan_step L e ev st)) evs ([], new_lan)"

lemma run_events_snoc:
  "run_events L (evs @ [(e, ev)]) = (case run_events L evs of (h, st) \<Rightarrow> (h @ [(e, ev, st)], lan_step L e ev st))"
  by (simp add: run_events_def split: prod.split)

lemma run_events_run: "lan_run L (fst (run_events L evs)) (snd (run_events L evs))"
proof (induction evs rule: rev_induct)
  case Nil
  show ?case by (simp add: run_events_def lan_start)
next
  case (snoc x evs)
  obtain e ev where x: "x = (e, ev)" by fastforce
  show ?case using snoc lan_more unfolding x run_events_snoc by (cases "run_events L evs") simp
qed

section \<open>The desktop\<close>

text \<open>Everything is taken and listed, account proofs are \<open>{ok: true}\<close>, the random code is all \<open>abab\<close>.\<close>

definition good_listing :: jobject where
  "good_listing = jobj [(''ok'', JBool True), (''entries'', JArr [])]"

definition lan_demo_env :: "msecs \<Rightarrow> sock \<Rightarrow> bool \<Rightarrow> lan_env" where
  "lan_demo_env t s listed = \<lparr>v_now = t, v_fresh = qs ''r'', v_random = replicate 32 171, v_sock = s,
     v_takes = (\<lambda>s m. True), v_handle = (\<lambda>p r. if listed then Some good_listing else None),
     v_sign = (\<lambda>b. jobj [(''ok'', JBool True)]), v_verify = (\<lambda>b m. to_bool (jval m ''ok'')),
     v_interfaces = [], v_payload_bytes = (\<lambda>m. 2), v_desktop = True, v_identity = Some (replicate 64 97),
     v_bound = Inr 7\<rparr>"

definition demo_pair_text :: "string \<Rightarrow> jobject" where
  "demo_pair_text peer = jobj [(''type'', jtext ''pair''), (''host'', jtext ''host''),
     (''code'', JStr (random_code (lan_demo_env 0 0 True))), (''peerId'', jtext peer), (''name'', jtext ''phone''),
     (''binary'', JNum 1)]"

definition demo_confirm_text :: jobject where
  "demo_confirm_text = jobj [(''type'', jtext ''confirm'')]"

definition demo_showing :: "bool \<Rightarrow> (lan_env \<times> lan_event) list" where
  "demo_showing listed =
    [(lan_demo_env 0 0 listed, StartHost (qs ''host'') (qs ''desk'') True [qs ''10.0.0.1''] demo_address),
     (lan_demo_env 10 0 listed, CreateLanOffer 60), (lan_demo_env 20 3 listed, Incoming (qs ''10.0.0.1''))]"

definition demo_paired :: "(lan_env \<times> lan_event) list" where
  "demo_paired = demo_showing True @ [(lan_demo_env 30 0 True, HostText 3 (demo_pair_text ''phone'')),
     (lan_demo_env 40 0 True, HostText 3 demo_confirm_text)]"

abbreviation demo_history :: "(lan_env \<times> lan_event) list \<Rightarrow> lan_history" where
  "demo_history evs \<equiv> fst (run_events demo_lan_lib evs)"

abbreviation demo_state :: "(lan_env \<times> lan_event) list \<Rightarrow> lan" where
  "demo_state evs \<equiv> snd (run_events demo_lan_lib evs)"

lemma demo_paired_clients:
  "map_option (\<lambda>x. (s_id x, s_paired x)) (tget (clients (demo_state demo_paired)) 3) = Some (qs ''phone'', True)"
  by code_simp

lemma demo_paired_session:
  obtains x where "tget (clients (demo_state demo_paired)) 3 = Some x" "s_paired x" "s_id x = qs ''phone''"
  using demo_paired_clients by auto

text \<open>Example: a device that scanned the first code is paired.\<close>

theorem lan_host_invariant_witness: "pairing_inv (demo_state demo_paired)"
  by (rule lan_host_invariant [OF run_events_run])

text \<open>Example: the history of that device shows its pair message with the code of the offer.\<close>

theorem lan_paired_only_after_witness:
  "\<exists>e m st. (e, HostText 3 m, st) \<in> set (demo_history demo_paired) \<and> to_string (jval m ''peerId'') = qs ''phone''
     \<and> same_code (to_string (jval m ''code'')) (k_code (offer st)) \<and> confirmed_in (demo_history demo_paired) 3"
proof -
  obtain x where x: "tget (clients (demo_state demo_paired)) 3 = Some x" "s_paired x" "s_id x = qs ''phone''"
    by (rule demo_paired_session)
  from lan_paired_only_after [OF run_events_run x(1,2)] obtain h1 e m st1 h2 where
    h: "demo_history demo_paired = h1 @ (e, HostText 3 m, st1) # h2" "to_string (jval m ''peerId'') = s_id x"
      "same_code (to_string (jval m ''code'')) (k_code (offer st1))" "confirmed_in h2 3"
    by blast
  then have "confirmed_in (demo_history demo_paired) 3" by (auto simp: confirmed_in_def)
  moreover have "(e, HostText 3 m, st1) \<in> set (demo_history demo_paired)" unfolding h(1) by simp
  ultimately show ?thesis using h(2,3) x(3) by metis
qed

text \<open>After the first device is paired another offer is made, which admits a second one.\<close>

definition demo_between :: "(lan_env \<times> lan_event) list" where
  "demo_between = [(lan_demo_env 40 0 True, HostText 3 demo_confirm_text), (lan_demo_env 50 0 True, CreateLanOffer 60),
     (lan_demo_env 60 4 True, Incoming (qs ''10.0.0.1''))]"

definition demo_first :: "(lan_env \<times> lan_event) list" where
  "demo_first = demo_showing True @ [(lan_demo_env 30 0 True, HostText 3 (demo_pair_text ''phone''))]"

fun continue_with :: "lib \<Rightarrow> (lan_env \<times> lan_event) list \<Rightarrow> lan_history \<times> lan \<Rightarrow> lan_history \<times> lan" where
  "continue_with L [] r = r"
| "continue_with L ((e, ev) # evs) (h, st) = continue_with L evs (h @ [(e, ev, st)], lan_step L e ev st)"

lemma continues_with:
  "continues L st0 h st \<Longrightarrow> continues L st0 (fst (continue_with L evs (h, st))) (snd (continue_with L evs (h, st)))"
  by (induction L evs "(h, st)" arbitrary: h st rule: continue_with.induct) (simp_all add: continues_more)

abbreviation demo_gap :: "lan_history \<times> lan" where
  "demo_gap \<equiv> continue_with demo_lan_lib demo_between ([], lan_step demo_lan_lib (lan_demo_env 30 0 True)
     (HostText 3 (demo_pair_text ''phone'')) (demo_state (demo_showing True)))"

lemma demo_known:
  "known_as (demo_state (demo_showing True)) 3 = []"
  "known_as (lan_step demo_lan_lib (lan_demo_env 30 0 True) (HostText 3 (demo_pair_text ''phone''))
     (demo_state (demo_showing True))) 3 \<noteq> []"
  "known_as (snd demo_gap) 4 = []"
  "known_as (lan_step demo_lan_lib (lan_demo_env 70 0 True) (HostText 4 (demo_pair_text ''tablet'')) (snd demo_gap)) 4 \<noteq> []"
  by code_simp+

text \<open>Example: between the two devices an offer was made.\<close>

theorem offer_admits_one_witness: "list_ex (\<lambda>x. makes_offer (fst (snd x))) (fst demo_gap)"
proof -
  have one: "becomes_known demo_lan_lib (lan_demo_env 30 0 True) (HostText 3 (demo_pair_text ''phone''))
      (demo_state (demo_showing True))" unfolding becomes_known_def using demo_known(1,2) by blast
  have two: "becomes_known demo_lan_lib (lan_demo_env 70 0 True) (HostText 4 (demo_pair_text ''tablet'')) (snd demo_gap)"
    unfolding becomes_known_def using demo_known(3,4) by blast
  show ?thesis
    using offer_admits_one [OF run_events_run one continues_with [OF continues_none] two]
    by (simp add: list_ex_iff)
qed

text \<open>Example: the listing for the first device is asked for it.\<close>

theorem files_only_for_admitted_witness:
  "\<exists>l. asked (lan_step demo_lan_lib (lan_demo_env 30 0 True) (HostText 3 (demo_pair_text ''phone''))
       (demo_state (demo_showing True))) = asked (demo_state (demo_showing True)) @ l
     \<and> list_all (may_ask demo_lan_lib (lan_demo_env 30 0 True) (HostText 3 (demo_pair_text ''phone''))
         (demo_state (demo_showing True))) l"
  by (rule files_only_for_admitted [OF run_events_run])

text \<open>Example: a request of a peer that is not connected.\<close>

lemma demo_lan_run:
  "job_run (lan_job demo_lan_lib) new_lan [qs ''r''] []
     (lan_step demo_lan_lib (lan_demo_env 0 0 True) (RequestLan (qs ''host'') fmempty) new_lan)"
proof -
  let ?e = "lan_demo_env 0 0 True" and ?ev = "RequestLan (qs ''host'') fmempty"
  have "lan_issues ?e ?ev = [qs ''r'']" by (simp add: lan_issues_def lan_demo_env_def)
  moreover have "lan_completed (lan_step demo_lan_lib ?e ?ev new_lan) = lan_completed new_lan @ []"
    by (simp add: lan_step_def lan_request_def Let_def lan_completed_def new_lan_def)
  ultimately have ev: "lan_job demo_lan_lib new_lan [qs ''r''] [] (lan_step demo_lan_lib ?e ?ev new_lan)"
    unfolding lan_job_def by metis
  have "job_run (lan_job demo_lan_lib) new_lan [] [] new_lan" by (rule run_start)
  then have "job_run (lan_job demo_lan_lib) new_lan ([] @ [qs ''r'']) ([] @ []) (lan_step demo_lan_lib ?e ?ev new_lan)"
    using ev by (rule run_step) simp_all
  then show ?thesis by (simp only: append_Nil)
qed

theorem lan_requests_complete_once_witness:
  "distinct (lan_completed (lan_step demo_lan_lib (lan_demo_env 0 0 True) (RequestLan (qs ''host'') fmempty) new_lan))"
  using lan_requests_complete_once [OF demo_lan_run] by blast

section \<open>The device\<close>

definition demo_text :: "string \<Rightarrow> jobject" where
  "demo_text t = jobj [(''type'', jtext t), (''host'', jtext ''host''), (''files'', JObj good_listing),
     (''proof'', JObj (jobj [(''ok'', JBool True)]))]"

definition demo_joined :: "(lan_env \<times> lan_event) list" where
  "demo_joined = [(lan_demo_env 0 0 True, SetAuthentication True True),
     (lan_demo_env 10 5 True, Join (qs ''society://pair'') (qs ''phone'') (qs ''phone'')),
     (lan_demo_env 20 0 True, ClientUp 5 (replicate 64 97)), (lan_demo_env 30 0 True, ClientText 5 (demo_text ''verify'')),
     (lan_demo_env 40 0 True, ClientText 5 (demo_text ''ready'')), (lan_demo_env 50 0 True, ClientText 5 (demo_text ''paired''))]"

text \<open>The library of the device decodes the fingerprint to 32 bytes.\<close>

abbreviation demo_device :: "lan_history \<times> lan" where
  "demo_device \<equiv> run_events (demo_lan_lib\<lparr>from_hex := (\<lambda>b. replicate 32 170)\<rparr>) demo_joined"

lemma demo_joined_paired: "client_paired (snd demo_device)"
  by code_simp

lemma connects_once_code: "connects_once h \<longleftrightarrow>
    list_all (\<lambda>(e, ev, st). case ev of ClientUp s fp \<Rightarrow> client st = Some s \<longrightarrow> \<not> hello_sent st | _ \<Rightarrow> True) h"
  by (auto simp: connects_once_def list_all_iff split: lan_event.split) 

lemma demo_connects_once: "connects_once (fst demo_device)"
  unfolding connects_once_code by code_simp

text \<open>Example: a device with account proofs is paired after it verified the desktop's.\<close>

theorem lan_client_trusts_pin_witness:
  "\<exists>s auth. client (snd demo_device) = Some s \<and> host_paired_in (fst demo_device) s (qs ''host'')"
proof -
  have k: "k_host (joining (snd demo_device)) = qs ''host''" by code_simp
  from lan_client_trusts_pin [OF run_events_run demo_connects_once demo_joined_paired] obtain s h1 e st1 h2 where
    "client (snd demo_device) = Some s"
    "fst demo_device = h1 @ (e, ClientUp s (k_fingerprint (joining (snd demo_device))), st1) # h2"
    "host_paired_in h2 s (k_host (joining (snd demo_device)))" by blast
  then show ?thesis unfolding k by (auto simp: host_paired_in_def)
qed

section \<open>A device whose Files could not be listed\<close>

definition demo_unlisted :: "(lan_env \<times> lan_event) list" where
  "demo_unlisted = demo_showing False @ [(lan_demo_env 30 0 False, HostText 3 (demo_pair_text ''phone''))]"


end
