(* ===== verification/LanHonest.thy ===== *)
theory LanHonest
  imports LanExamples
begin

text \<open>
  Two honest sides: what the device and the desktop of \<open>src/LanPeer.cpp\<close> send each other from the
  scanned code to the paired connection, each message taken from one side's socket and given to
  the other's. Both sides use account proofs, with \<open>account\<close>, or neither does.
\<close>

section \<open>The messages\<close>

definition pair_frame :: "lan_link \<Rightarrow> qstring \<Rightarrow> qstring \<Rightarrow> qstring \<Rightarrow> jobject \<Rightarrow> jobject" where
  "pair_frame k peer name nonce proof_object = jobj [(''proof'', JObj proof_object), (''type'', jtext ''pair''),
     (''host'', JStr (k_host k)), (''code'', JStr (k_code k)), (''peerId'', JStr peer), (''name'', JStr name),
     (''nonce'', JStr nonce), (''binary'', JNum 1)]"

definition verify_frame :: "qstring \<Rightarrow> jobject \<Rightarrow> jobject" where
  "verify_frame host proof_object = jobj [(''proof'', JObj proof_object), (''type'', jtext ''verify''), (''host'', JStr host)]"

definition paired_frame :: "lan_link \<Rightarrow> jobject" where
  "paired_frame k = jobj [(''type'', jtext ''paired''), (''host'', JStr (k_host k)), (''name'', JStr (k_name k)), (''binary'', JNum 1)]"

text \<open>What the side with the accounts signs, or nothing.\<close>

definition signed :: "bool \<Rightarrow> lan_env \<Rightarrow> string \<Rightarrow> bytes \<Rightarrow> jobject" where
  "signed account e role auth = (if account then v_sign e (role_text role auth) else fmempty)"

text \<open>The account proofs of one side are good for the other.\<close>

definition trusts :: "bool \<Rightarrow> lan_env \<Rightarrow> lan_env \<Rightarrow> bool" where
  "trusts account signing checking \<longleftrightarrow>
     (account \<longrightarrow> (\<forall>b. v_sign signing b \<noteq> fmempty \<and> v_verify checking b (v_sign signing b)))"

definition same_accounts :: "bool \<Rightarrow> lan \<Rightarrow> bool" where
  "same_accounts account st \<longleftrightarrow> signer st = account \<and> verifier st = account"

text \<open>A desktop that shows \<open>k\<close>, meant for \<open>expected\<close> if that is not empty, with a fresh connection.\<close>

definition shows_offer :: "bool \<Rightarrow> lan_link \<Rightarrow> qstring \<Rightarrow> sock \<Rightarrow> lan \<Rightarrow> bool" where
  "shows_offer account k expected s st \<longleftrightarrow> qr st \<noteq> [] \<and> offer st = k \<and> expected_peer st = expected \<and> handling st
     \<and> same_accounts account st \<and> (\<exists>t. tget (clients st) s = Some (fresh_session t))"

text \<open>A device that joins with \<open>k\<close> on its socket \<open>c\<close>.\<close>

definition joins_with :: "bool \<Rightarrow> lan_link \<Rightarrow> qstring \<Rightarrow> qstring \<Rightarrow> sock \<Rightarrow> lan \<Rightarrow> bool" where
  "joins_with account k peer name c st \<longleftrightarrow> client st = Some c \<and> joining st = k \<and> client_id st = peer \<and> client_name st = name
     \<and> same_accounts account st"

lemma same_code_refl: "hex_token c \<Longrightarrow> same_code c c"
  using diff_bytes_zero [of "to_latin1 c" "to_latin1 c" 0] by (simp add: same_code_def hex_token_def length_to_latin1)

lemma hex_token_not_empty: "hex_token c \<Longrightarrow> c \<noteq> []"
  by (auto simp: hex_token_def)

section \<open>From the offer to the connection\<close>

lemma create_offer_shows:
  assumes "server_port st \<noteq> None" "handling st" "same_accounts account st" "create_offer L e n st = (text, st')" "text \<noteq> []"
  shows "text = lan_encode L (offer st')" "valid_link L (offer st')" "qr st' = text" "expected_peer st' = []" "handling st'"
    "same_accounts account st'" "server_port st' = server_port st" "phase st' = PShowing"
    "k_expires (offer st') = Some (v_now e + 1000 * n)" "clients st' = filter (\<lambda>(s, x). s_paired x) (clients st)"
    "k_host (offer st') = k_host (offer st)"
proof -
  have frame: "fold (\<lambda>s. note_effect (LanAbort s)) ks st = st\<lparr>trail := trail st @ map LanAbort ks\<rparr>" for ks and st :: lan
    by (induction ks arbitrary: st) (simp_all add: note_effect_def)
  show "text = lan_encode L (offer st')" "valid_link L (offer st')" "qr st' = text" "expected_peer st' = []" "handling st'"
    "same_accounts account st'" "server_port st' = server_port st" "phase st' = PShowing"
    "k_expires (offer st') = Some (v_now e + 1000 * n)" "clients st' = filter (\<lambda>(s, x). s_paired x) (clients st)"
    "k_host (offer st') = k_host (offer st)"
    using assms
    by (auto simp: create_offer_def lan_cancel_def Let_def note_effect_def abort_all_def frame drop_client_def same_accounts_def
        lan_encode_def split: if_splits option.splits)
qed

lemma incoming_connected:
  assumes "server_port st \<noteq> None" "length (clients st) < 8" "local_address L addr"
  shows "host_incoming L e addr st = put_session (v_sock e) (fresh_session (v_now e + 5000)) (set_binary (v_sock e) False st)"
  using assms by (auto simp: host_incoming_def)

lemma join_opens:
  assumes "same_accounts account js" "lan_decode L text = Some k" "\<not> expired (k_expires k) (v_now d)" "identifier_ok peer"
    "name \<noteq> []" "length name \<le> 128" "k_addresses k \<noteq> []" "pin_certificate L (k_fingerprint k) \<noteq> None"
  shows "joins_with account k peer name (v_sock d) (snd (lan_join L d text peer name js))"
    "phase (snd (lan_join L d text peer name js)) = PConnecting"
proof -
  have frame: "fold (\<lambda>s. note_effect (LanAbort s)) ks st = st\<lparr>trail := trail st @ map LanAbort ks\<rparr>" for ks and st :: lan
    by (induction ks arbitrary: st) (simp_all add: note_effect_def)
  have complete: "fold (\<lambda>r. note_effect (LanCompleted r x)) ks st = st\<lparr>trail := trail st @ map (\<lambda>r. LanCompleted r x) ks\<rparr>" for ks x and st :: lan
    by (induction ks arbitrary: st) (simp_all add: note_effect_def)
  show "joins_with account k peer name (v_sock d) (snd (lan_join L d text peer name js))"
    "phase (snd (lan_join L d text peer name js)) = PConnecting"
    using assms
    by (auto simp: lan_join_def joins_with_def same_accounts_def open_address_def lan_stop_def Let_def note_effect_def drop_client_def
        set_binary_def complete_all_def abort_all_def frame complete split: option.splits)
qed

section \<open>Step by step\<close>

lemma device_greets:
  assumes "joins_with account k peer name c st" "trusts account d e" "\<And>m. v_takes d c m"
    and auth_def: "auth = authentication_context L k peer (random_code d)"
  shows "client_connected L d c (k_fingerprint k) st = st\<lparr>hello_sent := True, phase := PVerifying, client_nonce := random_code d,
      verification_code := verification_text L k peer (random_code d), authenticated := False, authentication := auth,
      joining := k\<lparr>k_code := []\<rparr>,
      trail := trail st @ [LanSend c (pair_frame k peer name (random_code d) (signed account d ''client'' auth)), Changed]\<rparr>"
  using assms(1-3)
  by (auto simp: client_connected_def joins_with_def same_accounts_def trusts_def signed_def Let_def lan_send_def note_effect_def
      pair_frame_def auth_def)

lemma pair_frame_reads [simp]:
  "jval (pair_frame k peer name nonce p) ''type'' = jtext ''pair''" "jval (pair_frame k peer name nonce p) ''host'' = JStr (k_host k)"
  "jval (pair_frame k peer name nonce p) ''code'' = JStr (k_code k)" "jval (pair_frame k peer name nonce p) ''peerId'' = JStr peer"
  "jval (pair_frame k peer name nonce p) ''name'' = JStr name" "jval (pair_frame k peer name nonce p) ''nonce'' = JStr nonce"
  "jval (pair_frame k peer name nonce p) ''proof'' = JObj p" "jval (pair_frame k peer name nonce p) ''binary'' = JNum 1"
  by (simp_all add: pair_frame_def)

lemma verify_frame_reads [simp]:
  "jval (verify_frame host p) ''type'' = jtext ''verify''" "jval (verify_frame host p) ''host'' = JStr host"
  "jval (verify_frame host p) ''proof'' = JObj p"
  by (simp_all add: verify_frame_def)

lemma ready_message_reads [simp]:
  "jval (ready_message p host files) ''type'' = jtext ''ready''" "jval (ready_message p host files) ''host'' = JStr host"
  "jval (ready_message p host files) ''proof'' = JObj p" "jval (ready_message p host files) ''files'' = JObj files"
  by (simp_all add: ready_message_def)

lemma paired_frame_reads [simp]:
  "jval (paired_frame k) ''type'' = jtext ''paired''" "jval (paired_frame k) ''host'' = JStr (k_host k)"
  "jval (paired_frame k) ''name'' = JStr (k_name k)" "jval (paired_frame k) ''binary'' = JNum 1"
  by (simp_all add: paired_frame_def)

text \<open>The desktop takes the pair message: the checks before the offer is consumed all pass.\<close>

lemma desktop_admits:
  assumes "shows_offer account k expected s st" "expected = [] \<or> expected = peer" "trusts account d e" "trusts account e d'"
    and "hex_token (k_code k)" "\<not> expired (k_expires k) (v_now e)" "identifier_ok peer" "peer \<noteq> k_host k" "name \<noteq> []"
      "length name \<le> 128" "hex_token nonce" "\<not> list_ex (\<lambda>(t, y). s_id y = peer) (clients st)"
    and auth_def: "auth = authentication_context L k peer nonce"
  shows "\<exists>t. host_message L e s (pair_frame k peer name nonce (signed account d ''client'' auth)) st =
    host_admit L e s ((fresh_session t)\<lparr>s_authentication := auth\<rparr>) (pair_frame k peer name nonce (signed account d ''client'' auth))
      (signed account e ''host'' auth) (put_session s ((fresh_session t)\<lparr>s_authentication := auth\<rparr>) st)"
proof -
  let ?m = "pair_frame k peer name nonce (signed account d ''client'' auth)"
  obtain t where t: "tget (clients st) s = Some (fresh_session t)" using assms(1) by (auto simp: shows_offer_def)
  have accepts: "offer_accepts e ?m st"
    using assms by (auto simp: offer_accepts_def shows_offer_def Let_def same_code_refl)
  have proved: "device_proved e ?m auth (put_session s x st)" for x
    using assms(1,3,11) by (auto simp: device_proved_def shows_offer_def same_accounts_def trusts_def signed_def put_session_def)
  have "host_pair L e s (fresh_session t) ?m st = host_admit L e s ((fresh_session t)\<lparr>s_authentication := auth\<rparr>) ?m
      (signed account e ''host'' auth) (put_session s ((fresh_session t)\<lparr>s_authentication := auth\<rparr>) st)"
    using assms(1,4,12) accepts proved
    by (auto simp: host_pair_def Let_def shows_offer_def same_accounts_def trusts_def signed_def put_session_def auth_def)
  then show ?thesis using t by (intro exI [of _ t]) (simp add: host_message_def fresh_session_def)
qed

text \<open>A session that was admitted and waits for the device's confirmation, or for the person first.\<close>

definition admitted_as :: "qstring \<Rightarrow> bool \<Rightarrow> msecs \<Rightarrow> bytes \<Rightarrow> lan_session \<Rightarrow> bool" where
  "admitted_as peer awaiting deadline auth x \<longleftrightarrow> s_id x = peer \<and> \<not> s_paired x \<and> s_awaiting x = awaiting
     \<and> s_deadline x = deadline \<and> s_binary x \<and> s_authentication x = auth"

lemma desktop_lists:
  assumes "expected_peer st = []" "handling st" "v_handle e peer list_files = Some files" "files_listed files" "\<And>m. v_takes e s m"
    and x: "\<not> s_paired x" "\<not> s_awaiting x" "s_authentication x = auth" and "k_host (offer st) = k_host k"
    and h: "h = host_admit L e s x (pair_frame k peer name nonce p) q st"
  shows "trail h = trail st @ [AskFiles s peer list_files, LanSend s (ready_message q (k_host k) files), Changed]"
    "\<exists>y. tget (clients h) s = Some y \<and> admitted_as peer False (v_now e + 15000) auth y"
    "offer h = (offer st)\<lparr>k_code := []\<rparr>" "qr h = []" "phase h = PVerifying"
  using assms by (simp_all add: host_admit_def Let_def put_session_def ask_files_def lan_send_def note_effect_def admitted_as_def)

lemma desktop_asks:
  assumes "expected_peer st = peer" "peer \<noteq> []" "\<And>m. v_takes e s m"
    and x: "\<not> s_paired x" "s_authentication x = auth" and "k_host (offer st) = k_host k"
    and h: "h = host_admit L e s x (pair_frame k peer name nonce p) q st"
  shows "trail h = trail st @ [LanSend s (verify_frame (k_host k) q), Changed]"
    "\<exists>y. tget (clients h) s = Some y \<and> admitted_as peer True (v_now e + 60000) auth y"
    "offer h = (offer st)\<lparr>k_code := []\<rparr>" "qr h = []" "phase h = PConfirming"
    "verification_code h = verification_text L (offer st) peer nonce" "signer h = signer st" "handling h = handling st"
    "\<exists>y. clients h = tput s y (clients st)"
  using assms
  by (auto simp: host_admit_def Let_def put_session_def lan_send_def note_effect_def admitted_as_def verify_frame_def)

lemma desktop_pairs:
  assumes "tget (clients st) s = Some x" "admitted_as peer False deadline auth x" "peer \<noteq> []" "v_now e < deadline" "\<And>m. v_takes e s m"
    and "k_host (offer st) = k_host k" "k_name (offer st) = k_name k"
    and h: "h = host_message L e s (jobj [(''type'', jtext ''confirm'')]) st"
  shows "trail h = trail st @ [LanSend s (paired_frame k), Changed, PairedWith peer]" "phase h = PPaired" "qr h = qr st"
    "\<exists>y. tget (clients h) s = Some y \<and> s_paired y \<and> s_id y = peer"
  using assms
  by (simp_all add: host_message_def admitted_as_def Let_def put_session_def lan_send_def note_effect_def set_binary_def paired_frame_def)

text \<open>The host proof is the one the device has prepared to check.\<close>

lemma device_readies:
  assumes "client st = Some c" "same_accounts account st" "phase st = PVerifying \<or> phase st = PConfirming"
    "k_host (joining st) = k_host k" "trusts account e d" "files_listed files" "\<And>m. v_takes d c m" "authentication st = auth"
    and j: "j = client_message d (ready_message (signed account e ''host'' auth) (k_host k) files) st"
  shows "trail j = trail st @ [LanSend c (jobj [(''type'', jtext ''confirm'')])]" "phase j = PVerifying" "client j = Some c"
    "same_accounts account j" "joining j = joining st" "account \<longrightarrow> authenticated j"
  using assms
  by (auto simp: client_message_def Let_def check_host_def same_accounts_def trusts_def signed_def client_send_def lan_send_def note_effect_def)

lemma device_waits:
  assumes "same_accounts account st" "phase st = PVerifying" "k_host (joining st) = k_host k" "trusts account e d" "authentication st = auth"
    and j: "j = client_message d (verify_frame (k_host k) (signed account e ''host'' auth)) st"
  shows "trail j = trail st @ [Changed]" "phase j = PConfirming" "client j = client st" "same_accounts account j" "joining j = joining st"
    "verification_code j = verification_code st" "authentication j = authentication st"
  using assms by (auto simp: client_message_def Let_def check_host_def same_accounts_def trusts_def signed_def note_effect_def)

lemma device_pairs:
  assumes "client st = Some c" "same_accounts account st" "phase st = PVerifying" "k_host (joining st) = k_host k" "account \<longrightarrow> authenticated st"
    and j: "j = client_message d (paired_frame k) st"
  shows "client_paired j" "phase j = PPaired" "peer_name j = k_name k" "binary_transfer j" "joining j = joining st"
    "trail j = trail st @ [Changed, PairedWith (k_host k)]"
  using assms
  by (auto simp: client_message_def Let_def check_host_def same_accounts_def set_binary_def note_effect_def binary_transfer_def)

section \<open>There and back\<close>

text \<open>The frames an event put on a socket.\<close>

definition sent_on :: "sock \<Rightarrow> lan \<Rightarrow> lan \<Rightarrow> jobject list" where
  "sent_on s st st' = List.map_filter (\<lambda>x. case x of LanSend t m \<Rightarrow> if t = s then Some m else None | _ \<Rightarrow> None)
     (drop (length (trail st)) (trail st'))"

lemma sent_on_trail: "trail st' = trail st @ l \<Longrightarrow>
    sent_on s st st' = List.map_filter (\<lambda>x. case x of LanSend t m \<Rightarrow> if t = s then Some m else None | _ \<Rightarrow> None) l"
  by (simp add: sent_on_def)

lemma map_filter_Cons: "List.map_filter f (x # xs) = (case f x of None \<Rightarrow> [] | Some y \<Rightarrow> [y]) @ List.map_filter f xs"
  by (simp add: List.map_filter_def split: option.split)

text \<open>
  The start: the desktop makes an offer for \<open>expected\<close> or for anyone, a device connects, which has
  scanned the text and joins. \<open>h1\<close> and \<open>j0\<close> are the two sides then, \<open>s\<close> and \<open>c\<close> their sockets.
\<close>

definition scanned :: "lib \<Rightarrow> bool \<Rightarrow> lan_link \<Rightarrow> qstring \<Rightarrow> qstring \<Rightarrow> qstring \<Rightarrow> sock \<Rightarrow> lan \<Rightarrow> sock \<Rightarrow> lan \<Rightarrow> bool" where
  "scanned L account k expected peer name s h1 c j0 \<longleftrightarrow>
     (\<exists>hist hs js e0 n text h0 addr e1 d0.
        lan_run L hist hs \<and> server_port hs \<noteq> None \<and> handling hs \<and> same_accounts account hs \<and> same_accounts account js
      \<and> (text, h0) = (if expected = [] then create_offer L e0 n hs else create_device_offer L e0 expected n hs)
      \<and> text \<noteq> [] \<and> offer h0 = k
      \<and> length (clients h0) < 8 \<and> local_address L addr \<and> v_sock e1 = s \<and> tget (clients h0) s = None
      \<and> \<not> list_ex (\<lambda>(t, y). s_id y = peer) (clients h0) \<and> h1 = lan_step L e1 (Incoming addr) h0
      \<and> lan_decode L text = Some k \<and> \<not> expired (k_expires k) (v_now d0) \<and> identifier_ok peer \<and> peer \<noteq> k_host k
      \<and> name \<noteq> [] \<and> length name \<le> 128 \<and> pin_certificate L (k_fingerprint k) \<noteq> None
      \<and> v_sock d0 = c \<and> j0 = lan_step L d0 (Join text peer name) js)"

lemma scanned_ready:
  assumes "scanned L account k expected peer name s h1 c j0"
  shows "shows_offer account k expected s h1" "joins_with account k peer name c j0" "hex_token (k_code k)"
    "identifier_ok peer" "peer \<noteq> k_host k" "peer \<noteq> []" "name \<noteq> []" "length name \<le> 128"
    "\<not> list_ex (\<lambda>(t, y). s_id y = peer) (clients h1)" "pairing_inv h1"
    "\<And>t y. tget (clients h1) t = Some y \<Longrightarrow> t \<noteq> s \<Longrightarrow> s_paired y"
proof -
  obtain hist hs js e0 n qr0 h0 addr e1 d0 where
    run: "lan_run L hist hs" and hs: "server_port hs \<noteq> None" "handling hs" "same_accounts account hs" "same_accounts account js"
    and made: "(qr0, h0) = (if expected = [] then create_offer L e0 n hs else create_device_offer L e0 expected n hs)"
    and qr_text: "qr0 \<noteq> []" "offer h0 = k"
    and inc: "length (clients h0) < 8" "local_address L addr" "v_sock e1 = s" "tget (clients h0) s = None"
      "\<not> list_ex (\<lambda>(t, y). s_id y = peer) (clients h0)" "h1 = lan_step L e1 (Incoming addr) h0"
    and join: "lan_decode L qr0 = Some k" "\<not> expired (k_expires k) (v_now d0)" "identifier_ok peer" "peer \<noteq> k_host k"
      "name \<noteq> []" "length name \<le> 128" "pin_certificate L (k_fingerprint k) \<noteq> None"
      "v_sock d0 = c" "j0 = lan_step L d0 (Join qr0 peer name) js"
    using assms unfolding scanned_def by blast
  obtain o0 where o0: "create_offer L e0 n hs = (qr0, o0)" and h0: "h0 = o0\<lparr>expected_peer := expected\<rparr>"
  proof (cases "expected = []")
    case True
    then have o: "create_offer L e0 n hs = (qr0, h0)" using made by simp
    then have "expected_peer h0 = []" using create_offer_shows(4) [OF hs(1-3)] qr_text(1) by blast
    then show ?thesis using that [of h0] True o by simp
  next
    case False
    then show ?thesis using made qr_text(1) that
      by (cases "create_offer L e0 n hs") (auto simp: create_device_offer_def split: if_splits)
  qed
  note off = create_offer_shows [OF hs(1-3) o0 qr_text(1)]
  have h1: "h1 = put_session s (fresh_session (v_now e1 + 5000)) (set_binary s False h0)"
    using incoming_connected [of h0 L addr e1] inc off(7) hs(1) h0 by (simp add: lan_step_def)
  show "shows_offer account k expected s h1"
    using off qr_text h0 by (auto simp: h1 shows_offer_def put_session_def set_binary_def same_accounts_def)
  show "joins_with account k peer name c j0"
    using join_opens(1) [OF hs(4) join(1-3,5,6) _ join(7)] off(2) qr_text(2) h0 join(8,9)
    by (auto simp: lan_step_def valid_link_def)
  show "hex_token (k_code k)" using off(2) qr_text(2) h0 by (auto simp: valid_link_def)
  show "identifier_ok peer" "peer \<noteq> k_host k" "name \<noteq> []" "length name \<le> 128" using join by simp_all
  show peer: "peer \<noteq> []" using join(3) by (auto simp: identifier_ok_def)
  have clients: "clients h1 = clients h0 @ [(s, fresh_session (v_now e1 + 5000))]"
    using inc(4) by (simp add: h1 put_session_def set_binary_def tput_fresh has_key_def)
  then show "\<not> list_ex (\<lambda>(t, y). s_id y = peer) (clients h1)" using inc(5) peer by (auto simp: fresh_session_def)
  have "h0 = lan_step L e0 (if expected = [] then CreateLanOffer n else CreateDeviceOffer expected n) hs"
    using arg_cong [OF made, of snd] by (cases "expected = []") (simp_all add: lan_step_def)
  then show "pairing_inv h1" using pairing_inv_step [OF pairing_inv_step [OF run_pairing_inv [OF run]]] inc(6) by simp
  show "s_paired y" if "tget (clients h1) t = Some y" "t \<noteq> s" for t y
    using that off(10) h0 tget_Some_in_set [of "clients h0" t y] by (auto simp: h1 put_session_def set_binary_def)
qed

lemma find_only:
  assumes "u \<in> set xs" "P u" "\<And>e. e \<in> set xs \<Longrightarrow> P e \<Longrightarrow> e = u"
  shows "find P xs = Some u"
proof (cases "find P xs")
  case None
  then show ?thesis using assms(1,2) by (simp add: find_None_iff)
next
  case (Some e)
  then have "e \<in> set xs \<and> P e" by (auto simp: find_Some_iff)
  then show ?thesis using assms(3) Some by simp
qed

text \<open>The person agrees: of the connections only this one waits for it.\<close>

lemma desktop_confirms:
  fixes k :: lan_link
  assumes "phase st = PConfirming" "sessions_ok st" "\<forall>t y. tget (clients st) t = Some y \<longrightarrow> t \<noteq> s \<longrightarrow> s_paired y"
    and x: "tget (clients st) s = Some x" "admitted_as peer True deadline auth x" and "v_now e < deadline"
    and "handling st" "v_handle e peer list_files = Some files" "files_listed files" "\<And>m. v_takes e s m"
    and "signer st = account" "trusts account e d" "k_host (offer st) = k_host k"
    and h: "h = snd (confirm_device e st)"
  shows "fst (confirm_device e st)"
    "trail h = trail st @ [AskFiles s peer list_files, LanSend s (ready_message (signed account e ''host'' auth) (k_host k) files), Changed]"
    "\<exists>y. tget (clients h) s = Some y \<and> admitted_as peer False (v_now e + 15000) auth y"
    "offer h = offer st" "qr h = qr st" "phase h = PVerifying"
proof -
  have "find (\<lambda>(s, x). s_awaiting x \<and> s_deadline x > v_now e) (clients st) = Some (s, x)"
  proof (rule find_only)
    show "(s, x) \<in> set (clients st)" using x(1) by (rule tget_Some_in_set)
    show "case (s, x) of (s, x) \<Rightarrow> s_awaiting x \<and> s_deadline x > v_now e" using x(2) assms(6) by (simp add: admitted_as_def)
  next
    fix u
    assume u: "u \<in> set (clients st)" "case u of (s, x) \<Rightarrow> s_awaiting x \<and> s_deadline x > v_now e"
    obtain t y where ty: "u = (t, y)" by (cases u)
    then have "tget (clients st) t = Some y" using u(1) assms(2) tget_in_set [of "clients st" t y] by (simp add: sessions_ok_def)
    moreover have "s_awaiting y" using u(2) ty by simp
    ultimately have "t = s" using assms(2,3) unfolding sessions_ok_def by blast
    then show "u = (s, x)" using \<open>tget (clients st) t = Some y\<close> x(1) ty by simp
  qed
  then show "fst (confirm_device e st)"
    "trail h = trail st @ [AskFiles s peer list_files, LanSend s (ready_message (signed account e ''host'' auth) (k_host k) files), Changed]"
    "\<exists>y. tget (clients h) s = Some y \<and> admitted_as peer False (v_now e + 15000) auth y"
    "offer h = offer st" "qr h = qr st" "phase h = PVerifying"
    using assms
    by (auto simp: confirm_device_def Let_def put_session_def ask_files_def lan_send_def note_effect_def admitted_as_def signed_def trusts_def)
qed

text \<open>The last two steps of both ways to pair: the device confirms, the desktop pairs, the device pairs.\<close>

lemma pairs_in_the_end:
  fixes k :: lan_link
  assumes "tget (clients h) s = Some x" "admitted_as peer False deadline auth x" "peer \<noteq> []" "k_host (offer h) = k_host k"
    "k_name (offer h) = k_name k" "v_now e < deadline" "\<And>m. v_takes e s m"
    and "client j = Some c" "same_accounts account j" "phase j = PVerifying \<or> phase j = PConfirming" "k_host (joining j) = k_host k"
    and "trusts account e' d" "files_listed files" "\<And>m. v_takes d c m" "authentication j = auth"
    and j1: "j1 = lan_step L d (ClientText c (ready_message (signed account e' ''host'' auth) (k_host k) files)) j"
    and h1: "h1 = lan_step L e (HostText s (hd (sent_on c j j1))) h"
    and j2: "j2 = lan_step L d' (ClientText c (hd (sent_on s h h1))) j1"
  shows "length (sent_on c j j1) = 1" "length (sent_on s h h1) = 1" "client_paired j2" "phase j2 = PPaired" "peer_name j2 = k_name k"
    "binary_transfer j2" "lan_peers j2 = [JObj (jobj [(''peerId'', JStr (k_host k)), (''name'', JStr (k_name k))])]" "paired_device_ids j2 \<noteq> [] \<and> hd (paired_device_ids j2) = k_host k"
    "phase h1 = PPaired" "peer \<in> set (paired_device_ids h1)" "qr h1 = qr h"
proof -
  have "j1 = client_message d (ready_message (signed account e' ''host'' auth) (k_host k) files) j"
    using assms(8) by (simp add: j1 lan_step_def)
  note j1' = device_readies [OF assms(8-15) this]
  then have confirm: "sent_on c j j1 = [jobj [(''type'', jtext ''confirm'')]]" by (simp add: sent_on_trail)
  then have "h1 = host_message L e s (jobj [(''type'', jtext ''confirm'')]) h" by (simp add: h1 lan_step_def)
  note h1' = desktop_pairs [OF assms(1-3,6,7,4,5) this]
  then have reply: "sent_on s h h1 = [paired_frame k]" by (simp add: sent_on_trail map_filter_Cons)
  then have "j2 = client_message d' (paired_frame k) j1" using j1'(3) by (simp add: j2 lan_step_def)
  note j2' = device_pairs [OF j1'(3,4,2) _ j1'(6) this]
  show "length (sent_on c j j1) = 1" "length (sent_on s h h1) = 1" using confirm reply by simp_all
  show "client_paired j2" "phase j2 = PPaired" "peer_name j2 = k_name k" "binary_transfer j2"
    "lan_peers j2 = [JObj (jobj [(''peerId'', JStr (k_host k)), (''name'', JStr (k_name k))])]"
    using j2' j1'(5) assms(11) by (simp_all add: lan_peers_def)
  show "paired_device_ids j2 \<noteq> [] \<and> hd (paired_device_ids j2) = k_host k"
    using j2' j1'(5) assms(11) by (simp add: paired_device_ids_def)
  show "phase h1 = PPaired" "qr h1 = qr h" using h1' by simp_all
  show "peer \<in> set (paired_device_ids h1)"
    using h1'(4) tget_Some_in_set [of "clients h1" s] by (force simp: paired_device_ids_def)
qed

text \<open>The first step of both: the device greets and the desktop admits it.\<close>

lemma greets_and_admits:
  assumes "scanned L account k expected peer name s h1 c j0" "expected = [] \<or> expected = peer"
    and "trusts account d1 e2" "trusts account e2 d2" "hex_token (random_code d1)" "\<not> expired (k_expires k) (v_now e2)"
    and "\<And>m. v_takes d1 c m" and auth_def: "auth = authentication_context L k peer (random_code d1)"
    and j1: "j1 = lan_step L d1 (ClientUp c (k_fingerprint k)) j0"
    and h2: "h2 = lan_step L e2 (HostText s (hd (sent_on c j0 j1))) h1"
  shows "length (sent_on c j0 j1) = 1" "client j1 = Some c" "same_accounts account j1" "phase j1 = PVerifying"
    "k_host (joining j1) = k_host k" "authentication j1 = auth" "verification_code j1 = verification_text L k peer (random_code d1)"
    "\<exists>t. h2 = host_admit L e2 s ((fresh_session t)\<lparr>s_authentication := auth\<rparr>)
      (pair_frame k peer name (random_code d1) (signed account d1 ''client'' auth)) (signed account e2 ''host'' auth)
      (put_session s ((fresh_session t)\<lparr>s_authentication := auth\<rparr>) h1)"
proof -
  note r = scanned_ready [OF assms(1)]
  let ?pair = "pair_frame k peer name (random_code d1) (signed account d1 ''client'' auth)"
  have c: "client j0 = Some c" using r(2) by (simp add: joins_with_def)
  have greet: "j1 = j0\<lparr>hello_sent := True, phase := PVerifying, client_nonce := random_code d1,
      verification_code := verification_text L k peer (random_code d1), authenticated := False, authentication := auth,
      joining := k\<lparr>k_code := []\<rparr>, trail := trail j0 @ [LanSend c ?pair, Changed]\<rparr>"
    using device_greets [OF r(2) assms(3,7) auth_def] c by (simp add: j1 lan_step_def)
  then have pair: "sent_on c j0 j1 = [?pair]" by (simp add: sent_on_trail map_filter_Cons)
  then show "length (sent_on c j0 j1) = 1" by simp
  show "client j1 = Some c" "same_accounts account j1" "phase j1 = PVerifying" "k_host (joining j1) = k_host k"
    "authentication j1 = auth" "verification_code j1 = verification_text L k peer (random_code d1)"
    using r(2) by (simp_all add: greet joins_with_def same_accounts_def)
  show "\<exists>t. h2 = host_admit L e2 s ((fresh_session t)\<lparr>s_authentication := auth\<rparr>) ?pair (signed account e2 ''host'' auth)
      (put_session s ((fresh_session t)\<lparr>s_authentication := auth\<rparr>) h1)"
    using desktop_admits [OF r(1) assms(2-4) r(3) assms(6) r(4,5,7,8) assms(5) r(9) auth_def]
    by (simp add: h2 pair lan_step_def)
qed

text \<open>
  C29: Scanning a code pairs: when a device joins with the text a desktop shows, connects to the
  desktop and meets its certificate, and each side gets what the other sends, then the
  device sends one pair message, the desktop uses the code up, lists its Files and sends them,
  the device confirms, the desktop pairs it and says so, and both sides end paired, the device
  with the host of the code and the host with the device. Assumed: the frames are taken, the code
  has not expired, the Files can be listed, the confirmation comes within 15 seconds, and
  with account proofs each side accepts what the other signs.
\<close>

theorem lan_scan_pairs:
  assumes "scanned L account k [] peer name s h1 c j0"
    and "trusts account d1 e2" and "trusts account e2 d2" and "hex_token (random_code d1)"
    and "\<not> expired (k_expires k) (v_now e2)" and "v_handle e2 peer list_files = Some files" and "files_listed files"
    and "v_now e3 < v_now e2 + 15000" and "\<And>t m. v_takes d1 t m \<and> v_takes e2 t m \<and> v_takes d2 t m \<and> v_takes e3 t m"
    and "j1 = lan_step L d1 (ClientUp c (k_fingerprint k)) j0"
    and "h2 = lan_step L e2 (HostText s (hd (sent_on c j0 j1))) h1"
    and "j2 = lan_step L d2 (ClientText c (hd (sent_on s h1 h2))) j1"
    and "h3 = lan_step L e3 (HostText s (hd (sent_on c j1 j2))) h2"
    and "j3 = lan_step L d3 (ClientText c (hd (sent_on s h2 h3))) j2"
  shows "client_paired j3 \<and> phase j3 = PPaired \<and> hd (paired_device_ids j3) = k_host k \<and> binary_transfer j3
    \<and> lan_peers j3 = [JObj (jobj [(''peerId'', JStr (k_host k)), (''name'', JStr (k_name k))])]
    \<and> phase h3 = PPaired \<and> peer \<in> set (paired_device_ids h3) \<and> qr h3 = []
    \<and> map length [sent_on c j0 j1, sent_on s h1 h2, sent_on c j1 j2, sent_on s h2 h3] = [1, 1, 1, 1]"
proof -
  note r = scanned_ready [OF assms(1)]
  define auth where "auth = authentication_context L k peer (random_code d1)"
  note g = greets_and_admits [OF assms(1) _ assms(2-5) _ auth_def assms(10,11)]
  obtain t where h2: "h2 = host_admit L e2 s ((fresh_session t)\<lparr>s_authentication := auth\<rparr>)
      (pair_frame k peer name (random_code d1) (signed account d1 ''client'' auth)) (signed account e2 ''host'' auth)
      (put_session s ((fresh_session t)\<lparr>s_authentication := auth\<rparr>) h1)" using g(8) assms(9) by auto
  have on: "offer h1 = k" "expected_peer h1 = []" "handling h1" using r(1) by (simp_all add: shows_offer_def)
  have listed: "trail h2 = trail h1 @ [AskFiles s peer list_files, LanSend s (ready_message (signed account e2 ''host'' auth) (k_host k) files), Changed]"
    "\<exists>y. tget (clients h2) s = Some y \<and> admitted_as peer False (v_now e2 + 15000) auth y"
    "offer h2 = k\<lparr>k_code := []\<rparr>" "qr h2 = []"
    using desktop_lists [OF _ _ assms(6,7) _ _ _ _ _ h2, of auth] assms(9) on by (simp_all add: put_session_def fresh_session_def)
  then have ready: "sent_on s h1 h2 = [ready_message (signed account e2 ''host'' auth) (k_host k) files]"
    by (simp add: sent_on_trail map_filter_Cons)
  obtain y where y: "tget (clients h2) s = Some y" "admitted_as peer False (v_now e2 + 15000) auth y" using listed(2) by blast
  have j2: "j2 = lan_step L d2 (ClientText c (ready_message (signed account e2 ''host'' auth) (k_host k) files)) j1"
    using assms(12) ready by simp
  note ends = pairs_in_the_end [OF y r(6) _ _ assms(8) _ g(2,3) _ g(5) assms(3,7) _ g(6) j2 assms(13,14)]
  show ?thesis using ends listed(3,4) g(1,4) assms(9) ready by simp
qed

text \<open>
  C30: A device chosen by the person pairs after both sides showed one code: when the offer is for
  that device, the desktop answers the pair message with a request to compare and asks for no
  Files; then both sides show the same code, which is bound to the certificate, the one-time code,
  the device and its random number; and when the person confirms within a minute, the Files are
  listed, and the two end paired as above.
\<close>

theorem lan_device_pairs:
  assumes "scanned L account k peer peer name s h1 c j0"
    and "trusts account d1 e2" and "trusts account e2 d2" and "trusts account e3 d3" and "hex_token (random_code d1)"
    and "\<not> expired (k_expires k) (v_now e2)" and "v_now e3 < v_now e2 + 60000" and "v_now e4 < v_now e3 + 15000"
    and "v_handle e3 peer list_files = Some files" and "files_listed files"
    and "\<And>t m. v_takes d1 t m \<and> v_takes e2 t m \<and> v_takes e3 t m \<and> v_takes d3 t m \<and> v_takes e4 t m"
    and "j1 = lan_step L d1 (ClientUp c (k_fingerprint k)) j0"
    and "h2 = lan_step L e2 (HostText s (hd (sent_on c j0 j1))) h1"
    and "j2 = lan_step L d2 (ClientText c (hd (sent_on s h1 h2))) j1"
    and "h3 = lan_step L e3 ConfirmDevice h2"
    and "j3 = lan_step L d3 (ClientText c (hd (sent_on s h2 h3))) j2"
    and "h4 = lan_step L e4 (HostText s (hd (sent_on c j2 j3))) h3"
    and "j4 = lan_step L d4 (ClientText c (hd (sent_on s h3 h4))) j3"
  shows "shown_code h2 = verification_text L k peer (random_code d1) \<and> shown_code j2 = shown_code h2
    \<and> trail h2 = trail h1 @ [LanSend s (hd (sent_on s h1 h2)), Changed]
    \<and> client_paired j4 \<and> phase j4 = PPaired \<and> hd (paired_device_ids j4) = k_host k \<and> binary_transfer j4
    \<and> lan_peers j4 = [JObj (jobj [(''peerId'', JStr (k_host k)), (''name'', JStr (k_name k))])]
    \<and> phase h4 = PPaired \<and> peer \<in> set (paired_device_ids h4) \<and> qr h4 = []"
proof -
  note r = scanned_ready [OF assms(1)]
  define auth where "auth = authentication_context L k peer (random_code d1)"
  note g = greets_and_admits [OF assms(1) _ assms(2,3,5,6) _ auth_def assms(12,13)]
  obtain t where h2: "h2 = host_admit L e2 s ((fresh_session t)\<lparr>s_authentication := auth\<rparr>)
      (pair_frame k peer name (random_code d1) (signed account d1 ''client'' auth)) (signed account e2 ''host'' auth)
      (put_session s ((fresh_session t)\<lparr>s_authentication := auth\<rparr>) h1)" using g(8) assms(11) by auto
  have on: "offer h1 = k" "expected_peer h1 = peer" "handling h1" "same_accounts account h1" using r(1) by (simp_all add: shows_offer_def)
  let ?verify = "verify_frame (k_host k) (signed account e2 ''host'' auth)"
  have asked: "trail h2 = trail h1 @ [LanSend s ?verify, Changed]"
    "\<exists>y. tget (clients h2) s = Some y \<and> admitted_as peer True (v_now e2 + 60000) auth y"
    "offer h2 = k\<lparr>k_code := []\<rparr>" "qr h2 = []" "phase h2 = PConfirming"
    "verification_code h2 = verification_text L k peer (random_code d1)" "signer h2 = account" "handling h2"
    "\<exists>y x. clients h2 = tput s y (tput s x (clients h1))"
    using desktop_asks [OF _ r(6) _ _ _ _ h2, of auth] assms(11) on
    by (simp_all add: put_session_def fresh_session_def same_accounts_def)
  have sent: "sent_on s h1 h2 = [?verify]" using asked(1) by (simp add: sent_on_trail map_filter_Cons)
  then have "j2 = client_message d2 ?verify j1" using g(2) assms(11,14) by (simp add: lan_step_def)
  note j2 = device_waits [OF g(3) g(4) g(5) assms(3) g(6) this]
  have inv: "sessions_ok h2"
    using pairing_inv_step [OF r(10), of L e2 "HostText s (hd (sent_on c j0 j1))"] assms(13) by (simp add: pairing_inv_def)
  have others: "\<forall>t y. tget (clients h2) t = Some y \<longrightarrow> t \<noteq> s \<longrightarrow> s_paired y"
    using asked(9) r(11) by auto
  obtain y where y: "tget (clients h2) s = Some y" "admitted_as peer True (v_now e2 + 60000) auth y" using asked(2) by blast
  have "h3 = snd (confirm_device e3 h2)" using assms(15) by (simp add: lan_step_def)
  note h3 = desktop_confirms [where k = k, OF asked(5) inv others y assms(7) asked(8) assms(9,10) _ asked(7) assms(4) _ this]
  have ready: "sent_on s h2 h3 = [ready_message (signed account e3 ''host'' auth) (k_host k) files]"
    using h3(2) assms(11) asked(3) by (simp add: sent_on_trail map_filter_Cons)
  obtain z where z: "tget (clients h3) s = Some z" "admitted_as peer False (v_now e3 + 15000) auth z"
    using h3(3) assms(11) asked(3) by auto
  have j3: "j3 = lan_step L d3 (ClientText c (ready_message (signed account e3 ''host'' auth) (k_host k) files)) j2"
    using assms(16) ready by simp
  have device: "client j2 = Some c" "same_accounts account j2" "phase j2 = PVerifying \<or> phase j2 = PConfirming"
    "k_host (joining j2) = k_host k" "authentication j2 = auth" using j2 g assms(11) by simp_all
  have offer: "offer h3 = k\<lparr>k_code := []\<rparr>" "qr h3 = []" using h3(4,5) asked(3,4) assms(11) by simp_all
  note ends = pairs_in_the_end [OF z r(6) _ _ assms(8) _ device(1-4) assms(4,10) _ device(5) j3 assms(17,18)]
  show ?thesis using ends offer asked j2 g(7) assms(11) sent by (simp add: shown_code_def)
qed

section \<open>Examples\<close>

text \<open>The library of the device decodes the fingerprint to 32 bytes; the random code is all \<open>bb\<close>.\<close>

definition meet_lib :: lib where
  "meet_lib = demo_lan_lib\<lparr>from_hex := (\<lambda>b. replicate 32 170)\<rparr>"

definition meet_env :: "msecs \<Rightarrow> sock \<Rightarrow> lan_env" where
  "meet_env t s = (lan_demo_env t s True)\<lparr>v_random := replicate 32 187\<rparr>"

definition meet_setup :: "(lan_env \<times> lan_event) list" where
  "meet_setup = [(meet_env 0 0, SetAuthentication True True),
     (meet_env 0 0, StartHost (qs ''host'') (qs ''desk'') True [qs ''10.0.0.1''] demo_address)]"

definition meet_host :: "qstring \<Rightarrow> lan" where
  "meet_host expected = (let hs = snd (run_events meet_lib meet_setup) in
     snd (if expected = [] then create_offer meet_lib (meet_env 0 0) 5 hs else create_device_offer meet_lib (meet_env 0 0) expected 5 hs))"

definition meet_desk :: "qstring \<Rightarrow> lan" where
  "meet_desk expected = lan_step meet_lib (meet_env 10 3) (Incoming (qs ''10.0.0.1'')) (meet_host expected)"

definition meet_phone :: lan where
  "meet_phone = lan_step meet_lib (meet_env 20 9) (Join (qs ''society://pair'') (qs ''phone'') (qs ''phone'')) (set_authentication True True new_lan)"

lemma meet_scanned:
  assumes "expected = [] \<or> expected = qs ''phone''"
  shows "scanned meet_lib True demo_lan_link expected (qs ''phone'') (qs ''phone'') 3 (meet_desk expected) 9 meet_phone"
proof -
  let ?hs = "snd (run_events meet_lib meet_setup)"
  have hs: "server_port ?hs \<noteq> None \<and> handling ?hs \<and> same_accounts True ?hs" by code_simp
  have offer: "(qs ''society://pair'', meet_host expected) = (if expected = [] then create_offer meet_lib (meet_env 0 0) 5 ?hs
      else create_device_offer meet_lib (meet_env 0 0) expected 5 ?hs)"
  proof -
    have "fst (create_offer meet_lib (meet_env 0 0) 5 ?hs) = qs ''society://pair''" by code_simp
    moreover have "fst (create_device_offer meet_lib (meet_env 0 0) (qs ''phone'') 5 ?hs) = qs ''society://pair''" by code_simp
    ultimately show ?thesis using assms by (auto simp: meet_host_def Let_def prod_eq_iff)
  qed
  have host: "offer (meet_host expected) = demo_lan_link \<and> clients (meet_host expected) = []"
    using assms by (elim disjE) (simp_all only:, code_simp+)
  have joins: "lan_decode meet_lib (qs ''society://pair'') = Some demo_lan_link" "\<not> expired (k_expires demo_lan_link) 20"
    "identifier_ok (qs ''phone'')" "qs ''phone'' \<noteq> k_host demo_lan_link" "qs ''phone'' \<noteq> []" "length (qs ''phone'') \<le> 128"
    "pin_certificate meet_lib (k_fingerprint demo_lan_link) \<noteq> None" "local_address meet_lib (qs ''10.0.0.1'')"
    "qs ''society://pair'' \<noteq> []" "same_accounts True (set_authentication True True new_lan)"
    by code_simp+
  have env: "v_sock (meet_env 10 3) = 3" "v_sock (meet_env 20 9) = 9" "v_now (meet_env 20 9) = 20"
    by (simp_all add: meet_env_def lan_demo_env_def)
  show ?thesis
    unfolding scanned_def
    by (rule exI [of _ "fst (run_events meet_lib meet_setup)"], rule exI [of _ ?hs], rule exI [of _ "set_authentication True True new_lan"],
      rule exI [of _ "meet_env 0 0"], rule exI [of _ 5], rule exI [of _ "qs ''society://pair''"], rule exI [of _ "meet_host expected"],
      rule exI [of _ "qs ''10.0.0.1''"], rule exI [of _ "meet_env 10 3"], rule exI [of _ "meet_env 20 9"])
      (use hs offer host joins env run_events_run in \<open>simp add: meet_desk_def meet_phone_def\<close>)
qed

lemma meet_trusts: "trusts True (meet_env t s) (meet_env t' s')"
proof -
  have "jobj [(''ok'', JBool True)] \<noteq> fmempty" by code_simp
  then show ?thesis by (simp add: trusts_def meet_env_def lan_demo_env_def)
qed

lemma meet_env_simps: "v_now (meet_env t s) = t" "v_takes (meet_env t s) u m" "v_handle (meet_env t s) p m = Some good_listing"
  "hex_token (random_code (meet_env t s))" "files_listed good_listing" "k_expires demo_lan_link = Some 5000"
proof -
  have "hex_token (from_latin1 (to_hex (replicate 32 187)))" "files_listed good_listing" by code_simp+
  then show "v_now (meet_env t s) = t" "v_takes (meet_env t s) u m" "v_handle (meet_env t s) p m = Some good_listing"
    "hex_token (random_code (meet_env t s))" "files_listed good_listing" "k_expires demo_lan_link = Some 5000"
    by (simp_all add: meet_env_def lan_demo_env_def random_code_def demo_lan_link_def)
qed

text \<open>Example: a phone scans the code of a desktop, both with account proofs.\<close>

theorem lan_scan_pairs_witness:
  "\<exists>h3 j3. client_paired j3 \<and> phase j3 = PPaired \<and> phase h3 = PPaired \<and> qs ''phone'' \<in> set (paired_device_ids h3)
     \<and> hd (paired_device_ids j3) = qs ''host''"
proof -
  have host: "k_host demo_lan_link = qs ''host''" by (simp add: demo_lan_link_def)
  define j1 where "j1 = lan_step meet_lib (meet_env 30 9) (ClientUp 9 (k_fingerprint demo_lan_link)) meet_phone"
  define h2 where "h2 = lan_step meet_lib (meet_env 40 3) (HostText 3 (hd (sent_on 9 meet_phone j1))) (meet_desk [])"
  define j2 where "j2 = lan_step meet_lib (meet_env 50 9) (ClientText 9 (hd (sent_on 3 (meet_desk []) h2))) j1"
  define h3 where "h3 = lan_step meet_lib (meet_env 60 3) (HostText 3 (hd (sent_on 9 j1 j2))) h2"
  define j3 where "j3 = lan_step meet_lib (meet_env 70 9) (ClientText 9 (hd (sent_on 3 h2 h3))) j2"
  have "\<not> expired (k_expires demo_lan_link) (v_now (meet_env 40 3))" "v_now (meet_env 60 3) < v_now (meet_env 40 3) + 15000"
    by (simp_all add: meet_env_simps expired_def)
  from lan_scan_pairs [OF meet_scanned [of "[]"] meet_trusts meet_trusts meet_env_simps(4) this(1) meet_env_simps(3,5) this(2) _
      j1_def h2_def j2_def h3_def j3_def]
  show ?thesis unfolding host by (simp add: meet_env_simps) blast
qed

text \<open>Example: a phone the person has chosen.\<close>

theorem lan_device_pairs_witness:
  "\<exists>h2 j2 h4 (j4 :: lan). shown_code h2 = verification_text meet_lib demo_lan_link (qs ''phone'') (random_code (meet_env 30 9))
     \<and> shown_code j2 = shown_code h2 \<and> client_paired j4 \<and> phase h4 = PPaired \<and> qs ''phone'' \<in> set (paired_device_ids h4)"
proof -
  let ?desk = "meet_desk (qs ''phone'')"
  define j1 where "j1 = lan_step meet_lib (meet_env 30 9) (ClientUp 9 (k_fingerprint demo_lan_link)) meet_phone"
  define h2 where "h2 = lan_step meet_lib (meet_env 40 3) (HostText 3 (hd (sent_on 9 meet_phone j1))) ?desk"
  define j2 where "j2 = lan_step meet_lib (meet_env 50 9) (ClientText 9 (hd (sent_on 3 ?desk h2))) j1"
  define h3 where "h3 = lan_step meet_lib (meet_env 60 3) ConfirmDevice h2"
  define j3 where "j3 = lan_step meet_lib (meet_env 70 9) (ClientText 9 (hd (sent_on 3 h2 h3))) j2"
  define h4 where "h4 = lan_step meet_lib (meet_env 80 3) (HostText 3 (hd (sent_on 9 j2 j3))) h3"
  define j4 where "j4 = lan_step meet_lib (meet_env 90 9) (ClientText 9 (hd (sent_on 3 h3 h4))) j3"
  have "\<not> expired (k_expires demo_lan_link) (v_now (meet_env 40 3))" "v_now (meet_env 60 3) < v_now (meet_env 40 3) + 60000"
    "v_now (meet_env 80 3) < v_now (meet_env 60 3) + 15000" by (simp_all add: meet_env_simps expired_def)
  note met = lan_device_pairs [OF meet_scanned [of "qs ''phone''"] meet_trusts meet_trusts meet_trusts meet_env_simps(4) this
      meet_env_simps(3,5) _ j1_def h2_def j2_def h3_def j3_def h4_def j4_def]
  show ?thesis
    by (rule exI [of _ h2], rule exI [of _ j2], rule exI [of _ h4], rule exI [of _ j4]) (use met in \<open>simp add: meet_env_simps\<close>)
qed

end
