(* ===== verification/LanIdentity.thy ===== *)
theory LanIdentity
  imports Platform "HOL-Library.Monad_Syntax"
begin

text \<open>
  \<open>src/LanIdentity.cpp\<close>: the self-signed certificate a desktop makes for the local network. OpenSSL
  is the record of the calls that are made, each of which may fail: \<open>'k\<close> is a key, \<open>'c\<close> a
  certificate under construction, \<open>'n\<close> a name, \<open>'e\<close> an extension. The first call that fails
  ends the function without an identity.
\<close>

record ('k, 'c, 'n, 'e) openssl =
  x_keygen :: "nat \<Rightarrow> 'k option" \<comment> \<open>an RSA key of that size\<close>
  x_new :: "'c option"
  x_version :: "int \<Rightarrow> 'c \<Rightarrow> 'c option"
  x_serial :: "int \<Rightarrow> 'c \<Rightarrow> 'c option"
  x_not_before :: "int \<Rightarrow> 'c \<Rightarrow> 'c option" \<comment> \<open>seconds from now\<close>
  x_not_after :: "int \<Rightarrow> 'c \<Rightarrow> 'c option"
  x_public_key :: "'k \<Rightarrow> 'c \<Rightarrow> 'c option"
  x_name_new :: "'n option"
  x_entry :: "string \<Rightarrow> string \<Rightarrow> 'n \<Rightarrow> 'n option"
  x_subject :: "'n \<Rightarrow> 'c \<Rightarrow> 'c option"
  x_issuer :: "'n \<Rightarrow> 'c \<Rightarrow> 'c option"
  x_extension :: "string \<Rightarrow> bytes \<Rightarrow> 'e option"
  x_add :: "'e \<Rightarrow> 'c \<Rightarrow> 'c option"
  x_sign :: "'k \<Rightarrow> 'c \<Rightarrow> 'c option" \<comment> \<open>with SHA-256\<close>
  x_certificate_pem :: "'c \<Rightarrow> bytes option"
  x_key_pem :: "'k \<Rightarrow> bytes option"

definition add_extension :: "('k, 'c, 'n, 'e) openssl \<Rightarrow> string \<Rightarrow> bytes \<Rightarrow> 'c \<Rightarrow> 'c option" where
  "add_extension X nid v c = do { x \<leftarrow> x_extension X nid v; x_add X x c }"

definition alternative_names :: "qstring list \<Rightarrow> bytes" where
  "alternative_names addresses = to_latin1 (join_on (unit_of CHR '','') (map (\<lambda>a. qs ''IP:'' @ a) addresses))"

text \<open>Certificate and key as PEM text.\<close>

definition create_lan_identity :: "('k, 'c, 'n, 'e) openssl \<Rightarrow> qstring list \<Rightarrow> (bytes \<times> bytes) option" where
  "create_lan_identity X addresses = do {
     key \<leftarrow> x_keygen X 2048;
     c \<leftarrow> x_new X;
     c \<leftarrow> x_version X 2 c;
     c \<leftarrow> x_serial X 1 c;
     c \<leftarrow> x_not_before X (- 60) c;
     c \<leftarrow> x_not_after X 86400 c;
     c \<leftarrow> x_public_key X key c;
     subject \<leftarrow> x_name_new X;
     subject \<leftarrow> x_entry X ''CN'' ''Society local device'' subject;
     c \<leftarrow> x_subject X subject c;
     c \<leftarrow> x_issuer X subject c;
     c \<leftarrow> add_extension X ''basicConstraints'' (bs ''critical,CA:FALSE'') c;
     c \<leftarrow> add_extension X ''keyUsage'' (bs ''critical,digitalSignature,keyEncipherment'') c;
     c \<leftarrow> add_extension X ''extendedKeyUsage'' (bs ''serverAuth'') c;
     c \<leftarrow> add_extension X ''subjectAltName'' (alternative_names addresses) c;
     c \<leftarrow> x_sign X key c;
     certificate \<leftarrow> x_certificate_pem X c;
     pem \<leftarrow> x_key_pem X key;
     Some (certificate, pem) }"

text \<open>
  What is signed: whatever OpenSSL does, the certificate that is written is one that was signed with
  its own key after everything else was put in, the last of it the names of the addresses given.
\<close>

lemma identity_signed_last:
  assumes "create_lan_identity X addresses = Some (certificate, pem)"
  shows "\<exists>key c e d s. x_keygen X 2048 = Some key \<and> x_extension X ''subjectAltName'' (alternative_names addresses) = Some e
    \<and> x_add X e c = Some d \<and> x_sign X key d = Some s \<and> x_certificate_pem X s = Some certificate \<and> x_key_pem X key = Some pem"
  using assms unfolding create_lan_identity_def add_extension_def
  by (auto simp: bind_eq_Some_conv) blast

section \<open>An OpenSSL that takes notes\<close>

datatype identity_note =
    Version int | Serial int | NotBefore int | NotAfter int | PublicKey | Subject string | Issuer string
  | Extension string bytes | SignedBy

definition noting :: "(unit, identity_note list, string, string \<times> bytes) openssl" where
  "noting = \<lparr>x_keygen = (\<lambda>n. if n = 2048 then Some () else None), x_new = Some [],
     x_version = (\<lambda>i c. Some (c @ [Version i])), x_serial = (\<lambda>i c. Some (c @ [Serial i])),
     x_not_before = (\<lambda>i c. Some (c @ [NotBefore i])), x_not_after = (\<lambda>i c. Some (c @ [NotAfter i])),
     x_public_key = (\<lambda>k c. Some (c @ [PublicKey])), x_name_new = Some [], x_entry = (\<lambda>f v n. Some (n @ f @ ''='' @ v)),
     x_subject = (\<lambda>n c. Some (c @ [Subject n])), x_issuer = (\<lambda>n c. Some (c @ [Issuer n])),
     x_extension = (\<lambda>i v. Some (i, v)), x_add = (\<lambda>e c. Some (c @ [Extension (fst e) (snd e)])),
     x_sign = (\<lambda>k c. Some (c @ [SignedBy])),
     x_certificate_pem = (\<lambda>c. if c = [Version 2, Serial 1, NotBefore (- 60), NotAfter 86400, PublicKey,
         Subject ''CN=Society local device'', Issuer ''CN=Society local device'',
         Extension ''basicConstraints'' (bs ''critical,CA:FALSE''),
         Extension ''keyUsage'' (bs ''critical,digitalSignature,keyEncipherment''),
         Extension ''extendedKeyUsage'' (bs ''serverAuth''), Extension ''subjectAltName'' (bs ''IP:10.0.0.1,IP:10.0.0.2''), SignedBy]
       then Some [1] else None),
     x_key_pem = (\<lambda>k. Some [2])\<rparr>"

text \<open>Example: the certificate of a desktop with two addresses is exactly this list of statements.\<close>

lemma identity_noted: "create_lan_identity noting [qs ''10.0.0.1'', qs ''10.0.0.2''] = Some ([1], [2])"
  by code_simp

end
