(* ===== verification/HostTool.thy ===== *)
theory HostTool
  imports PeerProperties
begin

text \<open>
  \<open>src/tools/host.cpp\<close> and \<open>src/tools/relay.cpp\<close>: the command line peer and the relay program. The
  peer program is a small state machine around one \<open>Peer\<close>: it announces itself once, or asks one
  peer once as soon as that is listed, and exits with the outcome.
\<close>

section \<open>Options\<close>

record host_args =
  a_relay :: qstring
  a_id :: qstring
  a_root :: "qstring option"
  a_address :: qstring
  a_certificate :: "qstring option"
  a_key :: "qstring option"
  a_no_local :: bool
  a_peer :: "qstring option"
  a_path :: qstring
  a_read :: bool

text \<open>\<open>QByteArray::trimmed\<close>.\<close>

definition blank_byte :: "8 word \<Rightarrow> bool" where
  "blank_byte b \<longleftrightarrow> b = 32 \<or> (9 \<le> b \<and> b \<le> 13)"

definition trimmed_bytes :: "bytes \<Rightarrow> bytes" where
  "trimmed_bytes b = rev (dropWhile blank_byte (rev (dropWhile blank_byte b)))"

text \<open>
  \<open>credential\<close> is what the credential file holds, if it can be opened; \<open>identity\<close> and \<open>fp\<close> are what
  iiNetwork makes of the certificate and key files, if one of them is given. \<open>None\<close> is the help text and
  exit code 2.
\<close>

definition host_options :: "lib \<Rightarrow> bool \<Rightarrow> qstring \<Rightarrow> bytes option \<Rightarrow> host_args \<Rightarrow> peer_options option" where
  "host_options L identity fp credential a =
     (case credential of
        None \<Rightarrow> None
      | Some b \<Rightarrow>
          if int (length b) > 16384 then None
          else case parse_address L (a_address a) of
              None \<Rightarrow> None
            | Some bind_address \<Rightarrow>
                let given = (a_certificate a \<noteq> None \<or> a_key a \<noteq> None) in
                Some \<lparr>g_relay_url = parse_url L (a_relay a), g_credential = trimmed_bytes b, g_peer_id = a_id a, g_name = a_id a,
                  g_service = qs ''files'', g_metadata = fmempty, g_host_files = (a_root a \<noteq> None),
                  g_local_enabled = (\<not> a_no_local a), g_local_hosting = True, g_listen_address = bind_address,
                  g_local_identity = (given \<and> identity), g_fingerprint = (if given then fp else []), g_local_addresses = [],
                  g_local_timeout = 1200, g_request_timeout = 15000\<rparr>)"

section \<open>The program\<close>

datatype host_output =
    Announce int | AskPeer qstring jobject | PrintResult jobject "transport option" | PrintTimeout | PrintError qstring

record host_state =
  ht_announced :: bool
  ht_requested :: bool
  ht_exit :: "int option"
  ht_output :: "host_output list"

definition new_host :: host_state where
  "new_host = \<lparr>ht_announced = False, ht_requested = False, ht_exit = None, ht_output = []\<rparr>"

definition host_say :: "host_output \<Rightarrow> host_state \<Rightarrow> host_state" where
  "host_say x t = t\<lparr>ht_output := ht_output t @ [x]\<rparr>"

definition host_exit :: "int \<Rightarrow> host_state \<Rightarrow> host_state" where
  "host_exit code t = t\<lparr>ht_exit := Some code\<rparr>"

definition listed_peer :: "qstring \<Rightarrow> peer \<Rightarrow> bool" where
  "listed_peer peer st \<longleftrightarrow> list_ex (\<lambda>d. jval (to_object d) ''peerId'' = JStr peer) (directory st)"

definition host_request :: "host_args \<Rightarrow> peer \<Rightarrow> host_state \<Rightarrow> host_state" where
  "host_request a st t =
     (case a_peer a of
        None \<Rightarrow> t
      | Some peer \<Rightarrow>
          if \<not> ready st \<or> ht_requested t \<or> \<not> listed_peer peer st then t
          else host_say (AskPeer peer (jobj [(''op'', jtext (if a_read a then ''read'' else ''list'')), (''path'', JStr (a_path a))]))
            (t\<lparr>ht_requested := True\<rparr>))"

definition local_port :: "peer \<Rightarrow> int" where
  "local_port st = (case listening st of None \<Rightarrow> 0 | Some p \<Rightarrow> p)"

definition host_changed :: "host_args \<Rightarrow> peer \<Rightarrow> host_state \<Rightarrow> host_state" where
  "host_changed a st t =
     (let t = (if ready st \<and> \<not> ht_announced t \<and> a_peer a = None
        then host_say (Announce (local_port st)) (t\<lparr>ht_announced := True\<rparr>) else t)
      in host_request a st t)"

definition host_completed :: "jobject \<Rightarrow> transport option \<Rightarrow> host_state \<Rightarrow> host_state" where
  "host_completed result tr t =
     host_exit (if to_bool (jval result ''ok'') then 0 else 1) (host_say (PrintResult result tr) t)"

datatype host_signal = PeersSignal | StateSignal | CompletedSignal jobject "transport option" | EightSeconds

text \<open>A signal, with the peer as it is then. The timer runs only if a peer was named.\<close>

definition host_signal_step :: "host_args \<Rightarrow> host_signal \<times> peer \<Rightarrow> host_state \<Rightarrow> host_state" where
  "host_signal_step a x t =
     (case x of
        (PeersSignal, st) \<Rightarrow> host_request a st t
      | (StateSignal, st) \<Rightarrow> host_changed a st t
      | (CompletedSignal result tr, st) \<Rightarrow> host_completed result tr t
      | (EightSeconds, st) \<Rightarrow> if a_peer a = None then t else host_exit 1 (host_say PrintTimeout t))"

definition host_run :: "host_args \<Rightarrow> (host_signal \<times> peer) list \<Rightarrow> host_state" where
  "host_run a xs = fold (host_signal_step a) xs new_host"

text \<open>
  The whole program: \<open>bound\<close> is the outcome of listening, \<open>xs\<close> are the signals that come after. \<open>None\<close> is
  the help text.
\<close>

definition host_main :: "lib \<Rightarrow> bool \<Rightarrow> qstring \<Rightarrow> bytes option \<Rightarrow> host_args \<Rightarrow> qstring + int \<Rightarrow> (host_signal \<times> peer) list \<Rightarrow> host_state option" where
  "host_main L identity fp credential a bound xs =
     (case host_options L identity fp credential a of
        None \<Rightarrow> None
      | Some g \<Rightarrow>
          let (ok, st) = peer_start L g True bound (new_peer g) in
          Some (if ok then host_run a xs else host_exit 1 (host_say (PrintError (peer_error st)) new_host)))"

section \<open>The relay program\<close>

text \<open>Address, port and whether a TLS identity is configured; \<open>None\<close> is the help text and exit code 2.\<close>

definition relay_options :: "lib \<Rightarrow> qstring \<Rightarrow> qstring \<Rightarrow> qstring option \<Rightarrow> qstring option \<Rightarrow> (address \<times> int \<times> bool) option" where
  "relay_options L address_text port_text certificate key =
     (case (to_ushort L port_text, parse_address L address_text) of
        (Some port, Some a) \<Rightarrow> Some (a, port, certificate \<noteq> None \<or> key \<noteq> None)
      | _ \<Rightarrow> None)"

section \<open>What the peer program promises\<close>

fun asks :: "host_output \<Rightarrow> bool" where
  "asks (AskPeer p m) = True"
| "asks _ = False"

definition host_inv :: "host_args \<Rightarrow> host_state \<Rightarrow> bool" where
  "host_inv a t \<longleftrightarrow> length (filter asks (ht_output t)) = (if ht_requested t then 1 else 0)
     \<and> (\<forall>p m. AskPeer p m \<in> set (ht_output t) \<longrightarrow> a_peer a = Some p)"

lemma host_step_inv: "host_inv a t \<Longrightarrow> host_inv a (host_signal_step a x t)"
  by (cases x; cases "fst x")
    (auto simp: host_inv_def host_signal_step_def host_request_def host_changed_def host_completed_def host_say_def host_exit_def
      Let_def split: option.split)

text \<open>
  Whatever the peer reports, the program asks only the peer it was told to, and at most once; a program that
  was given no peer never asks.
\<close>

theorem host_asks_once:
  "length (filter asks (ht_output (host_run a xs))) \<le> 1
   \<and> (\<forall>p m. AskPeer p m \<in> set (ht_output (host_run a xs)) \<longrightarrow> a_peer a = Some p)"
proof -
  have "host_inv a t \<Longrightarrow> host_inv a (fold (host_signal_step a) xs t)" for t
    by (induction xs arbitrary: t) (simp_all add: host_step_inv)
  moreover have "host_inv a new_host" by (simp add: host_inv_def new_host_def)
  ultimately have "host_inv a (host_run a xs)" unfolding host_run_def by blast
  then show ?thesis by (simp add: host_inv_def)
qed

text \<open>A credential file that is too long, an address that is none, or a peer identifier that is none: no signal is handled.\<close>

lemma host_refused:
  "int (length b) > 16384 \<Longrightarrow> host_main L identity fp (Some b) a bound xs = None"
  "parse_address L (a_address a) = None \<Longrightarrow> host_main L identity fp credential a bound xs = None"
  "\<not> identifier_ok (a_id a) \<Longrightarrow> host_main L identity fp credential a bound xs = Some t \<Longrightarrow>
    ht_exit t = Some 1 \<and> ht_output t = [PrintError (qs ''Invalid peer identity, credential, URL or timeout.'')]"
proof -
  show "int (length b) > 16384 \<Longrightarrow> host_main L identity fp (Some b) a bound xs = None"
    by (simp add: host_main_def host_options_def)
  show "parse_address L (a_address a) = None \<Longrightarrow> host_main L identity fp credential a bound xs = None"
    by (simp add: host_main_def host_options_def split: option.split)
  assume bad: "\<not> identifier_ok (a_id a)" and ran: "host_main L identity fp credential a bound xs = Some t"
  then obtain g where g: "host_options L identity fp credential a = Some g" by (auto simp: host_main_def split: option.splits)
  then have "g_peer_id g = a_id a" by (auto simp: host_options_def Let_def split: option.splits if_splits)
  then have "\<not> options_ok L g" using bad by (simp add: options_ok_def)
  then show "ht_exit t = Some 1 \<and> ht_output t = [PrintError (qs ''Invalid peer identity, credential, URL or timeout.'')]"
    using g ran by (auto simp: host_main_def peer_start_def Let_def put_out_def host_exit_def host_say_def new_host_def)
qed

lemma host_options_valid:
  assumes "host_options L identity fp credential a = Some g"
  shows "g_credential g = trimmed_bytes (the credential)" "int (length (the credential)) \<le> 16384" "g_host_files g \<longleftrightarrow> a_root a \<noteq> None"
    "g_local_enabled g \<longleftrightarrow> \<not> a_no_local a" "g_local_timeout g = 1200" "g_request_timeout g = 15000"
  using assms by (auto simp: host_options_def Let_def split: option.splits if_splits)

end
