(* ===== verification/RelayPairing.thy ===== *)
theory RelayPairing
  imports System
begin

text \<open>
  Two peers that pair by a code over the relay: what one peer puts on its connection the relay
  gets as a frame of that socket, and what the relay sends to a socket the peer there gets as a
  message. The code and the host's name reach the other device as the person carries them.
\<close>

section \<open>What passes between the parties\<close>

definition frames_out :: "peer \<Rightarrow> peer \<Rightarrow> jobject list" where
  "frames_out p p' = List.map_filter (\<lambda>x. case x of RelaySend m \<Rightarrow> Some m | _ \<Rightarrow> None) (drop (length (peer.out p)) (peer.out p'))"

definition told :: "peer \<Rightarrow> peer \<Rightarrow> jobject list" where
  "told p p' = List.map_filter (\<lambda>x. case x of PairingEvent m \<Rightarrow> Some m | _ \<Rightarrow> None) (drop (length (peer.out p)) (peer.out p'))"

definition frames_for :: "sock \<Rightarrow> relay \<Rightarrow> relay \<Rightarrow> jobject list" where
  "frames_for s st st' = List.map_filter (\<lambda>x. case x of Send t m \<Rightarrow> if t = s then Some m else None | _ \<Rightarrow> None) (news st st')"

lemma peer_asks:
  assumes "peer.ready p" "\<And>m. e_relay_takes e m" "\<And>r. call \<noteq> CancelPairing r" "p' = peer_step L e (CallPairing call) p"
  shows "frames_out p p' = [pairing_frame (e_fresh e) call]" "peer.ready p'"
  using assms by (simp_all add: peer_step_def pairing_request_def relay_send_def put_out_def frames_out_def List.map_filter_simps)

lemma peer_hears:
  assumes "peer.ready p" "to_string (jval m ''type'') = qs ''pairing''" "p' = peer_step L e (RelayMessage m) p"
  shows "told p p' = [m]" "peer.ready p'"
  using assms by (simp_all add: peer_step_def peer_message_def Let_def put_out_def told_def List.map_filter_simps)

section \<open>The relay's part\<close>

text \<open>Nothing to cancel: the socket takes part in no pairing.\<close>

lemma cancel_idle:
  assumes "pairing_load st s = 0"
  shows "cancel_pairing s [] st = st"
proof -
  have offers: "cancel_offer s [] k st = st" for k
    using assms tget_Some_in_set [of "offers st" k] by (fastforce simp: cancel_offer_def pairing_load_zero_iff offer_hit_def split: option.split)
  have pairs: "cancel_pair s [] k st = st" for k
    using assms tget_Some_in_set [of "pairs st" k] by (fastforce simp: cancel_pair_def pairing_load_zero_iff pair_hit_def split: option.split)
  have "fold (cancel_offer s []) ks st = st" for ks using offers by (induction ks) simp_all
  moreover have "fold (cancel_pair s []) ks st = st" for ks using pairs by (induction ks) simp_all
  ultimately show ?thesis by (simp add: cancel_pairing_def cancel_offers_def cancel_pairs_def)
qed

lemma find_tput:
  assumes "tget t s = Some x" "\<And>k. P k y \<longleftrightarrow> P k x"
  shows "map_option fst (find (\<lambda>(k, x). P k x) (tput s y t)) = map_option fst (find (\<lambda>(k, x). P k x) t)"
  using assms(1) by (induction t) (auto simp: tput_def tget_def assms(2) split: if_splits)

text \<open>Counting an attempt does not change who can be reached.\<close>

lemma target_counted:
  assumes "has_key (sessions st) s"
  shows "target t (set_session s (count_attempt t' (session_of st s)) st) a name = target t st a name"
proof -
  let ?st = "set_session s (count_attempt t' (session_of st s)) st"
  obtain x where x: "tget (sessions st) s = Some x" "session_of st s = x"
    using assms by (auto simp: has_key_def session_of_def)
  have same: "reachable_host t (session_of ?st a) z = reachable_host t (session_of st a) z" for z
    by (simp add: reachable_host_def)
  have "map_option fst (find (\<lambda>(k, z). k \<noteq> a \<and> s_id z = name \<and> reachable_host t (session_of st a) z) (tput s (count_attempt t' x) (sessions st)))
      = map_option fst (find (\<lambda>(k, z). k \<noteq> a \<and> s_id z = name \<and> reachable_host t (session_of st a) z) (sessions st))"
    by (rule find_tput [OF x(1)]) (simp add: reachable_host_def)
  then show ?thesis unfolding target_def same using x(2) by (simp add: set_session_def)
qed

text \<open>The sessions with one more attempt of \<open>s\<close>.\<close>

definition counted :: "msecs \<Rightarrow> sock \<Rightarrow> relay \<Rightarrow> relay" where
  "counted t s st = set_session s (count_attempt t (session_of st s)) st"

definition attempt_left :: "msecs \<Rightarrow> relay \<Rightarrow> sock \<Rightarrow> bool" where
  "attempt_left t st s \<longleftrightarrow> s_attempts (count_attempt t (session_of st s)) \<le> 6"

lemma counted_simps [simp]:
  "offers (counted t s st) = offers st" "pairs (counted t s st) = pairs st" "log (counted t s st) = log st"
  "has_key (sessions (counted t s st)) a \<longleftrightarrow> a = s \<or> has_key (sessions st) a"
  "s_id (session_of (counted t s st) a) = s_id (session_of st a)" "s_name (session_of (counted t s st) a) = s_name (session_of st a)"
  "s_descriptor (session_of (counted t s st) a) = s_descriptor (session_of st a)"
  "s_principal (session_of (counted t s st) a) = s_principal (session_of st a)"
  by (simp_all add: counted_def)

lemma counted_active: "has_key (sessions st) s \<Longrightarrow> active t' (counted t s st) a = active t' st a"
  by (auto simp: active_def)

lemma counted_target: "has_key (sessions st) s \<Longrightarrow> target t' (counted t s st) a name = target t' st a name"
  unfolding counted_def by (rule target_counted)

lemma counted_idle: "pairing_load st s = 0 \<Longrightarrow> cancel_pairing s [] (counted t s' st) = counted t s' st"
  by (rule cancel_idle) (simp add: pairing_load_def)

text \<open>A frame of a registered socket that asks for a pairing.\<close>

lemma pairing_reaches:
  assumes "RelayTags.admitted (now e) st s" "identifier_ok rid" "attempt_left (now e) st s"
    and "c = CreateOffer \<or> c = ClaimOffer code host"
  shows "relay_step L e (TextFrame s (pairing_frame rid c)) st =
     (if c = CreateOffer then pair_offer L e s rid (counted (now e) s st)
      else pair_claim L e s rid (pairing_frame rid c) (counted (now e) s st))"
proof -
  have heads: "starts_with ''pair-'' (qs ''pair-offer'')" "starts_with ''pair-'' (qs ''pair-claim'')" by code_simp+
  have frame: "to_string (jval (pairing_frame rid c) ''id'') = rid"
    "to_string (jval (pairing_frame rid c) ''type'') = (if c = CreateOffer then qs ''pair-offer'' else qs ''pair-claim'')"
    using assms(4) by (auto simp: pairing_frame_def)
  have "pair_message L e s (pairing_frame rid c) st = Some (if c = CreateOffer then pair_offer L e s rid (counted (now e) s st)
      else pair_claim L e s rid (pairing_frame rid c) (counted (now e) s st))"
    unfolding pair_message_def frame using assms(2,3) heads
    by (cases "c = CreateOffer") (simp_all add: Let_def attempt_left_def counted_def not_less)
  moreover have "has_key (sessions st) s" "active (now e) st s" "s_id (session_of st s) \<noteq> []"
    using assms(1) by (simp_all add: RelayTags.admitted_def active_def)
  ultimately show ?thesis
    by (auto simp: relay_message_def frame Let_def)
qed

text \<open>The people at the relay are the same: who is registered, as what, and who reaches whom.\<close>

definition same_people :: "relay \<Rightarrow> relay \<Rightarrow> bool" where
  "same_people st st' \<longleftrightarrow> (\<forall>a. (has_key (sessions st') a \<longleftrightarrow> has_key (sessions st) a)
     \<and> s_id (session_of st' a) = s_id (session_of st a) \<and> s_name (session_of st' a) = s_name (session_of st a)
     \<and> s_descriptor (session_of st' a) = s_descriptor (session_of st a) \<and> s_principal (session_of st' a) = s_principal (session_of st a))
     \<and> (\<forall>t a name. target t st' a name = target t st a name)"

lemma same_peopleD:
  assumes "same_people st st'"
  shows "has_key (sessions st') a \<longleftrightarrow> has_key (sessions st) a"
    "s_id (session_of st' a) = s_id (session_of st a)" "s_name (session_of st' a) = s_name (session_of st a)"
    "s_descriptor (session_of st' a) = s_descriptor (session_of st a)" "s_principal (session_of st' a) = s_principal (session_of st a)"
    "target t st' a name = target t st a name" "active t st' a = active t st a" "RelayTags.admitted t st' a = RelayTags.admitted t st a"
  using assms by (auto simp: same_people_def active_def RelayTags.admitted_def)

lemma same_people_counted:
  assumes "has_key (sessions st) s" "sessions st' = sessions (counted t s st)"
  shows "same_people st st'"
proof -
  have "session_of st' = session_of (counted t s st)" by (rule session_of_cong [OF assms(2)])
  then show ?thesis
    using assms(1) counted_target [OF assms(1)] target_cong [OF assms(2)]
    by (auto simp: same_people_def assms(2))
qed

definition offered_fields :: "bytes \<Rightarrow> session \<Rightarrow> msecs \<Rightarrow> (string \<times> json) list" where
  "offered_fields code x expires = [(''code'', JStr (from_latin1 code)), (''peerId'', JStr (s_id x)), (''name'', JStr (s_name x)),
     (''expires'', JStr (number_text expires))]"

lemma offer_answered:
  assumes "RelayTags.admitted (now e) st h" "identifier_ok rid" "attempt_left (now e) st h" "s_descriptor (session_of st h) \<noteq> fmempty"
    "pairing_load st h = 0"
    and x: "x = min (now e + 60000) (expires_at (s_principal (session_of st h)))"
    and st1: "st1 = relay_step L e (TextFrame h (pairing_frame rid CreateOffer)) st"
  shows "news st st1 = [Send h (pairing_object rid ''offered'' (offered_fields (to_hex (random e)) (session_of (counted (now e) h st) h) x))]"
    "offers st1 = tput (sha256 L (to_hex (random e))) \<lparr>o_host = h, o_request = rid, o_expires = x\<rparr> (offers st)"
    "pairs st1 = pairs st" "sessions st1 = sessions (counted (now e) h st)"
proof -
  have "cancel_pairing h [] (counted (now e) h st) = counted (now e) h st"
    using assms(5) by (rule counted_idle)
  moreover have "st1 = pair_offer L e h rid (counted (now e) h st)"
    unfolding st1 pairing_reaches [OF assms(1-3), of CreateOffer, OF disjI1, OF refl] by simp
  ultimately have st1: "st1 = pairing h rid ''offered'' (offered_fields (to_hex (random e)) (session_of (counted (now e) h st) h) x)
      ((counted (now e) h st)\<lparr>offers := tput (sha256 L (to_hex (random e))) \<lparr>o_host = h, o_request = rid, o_expires = x\<rparr> (offers st)\<rparr>)"
    using assms(4) by (simp add: pair_offer_def Let_def offered_fields_def x)
  show "news st st1 = [Send h (pairing_object rid ''offered'' (offered_fields (to_hex (random e)) (session_of (counted (now e) h st) h) x))]"
    "offers st1 = tput (sha256 L (to_hex (random e))) \<lparr>o_host = h, o_request = rid, o_expires = x\<rparr> (offers st)"
    "pairs st1 = pairs st" "sessions st1 = sessions (counted (now e) h st)"
    by (simp_all add: st1)
qed

lemma claim_answered:
  assumes "RelayTags.admitted (now e) st s" "identifier_ok rid" "attempt_left (now e) st s" "s_descriptor (session_of st s) = fmempty"
    "pairing_load st s = 0" "tget (offers st) (sha256 L (to_latin1 code)) = Some off" "length code = 64" "now e < o_expires off"
    "active (now e) st (o_host off)" "s_id (session_of st (o_host off)) = name" "target (now e) st s name = Some (o_host off)"
    and x: "x = min (now e + 15000) (o_expires off)"
    and st1: "st1 = relay_step L e (TextFrame s (pairing_frame rid (ClaimOffer code name))) st"
  shows "\<exists>a b. news st st1 = [Send (o_host off) (pairing_object (o_request off) ''claimed'' (claimed_fields (fresh e) a x)),
      Send s (pairing_object rid ''claimed'' (claimed_fields (fresh e) b x))] \<and> s_id a = s_id (session_of st s) \<and> s_id b = name"
    "offers st1 = tdel (sha256 L (to_latin1 code)) (offers st)"
    "pairs st1 = tput (fresh e) \<lparr>p_host = o_host off, p_client = s, p_host_request = o_request off, p_client_request = rid, p_expires = x\<rparr>
      (pairs st)"
    "sessions st1 = sessions (counted (now e) s st)"
proof -
  have key: "has_key (sessions st) s" using assms(1) by (simp add: RelayTags.admitted_def active_def)
  have idle: "cancel_pairing s [] (counted (now e) s st) = counted (now e) s st"
    using assms(5) by (rule counted_idle)
  let ?st = "(counted (now e) s st)\<lparr>offers := tdel (sha256 L (to_latin1 code)) (offers st), pairs := tput (fresh e)
      \<lparr>p_host = o_host off, p_client = s, p_host_request = o_request off, p_client_request = rid, p_expires = x\<rparr> (pairs st)\<rparr>"
  let ?a = "session_of (counted (now e) s st) s" and ?b = "session_of (counted (now e) s st) (o_host off)"
  have frame: "to_string (jval (pairing_frame rid (ClaimOffer code name)) ''code'') = code"
    "to_string (jval (pairing_frame rid (ClaimOffer code name)) ''host'') = name" by (simp_all add: pairing_frame_def)
  have "st1 = pair_claim L e s rid (pairing_frame rid (ClaimOffer code name)) (counted (now e) s st)"
    unfolding st1 pairing_reaches [OF assms(1-3), of "ClaimOffer code name", OF disjI2, OF refl] by (simp only: pairing_call.distinct if_False)
  also have "\<dots> = pairing s rid ''claimed'' (claimed_fields (fresh e) ?b x)
      (pairing (o_host off) (o_request off) ''claimed'' (claimed_fields (fresh e) ?a x) ?st)"
    unfolding pair_claim_def frame
    using assms(4,6-11) idle key by (simp add: Let_def x counted_active counted_target)
  finally have st1: "st1 = \<dots>" .
  show "\<exists>a b. news st st1 = [Send (o_host off) (pairing_object (o_request off) ''claimed'' (claimed_fields (fresh e) a x)),
      Send s (pairing_object rid ''claimed'' (claimed_fields (fresh e) b x))] \<and> s_id a = s_id (session_of st s) \<and> s_id b = name"
    using assms(10) by (intro exI [of _ ?a] exI [of _ ?b]) (simp add: st1)
  show "offers st1 = tdel (sha256 L (to_latin1 code)) (offers st)"
    "pairs st1 = tput (fresh e) \<lparr>p_host = o_host off, p_client = s, p_host_request = o_request off, p_client_request = rid, p_expires = x\<rparr>
      (pairs st)" "sessions st1 = sessions (counted (now e) s st)"
    by (simp_all add: st1)
qed

lemma confirm_answered:
  assumes "RelayTags.admitted (now e) st (p_client p)" "tget (pairs st) key = Some p" "now e < p_expires p" "active (now e) st (p_host p)"
    "target (now e) st (p_client p) (s_id (session_of st (p_host p))) = Some (p_host p)"
    and st1: "st1 = relay_step L e (TextFrame (p_client p) (pairing_frame rid (ConfirmPairing key))) st"
  shows "news st st1 = [Send (p_host p) (pairing_object (p_host_request p) ''paired'' (peer_fields key (session_of st (p_client p)))),
      Send (p_client p) (pairing_object (p_client_request p) ''paired'' (peer_fields key (session_of st (p_host p))))]"
    "offers st1 = offers st" "pairs st1 = tdel key (pairs st)"
proof -
  have head: "starts_with ''pair-'' (qs ''pair-confirm'')" by code_simp
  have frame: "to_string (jval (pairing_frame rid (ConfirmPairing key)) ''type'') = qs ''pair-confirm''"
    "to_string (jval (pairing_frame rid (ConfirmPairing key)) ''pairingId'') = key" by (simp_all add: pairing_frame_def)
  have keys: "has_key (sessions st) (p_client p)" "active (now e) st (p_client p)" "s_id (session_of st (p_client p)) \<noteq> []"
    "has_key (sessions st) (p_host p)" using assms(1,4) by (simp_all add: RelayTags.admitted_def active_def)
  have "pair_confirm e (p_client p) (pairing_frame rid (ConfirmPairing key)) st = finish_pair ''paired'' key st"
    unfolding pair_confirm_def frame using assms(2-5) keys by (simp add: Let_def)
  then have "pair_message L e (p_client p) (pairing_frame rid (ConfirmPairing key)) st = Some (finish_pair ''paired'' key st)"
    unfolding pair_message_def frame using head by (simp add: Let_def)
  then have st1: "st1 = finish_pair ''paired'' key st"
    using keys by (simp add: st1 relay_message_def frame Let_def)
  show "news st st1 = [Send (p_host p) (pairing_object (p_host_request p) ''paired'' (peer_fields key (session_of st (p_client p)))),
      Send (p_client p) (pairing_object (p_client_request p) ''paired'' (peer_fields key (session_of st (p_host p))))]"
    using keys finish_pair_log [OF assms(2), of "''paired''"] by (simp add: st1 finish_outs_def)
  show "offers st1 = offers st" "pairs st1 = tdel key (pairs st)" by (simp_all add: st1)
qed

section \<open>From the code to the pair\<close>

lemma frames_for_reads:
  "news st st' = l \<Longrightarrow> frames_for a st st' = List.map_filter (\<lambda>x. case x of Send t m \<Rightarrow> if t = a then Some m else None | _ \<Rightarrow> None) l"
  by (simp add: frames_for_def)

lemma pairing_event_reads:
  "jval (pairing_object rid status (offered_fields code x t)) ''code'' = JStr (from_latin1 code)"
  "jval (pairing_object rid status (offered_fields code x t)) ''peerId'' = JStr (s_id x)"
  "jval (pairing_object rid status (claimed_fields key x t)) ''pairingId'' = JStr key"
  "jval (pairing_object rid status (claimed_fields key x t)) ''peerId'' = JStr (s_id x)"
  "jval (pairing_object rid status (peer_fields key x)) ''pairingId'' = JStr key"
  "jval (pairing_object rid status (peer_fields key x)) ''peerId'' = JStr (s_id x)"
  by (simp_all add: pairing_object_def offered_fields_def claimed_fields_def peer_fields_def)

text \<open>An offer and the pair that replaces it leave nothing behind.\<close>

lemma pairing_used_up:
  assumes "table_ok (offers st)" "table_ok (pairs st)" "pairing_load st a = 0"
    "offers st' = tdel hash (tput hash off (offers st))" "pairs st' = tdel key (tput key p (pairs st))"
  shows "pairing_load st' a = 0"
  using assms(3) by (auto simp: pairing_load_zero_iff assms(4,5) set_tdel set_tput assms(1,2))

text \<open>One side asks, the relay answers, the sides are told.\<close>

lemma code_offered:
  assumes "RelayTags.admitted (now e) st h" "identifier_ok (e_fresh he)" "attempt_left (now e) st h"
    "s_descriptor (session_of st h) \<noteq> fmempty" "pairing_load st h = 0" "peer.ready p" "\<And>m. e_relay_takes he m"
    and x: "x = min (now e + 60000) (expires_at (s_principal (session_of st h)))"
    and f: "f = pairing_object (e_fresh he) ''offered'' (offered_fields (to_hex (random e)) (session_of (counted (now e) h st) h) x)"
    and p1: "p1 = peer_step L he (CallPairing CreateOffer) p"
    and st1: "st1 = relay_step L e (TextFrame h (hd (frames_out p p1))) st"
    and p2: "p2 = peer_step L he2 (RelayMessage (hd (frames_for h st st1))) p1"
  shows "news st st1 = [Send h f]" "told p1 p2 = [f]" "peer.ready p2"
    "offers st1 = tput (sha256 L (to_hex (random e))) \<lparr>o_host = h, o_request = e_fresh he, o_expires = x\<rparr> (offers st)"
    "pairs st1 = pairs st" "sessions st1 = sessions (counted (now e) h st)"
proof -
  have asked: "frames_out p p1 = [pairing_frame (e_fresh he) CreateOffer]" "peer.ready p1"
    using peer_asks [OF assms(6,7) _ p1] by simp_all
  have "st1 = relay_step L e (TextFrame h (pairing_frame (e_fresh he) CreateOffer)) st" using st1 asked by (simp only: list.sel)
  note st1' = offer_answered [OF assms(1-5) x this]
  show "news st st1 = [Send h f]" using st1'(1) by (simp add: f)
  show "told p1 p2 = [f]" "peer.ready p2"
    using peer_hears [OF asked(2) _ p2] by (simp_all add: frames_for_reads [OF st1'(1)] List.map_filter_simps f)
  show "offers st1 = tput (sha256 L (to_hex (random e))) \<lparr>o_host = h, o_request = e_fresh he, o_expires = x\<rparr> (offers st)"
    "pairs st1 = pairs st" "sessions st1 = sessions (counted (now e) h st)" by (fact st1')+
qed

lemma code_claimed:
  assumes "RelayTags.admitted (now e) st s" "identifier_ok (e_fresh ce)" "attempt_left (now e) st s" "s_descriptor (session_of st s) = fmempty"
    "pairing_load st s = 0" "tget (offers st) (sha256 L (to_latin1 code)) = Some off" "length code = 64" "now e < o_expires off"
    "active (now e) st h" "s_id (session_of st h) = name" "target (now e) st s name = Some h" "o_host off = h" "h \<noteq> s"
    and x: "x = min (now e + 15000) (o_expires off)"
    and ready: "peer.ready c" "peer.ready p" "\<And>m. e_relay_takes ce m"
    and c1: "c1 = peer_step L ce (CallPairing (ClaimOffer code name)) c"
    and st1: "st1 = relay_step L e (TextFrame s (hd (frames_out c c1))) st"
    and p1: "p1 = peer_step L he (RelayMessage (hd (frames_for h st st1))) p"
    and c2: "c2 = peer_step L ce2 (RelayMessage (hd (frames_for s st st1))) c1"
  shows "\<exists>m n. news st st1 = [Send h m, Send s n] \<and> told p p1 = [m] \<and> told c1 c2 = [n] \<and> jval m ''peerId'' = JStr (s_id (session_of st s))
      \<and> jval n ''peerId'' = JStr name \<and> jval n ''pairingId'' = JStr (fresh e)"
    "peer.ready p1" "peer.ready c2" "offers st1 = tdel (sha256 L (to_latin1 code)) (offers st)"
    "pairs st1 = tput (fresh e) \<lparr>p_host = h, p_client = s, p_host_request = o_request off, p_client_request = e_fresh ce, p_expires = x\<rparr>
      (pairs st)"
    "sessions st1 = sessions (counted (now e) s st)"
proof -
  have asked: "frames_out c c1 = [pairing_frame (e_fresh ce) (ClaimOffer code name)]" "peer.ready c1"
    using peer_asks [OF ready(1,3) _ c1] by simp_all
  have st1: "st1 = relay_step L e (TextFrame s (pairing_frame (e_fresh ce) (ClaimOffer code name))) st"
    using st1 asked by (simp only: list.sel)
  have hosted: "active (now e) st (o_host off)" "s_id (session_of st (o_host off)) = name" "target (now e) st s name = Some (o_host off)"
    using assms(9-12) by simp_all
  note st1' = claim_answered [OF assms(1-8) hosted x st1]
  obtain a b where new: "news st st1 = [Send h (pairing_object (o_request off) ''claimed'' (claimed_fields (fresh e) a x)),
      Send s (pairing_object (e_fresh ce) ''claimed'' (claimed_fields (fresh e) b x))]" "s_id a = s_id (session_of st s)" "s_id b = name"
    using st1'(1) assms(12) by blast
  show "\<exists>m n. news st st1 = [Send h m, Send s n] \<and> told p p1 = [m] \<and> told c1 c2 = [n] \<and> jval m ''peerId'' = JStr (s_id (session_of st s))
      \<and> jval n ''peerId'' = JStr name \<and> jval n ''pairingId'' = JStr (fresh e)" "peer.ready p1" "peer.ready c2"
    using peer_hears [OF ready(2) _ p1] peer_hears [OF asked(2) _ c2] assms(13) new(2,3)
    by (simp_all add: frames_for_reads [OF new(1)] new(1) List.map_filter_simps pairing_event_reads)
  show "offers st1 = tdel (sha256 L (to_latin1 code)) (offers st)"
    "pairs st1 = tput (fresh e) \<lparr>p_host = h, p_client = s, p_host_request = o_request off, p_client_request = e_fresh ce, p_expires = x\<rparr>
      (pairs st)" "sessions st1 = sessions (counted (now e) s st)" using st1' assms(12) by simp_all
qed

lemma code_confirmed:
  assumes "RelayTags.admitted (now e) st s" "tget (pairs st) key = Some q" "p_client q = s" "p_host q = h" "h \<noteq> s" "now e < p_expires q"
    "active (now e) st h" "s_id (session_of st h) = name" "target (now e) st s name = Some h"
    and ready: "peer.ready c" "peer.ready p" "\<And>m. e_relay_takes ce m"
    and c1: "c1 = peer_step L ce (CallPairing (ConfirmPairing key)) c"
    and st1: "st1 = relay_step L e (TextFrame s (hd (frames_out c c1))) st"
    and p1: "p1 = peer_step L he (RelayMessage (hd (frames_for h st st1))) p"
    and c2: "c2 = peer_step L ce2 (RelayMessage (hd (frames_for s st st1))) c1"
  shows "\<exists>m n. news st st1 = [Send h m, Send s n] \<and> told p p1 = [m] \<and> told c1 c2 = [n]
      \<and> jval m ''status'' = jtext ''paired'' \<and> jval n ''status'' = jtext ''paired''
      \<and> jval m ''peerId'' = JStr (s_id (session_of st s)) \<and> jval n ''peerId'' = JStr name
      \<and> jval m ''id'' = JStr (p_host_request q) \<and> jval n ''id'' = JStr (p_client_request q)"
    "offers st1 = offers st" "pairs st1 = tdel key (pairs st)"
proof -
  have asked: "frames_out c c1 = [pairing_frame (e_fresh ce) (ConfirmPairing key)]" "peer.ready c1"
    using peer_asks [OF ready(1,3) _ c1] by simp_all
  have st1: "st1 = relay_step L e (TextFrame (p_client q) (pairing_frame (e_fresh ce) (ConfirmPairing key))) st"
    using st1 asked assms(3) by (simp only: list.sel)
  have here: "RelayTags.admitted (now e) st (p_client q)" "active (now e) st (p_host q)"
    "target (now e) st (p_client q) (s_id (session_of st (p_host q))) = Some (p_host q)" using assms(1,3,4,7-9) by simp_all
  note st1' = confirm_answered [OF here(1) assms(2,6) here(2,3) st1, unfolded assms(3,4)]
  show "\<exists>m n. news st st1 = [Send h m, Send s n] \<and> told p p1 = [m] \<and> told c1 c2 = [n]
      \<and> jval m ''status'' = jtext ''paired'' \<and> jval n ''status'' = jtext ''paired''
      \<and> jval m ''peerId'' = JStr (s_id (session_of st s)) \<and> jval n ''peerId'' = JStr name
      \<and> jval m ''id'' = JStr (p_host_request q) \<and> jval n ''id'' = JStr (p_client_request q)"
    using peer_hears [OF ready(2) _ p1] peer_hears [OF asked(2) _ c2] assms(5,8)
    by (simp add: frames_for_reads [OF st1'(1)] st1'(1) List.map_filter_simps pairing_event_reads)
  show "offers st1 = offers st" "pairs st1 = tdel key (pairs st)" by (fact st1')+
qed

text \<open>
  C7: Two peers pair by a code: when a host asks its relay for a code, the person carries code and
  name to another device of the same account and service, which claims it and then
  confirms, each side is told at every step what the relay has sent it: the host its code, both
  that the code is claimed and by whom, and after the confirmation both that they are
  paired, each with the name of the other and its own request; nobody else is told anything,
  the code is used up and neither takes part in a pairing any more. Assumed: both are registered
  throughout, take part in no other pairing, have an attempt left, and keep the time limits of
  60 seconds for the code and 15 for the confirmation.
\<close>

theorem code_pairs_peers:
  assumes "relay_reach L st" and "RelayTags.admitted (now e1) st h" and "RelayTags.admitted (now e2) st s"
    and "RelayTags.admitted (now e3) st s" and "target (now e2) st s name = Some h" and "target (now e3) st s name = Some h"
    and "s_descriptor (session_of st s) = fmempty" and "pairing_load st h = 0" and "pairing_load st s = 0"
    and "attempt_left (now e1) st h" and "attempt_left (now e2) st s" and "length (random e1) = 32"
    and "now e2 < now e1 + 60000" and "now e3 < now e1 + 60000" and "now e3 < now e2 + 15000"
    and "peer.ready hp" and "peer.ready c" and "identifier_ok (e_fresh he)" and "identifier_ok (e_fresh ce)"
    and "\<And>m. e_relay_takes he m \<and> e_relay_takes ce m \<and> e_relay_takes ce' m"
    and "hp1 = peer_step L he (CallPairing CreateOffer) hp"
    and "st1 = relay_step L e1 (TextFrame h (hd (frames_out hp hp1))) st"
    and "hp2 = peer_step L he2 (RelayMessage (hd (frames_for h st st1))) hp1"
    and "offered = hd (told hp1 hp2)"
    and "c1 = peer_step L ce (CallPairing (ClaimOffer (to_string (jval offered ''code'')) (to_string (jval offered ''peerId'')))) c"
    and "st2 = relay_step L e2 (TextFrame s (hd (frames_out c c1))) st1"
    and "hp3 = peer_step L he3 (RelayMessage (hd (frames_for h st1 st2))) hp2"
    and "c2 = peer_step L ce2 (RelayMessage (hd (frames_for s st1 st2))) c1"
    and "c3 = peer_step L ce' (CallPairing (ConfirmPairing (to_string (jval (hd (told c1 c2)) ''pairingId'')))) c2"
    and "st3 = relay_step L e3 (TextFrame s (hd (frames_out c2 c3))) st2"
    and "hp4 = peer_step L he4 (RelayMessage (hd (frames_for h st2 st3))) hp3"
    and "c4 = peer_step L ce4 (RelayMessage (hd (frames_for s st2 st3))) c3"
  shows "news st st1 = [Send h offered] \<and> told hp1 hp2 = [offered] \<and> jval offered ''peerId'' = JStr name
    \<and> (\<exists>m n. news st1 st2 = [Send h m, Send s n] \<and> told hp2 hp3 = [m] \<and> told c1 c2 = [n]
         \<and> jval m ''peerId'' = JStr (s_id (session_of st s)) \<and> jval n ''peerId'' = JStr name)
    \<and> (\<exists>m n. news st2 st3 = [Send h m, Send s n] \<and> told hp3 hp4 = [m] \<and> told c3 c4 = [n]
         \<and> jval m ''status'' = jtext ''paired'' \<and> jval n ''status'' = jtext ''paired''
         \<and> jval m ''peerId'' = JStr (s_id (session_of st s)) \<and> jval n ''peerId'' = JStr name
         \<and> jval m ''id'' = JStr (e_fresh he) \<and> jval n ''id'' = JStr (e_fresh ce))
    \<and> pairing_load st3 h = 0 \<and> pairing_load st3 s = 0"
proof -
  note inv = reach_inv [OF assms(1)]
  have takes: "\<And>m. e_relay_takes he m" "\<And>m. e_relay_takes ce m" "\<And>m. e_relay_takes ce' m" using assms(20) by simp_all
  note host2 = target_facts [OF inv assms(5)] and host3 = target_facts [OF inv assms(6)]
  have keys: "has_key (sessions st) h" "has_key (sessions st) s" using assms(2,3) by (simp_all add: RelayTags.admitted_def active_def)
  have host: "s_descriptor (session_of st h) \<noteq> fmempty" using host2(3) by (simp add: RelayInvariant.hosting_def)
  define x where "x = min (now e1 + 60000) (expires_at (s_principal (session_of st h)))"
  have in_time: "now e2 < x" "now e3 < x" using host2(2) host3(2) assms(13,14) by (simp_all add: x_def active_def live_def)
  let ?code = "from_latin1 (to_hex (random e1))"
  let ?off = "\<lparr>o_host = h, o_request = e_fresh he, o_expires = x\<rparr>"
  let ?p = "\<lparr>p_host = h, p_client = s, p_host_request = e_fresh he, p_client_request = e_fresh ce, p_expires = min (now e2 + 15000) x\<rparr>"
  note st1 = code_offered [OF assms(2,18,10) host assms(8,16) takes(1) x_def refl assms(21-23)]
  note people1 = same_peopleD [OF same_people_counted [OF keys(1) st1(6)]]
  have offered: "to_string (jval offered ''code'') = ?code" "to_string (jval offered ''peerId'') = name" "jval offered ''peerId'' = JStr name"
    "news st st1 = [Send h offered]" "told hp1 hp2 = [offered]"
    using host2(4) st1(1,2) by (simp_all add: assms(24) pairing_event_reads)
  have "session_of st1 s = session_of st s" using host2(1) session_of_cong [OF st1(6)] by (simp add: counted_def)
  then have before: "attempt_left (now e2) st1 s" "pairing_load st1 s = 0"
    using assms(9,11) host2(1) relay_inv_tables(3) [OF inv] by (auto simp: attempt_left_def pairing_load_zero_iff st1(4,5) set_tput)
  have code: "length ?code = 64" using assms(12) by (simp add: from_latin1_def)
  have found: "tget (offers st1) (sha256 L (to_latin1 ?code)) = Some ?off" by (simp add: st1(4))
  have there: "RelayTags.admitted (now e2) st1 s" "s_descriptor (session_of st1 s) = fmempty" "active (now e2) st1 h"
    "s_id (session_of st1 h) = name" "target (now e2) st1 s name = Some h"
    using assms(3,5,7) host2(2,4) by (simp_all add: people1)
  note claim = code_claimed [OF there(1) assms(19) before(1) there(2) before(2) found code _ there(3-5) _ host2(1) refl assms(17)
      st1(3) takes(2) assms(25) [unfolded offered(1,2)] assms(26-28)]
  have st2: "offers st2 = tdel (sha256 L (to_hex (random e1))) (offers st1)" "pairs st2 = tput (fresh e2) ?p (pairs st1)"
    "sessions st2 = sessions (counted (now e2) s st1)" "peer.ready hp3" "peer.ready c2"
    using claim(2-6) in_time(1) by (simp_all del: to_from_latin1 add: to_from_latin1)
  obtain m n where mn: "news st1 st2 = [Send h m, Send s n]" "told hp2 hp3 = [m]" "told c1 c2 = [n]"
    "jval m ''peerId'' = JStr (s_id (session_of st s))" "jval n ''peerId'' = JStr name" "jval n ''pairingId'' = JStr (fresh e2)"
    using claim(1) in_time(1) by (auto simp: people1)
  have "has_key (sessions st1) s" using keys(2) by (simp add: people1)
  note people2 = same_peopleD [OF same_people_counted [OF this st2(3)]]
  have there2: "RelayTags.admitted (now e3) st2 s" "tget (pairs st2) (fresh e2) = Some ?p" "active (now e3) st2 h"
    "s_id (session_of st2 h) = name" "target (now e3) st2 s name = Some h"
    using assms(4,6) host3(2) host2(4) by (simp_all add: people1 people2 st2(2))
  have c3: "c3 = peer_step L ce' (CallPairing (ConfirmPairing (fresh e2))) c2" using assms(29) mn(3,6) by simp
  note confirm = code_confirmed [OF there2(1,2) _ _ host2(1) _ there2(3-5) st2(5,4) takes(3) c3 assms(30-32)]
  have idle: "pairing_load st3 h = 0" "pairing_load st3 s = 0"
    using confirm(2,3) in_time assms(15) assms(8,9)
    by (auto intro!: pairing_used_up [OF relay_inv_tables(3,4) [OF inv]] simp: st2(1,2) st1(4,5))
  show ?thesis using offered(3-5) mn confirm(1) in_time(2) assms(15) idle by (auto simp: people1 people2)
qed

section \<open>Example\<close>

definition meeting_env :: "string \<Rightarrow> peer_env" where
  "meeting_env name = demo_peer_env\<lparr>e_fresh := qs name\<rparr>"

definition meeting_peer :: peer where
  "meeting_peer = (new_peer demo_peer_options)\<lparr>running := True, ready := True\<rparr>"

text \<open>Example: the host and the client that are registered in \<open>demo_ready\<close> pair within three events of the relay.\<close>

theorem code_pairs_peers_witness:
  "\<exists>st2 st3 m n. news st2 st3 = [Send 1 m, Send 2 n] \<and> jval m ''status'' = jtext ''paired'' \<and> jval n ''status'' = jtext ''paired''
     \<and> jval m ''peerId'' = jtext ''client'' \<and> jval n ''peerId'' = jtext ''host'' \<and> pairing_load st3 1 = 0 \<and> pairing_load st3 2 = 0"
proof -
  let ?st = demo_ready
  have "let st = demo_ready in RelayTags.admitted 1007 st 1 \<and> RelayTags.admitted 1008 st 2 \<and> RelayTags.admitted 1009 st 2
      \<and> target 1008 st 2 (qs ''host'') = Some 1 \<and> target 1009 st 2 (qs ''host'') = Some 1
      \<and> s_descriptor (session_of st 2) = fmempty \<and> pairing_load st 1 = 0 \<and> pairing_load st 2 = 0
      \<and> attempt_left 1007 st 1 \<and> attempt_left 1008 st 2 \<and> s_id (session_of st 2) = qs ''client''" by code_simp
  then have relay: "RelayTags.admitted (now (demo_env 1007)) ?st 1" "RelayTags.admitted (now (demo_env 1008)) ?st 2"
    "RelayTags.admitted (now (demo_env 1009)) ?st 2" "target (now (demo_env 1008)) ?st 2 (qs ''host'') = Some 1"
    "target (now (demo_env 1009)) ?st 2 (qs ''host'') = Some 1" "s_descriptor (session_of ?st 2) = fmempty"
    "pairing_load ?st 1 = 0" "pairing_load ?st 2 = 0" "attempt_left (now (demo_env 1007)) ?st 1" "attempt_left (now (demo_env 1008)) ?st 2"
    "length (random (demo_env 1007)) = 32" "now (demo_env 1008) < now (demo_env 1007) + 60000"
    "now (demo_env 1009) < now (demo_env 1007) + 60000" "now (demo_env 1009) < now (demo_env 1008) + 15000"
    and client: "s_id (session_of ?st 2) = qs ''client''" by (simp_all add: demo_env_def Let_def)
  have "identifier_ok (qs ''o1'') \<and> identifier_ok (qs ''c1'')" by code_simp
  then have peers: "peer.ready meeting_peer" "peer.ready meeting_peer" "identifier_ok (e_fresh (meeting_env ''o1''))"
    "identifier_ok (e_fresh (meeting_env ''c1''))"
    "\<And>m. e_relay_takes (meeting_env ''o1'') m \<and> e_relay_takes (meeting_env ''c1'') m \<and> e_relay_takes (meeting_env ''d1'') m"
    by (simp_all add: meeting_peer_def meeting_env_def demo_peer_env_def new_peer_def)
  show ?thesis
    using code_pairs_peers [OF demo_ready_reach relay peers refl refl refl refl refl refl refl refl refl refl refl refl] client by fastforce
qed

end
