(* ===== verification/Transport.thy ===== *)
theory Transport
  imports Platform
begin

text \<open>
  \<open>src/NetworkTransport.cpp\<close>: the socket the rest of the program talks to, over the streams and
  the WebSocket protocol of iiNetwork, and the server that accepts such sockets. One value of
  \<open>websock\<close> is one connection (one \<open>WebSocket::Private\<close>). A signal runs the slots of the
  application at once, in the middle of the operation: every operation takes that reaction as
  the argument \<open>r\<close>. The protocol object of a connection is a value of an unknown type \<open>'s\<close>.
\<close>

section \<open>State\<close>

datatype socket_state = SockClosed | SockConnecting | SockConnected | SockClosing | SockFailed

datatype session_event = UpgradeRequest | UpgradeDone | TextEvent bytes | BinaryEvent bytes | ClosedEvent | OtherEvent

datatype ws_signal = SigConnected | SigDisconnected | SigError | SigText qstring | SigBinary bytes

type_synonym endpoint_at = "address \<times> int"

datatype wire_effect =
    Signal ws_signal
  | DialTo endpoint_at
  | DetachStream
  | CloseStream bool \<comment> \<open>gracefully\<close>
  | WriteStream bytes

datatype ws_alarm = NoAlarm | ResolutionAlarm | HandshakeAlarm

datatype ws_task = OpenTask | RedialTask

record 's websock =
  w_owner :: bool
  w_stream :: bool
  w_session :: "'s option"
  w_deadline :: "msecs option" \<comment> \<open>when the one-shot timer fires, if it runs\<close>
  w_alarm :: ws_alarm \<comment> \<open>the slot of that timer\<close>
  w_error :: qstring
  w_url :: qurl
  w_notified :: bool
  w_transport_closing :: bool
  w_state :: socket_state
  w_output :: bytes
  w_addresses :: "endpoint_at list"
  w_next :: nat
  w_generation :: nat
  w_tasks :: "ws_task list"
  w_resolving :: bool
  w_log :: "wire_effect list"

text \<open>The protocol object and the URL accessors. Errors are texts.\<close>

record ws_limits =
  message_bytes :: int
  buffered_bytes :: int
  output_bytes :: int

definition wire_limits :: ws_limits where
  "wire_limits = \<lparr>message_bytes = 1024 * 1024, buffered_bytes = 2 * 1024 * 1024, output_bytes = 4 * 1024 * 1024\<rparr>"

record 's sessions =
  ss_client :: "qstring \<Rightarrow> qstring \<Rightarrow> ws_limits \<Rightarrow> qstring + 's" \<comment> \<open>of a host and a target\<close>
  ss_server :: "ws_limits \<Rightarrow> qstring + 's"
  ss_receive :: "bytes \<Rightarrow> 's \<Rightarrow> (qstring + session_event list) \<times> 's"
  ss_accept :: "'s \<Rightarrow> qstring option \<times> 's"
  ss_take :: "'s \<Rightarrow> bytes \<times> 's" \<comment> \<open>\<open>take_output\<close>\<close>
  ss_close :: "int \<Rightarrow> qstring \<Rightarrow> 's \<Rightarrow> qstring option \<times> 's"
  ss_text :: "bytes \<Rightarrow> 's \<Rightarrow> qstring option \<times> 's"
  ss_binary :: "bytes \<Rightarrow> 's \<Rightarrow> qstring option \<times> 's"
  ss_ping :: "'s \<Rightarrow> qstring option \<times> 's"
  ss_authority :: "qurl \<Rightarrow> qstring"
  ss_path :: "qurl \<Rightarrow> qstring"
  ss_query :: "qurl \<Rightarrow> qstring"

text \<open>
  What one event gets from outside. The stream answers may depend on what was done so far;
  \<open>y_plan\<close> is the application: the calls its slots make for a signal after that history.
\<close>

datatype app_call =
    AppClose int qstring
  | AppAbort
  | AppText qstring
  | AppBinary bytes
  | AppPing
  | AppDestroy \<comment> \<open>the \<open>WebSocket\<close> is deleted\<close>

record ws_env =
  y_now :: msecs
  y_connected :: "wire_effect list \<Rightarrow> bool"
  y_pending :: "wire_effect list \<Rightarrow> nat"
  y_writes :: "wire_effect list \<Rightarrow> bytes \<Rightarrow> bool"
  y_read :: bytes
  y_tls :: "qstring option" \<comment> \<open>error of making the TLS context\<close>
  y_connect :: "endpoint_at \<Rightarrow> qstring option" \<comment> \<open>error of starting to connect\<close>
  y_admitted :: bool \<comment> \<open>the resolver takes the job\<close>
  y_plan :: "wire_effect list \<Rightarrow> ws_signal \<Rightarrow> app_call list"
  y_nest :: nat \<comment> \<open>how deep slots nest\<close>
  y_depth :: nat \<comment> \<open>how deep reads nest\<close>

type_synonym 's reaction = "ws_signal \<Rightarrow> 's websock \<Rightarrow> 's websock"

definition ended :: "'s websock \<Rightarrow> bool" where
  "ended st \<longleftrightarrow> w_state st = SockClosed \<or> w_state st = SockFailed"

definition note_wire :: "wire_effect \<Rightarrow> 's websock \<Rightarrow> 's websock" where
  "note_wire x st = st\<lparr>w_log := w_log st @ [x]\<rparr>"

definition emit_signal :: "'s reaction \<Rightarrow> ws_signal \<Rightarrow> 's websock \<Rightarrow> 's websock" where
  "emit_signal r x st = r x (note_wire (Signal x) st)"

section \<open>Ending, writing and reading\<close>

definition detach_close :: "'s websock \<Rightarrow> 's websock" where
  "detach_close st = (if w_stream st then note_wire (CloseStream False) (note_wire DetachStream st) else st)"

definition ws_finish :: "'s reaction \<Rightarrow> qstring \<Rightarrow> 's websock \<Rightarrow> 's websock" where
  "ws_finish r msg st =
     (if ended st then st
      else
        let st = detach_close (st\<lparr>w_error := msg, w_state := (if msg = [] then SockClosed else SockFailed),
              w_generation := w_generation st + 1, w_deadline := None\<rparr>);
            st = st\<lparr>w_session := None, w_output := []\<rparr>;
            st = (if w_owner st \<and> w_error st \<noteq> [] then emit_signal r SigError st else st)
        in if w_owner st \<and> \<not> w_notified st then emit_signal r SigDisconnected (st\<lparr>w_notified := True\<rparr>) else st)"

definition capacity_text :: qstring where
  "capacity_text = qs ''WebSocket output capacity exceeded''"

definition ws_flush :: "'s sessions \<Rightarrow> ws_env \<Rightarrow> 's reaction \<Rightarrow> 's websock \<Rightarrow> 's websock" where
  "ws_flush S E r st =
     (case w_session st of
        None \<Rightarrow> st
      | Some s \<Rightarrow>
          if \<not> w_stream st \<or> \<not> y_connected E (w_log st) then st
          else case ss_take S s of (out, s) \<Rightarrow>
            let st = st\<lparr>w_session := Some s, w_output := w_output st @ out\<rparr> in
            if int (length (w_output st)) + int (y_pending E (w_log st)) > 5 * 1024 * 1024 then ws_finish r capacity_text st
            else
              let st = (if w_output st \<noteq> [] \<and> y_writes E (w_log st) (w_output st)
                    then note_wire (WriteStream (w_output st)) st\<lparr>w_output := []\<rparr> else st)
              in if w_state st = SockClosing \<and> w_output st = [] \<and> \<not> w_transport_closing st
                 then note_wire (CloseStream True) (st\<lparr>w_transport_closing := True\<rparr>) else st)"

definition ws_opened :: "'s reaction \<Rightarrow> 's websock \<Rightarrow> 's websock" where
  "ws_opened r st =
     (if \<not> w_owner st \<or> w_state st \<noteq> SockConnecting then st
      else emit_signal r SigConnected (st\<lparr>w_state := SockConnected, w_deadline := None\<rparr>))"

text \<open>
  The loop over what the protocol object made of the bytes; \<open>again\<close> is the nested
  \<open>receive({})\<close> after an upgrade. The flag says that the loop ran to its end.
\<close>

fun event_loop :: "lib \<Rightarrow> 's sessions \<Rightarrow> ws_env \<Rightarrow> 's reaction \<Rightarrow> ('s websock \<Rightarrow> 's websock) \<Rightarrow> session_event list
    \<Rightarrow> 's websock \<Rightarrow> bool \<times> 's websock" where
  "event_loop L S E r again [] st = (True, st)"
| "event_loop L S E r again (ev # evs) st =
     (case w_session st of
        None \<Rightarrow> (False, st)
      | Some s \<Rightarrow>
          if \<not> w_owner st then (False, st)
          else case ev of
              UpgradeRequest \<Rightarrow>
                (case ss_accept S s of
                   (Some e, s) \<Rightarrow> (False, ws_finish r e (st\<lparr>w_session := Some s\<rparr>))
                 | (None, s) \<Rightarrow>
                     let st = ws_opened r (ws_flush S E r (st\<lparr>w_session := Some s\<rparr>));
                         st = (if w_session st \<noteq> None then again st else st)
                     in event_loop L S E r again evs st)
            | UpgradeDone \<Rightarrow> event_loop L S E r again evs (ws_opened r st)
            | TextEvent b \<Rightarrow> event_loop L S E r again evs (emit_signal r (SigText (from_utf8 L b)) st)
            | BinaryEvent b \<Rightarrow> event_loop L S E r again evs (emit_signal r (SigBinary b) st)
            | ClosedEvent \<Rightarrow>
                let st = ws_flush S E r (st\<lparr>w_state := SockClosing\<rparr>);
                    st = (if w_owner st then st\<lparr>w_deadline := Some (y_now E + 1000)\<rparr> else st)
                in event_loop L S E r again evs st
            | OtherEvent \<Rightarrow> event_loop L S E r again evs st)"

primrec ws_receive :: "nat \<Rightarrow> lib \<Rightarrow> 's sessions \<Rightarrow> ws_env \<Rightarrow> 's reaction \<Rightarrow> bytes \<Rightarrow> 's websock \<Rightarrow> 's websock" where
  "ws_receive 0 L S E r b st = st"
| "ws_receive (Suc n) L S E r b st =
     (case w_session st of
        None \<Rightarrow> st
      | Some s \<Rightarrow>
          if \<not> w_owner st then st
          else case ss_receive S b s of
              (Inl e, s) \<Rightarrow> ws_finish r e (st\<lparr>w_session := Some s\<rparr>)
            | (Inr evs, s) \<Rightarrow>
                (case event_loop L S E r (ws_receive n L S E r []) evs (st\<lparr>w_session := Some s\<rparr>) of
                   (whole, st) \<Rightarrow> if whole then ws_flush S E r st else st))"

section \<open>Dialling\<close>

definition ws_attach :: "'s sessions \<Rightarrow> ws_env \<Rightarrow> 's reaction \<Rightarrow> 's websock \<Rightarrow> 's websock" where
  "ws_attach S E r st =
     (let remaining = (case w_deadline st of Some d \<Rightarrow> d - y_now E | None \<Rightarrow> 5000);
          st = st\<lparr>w_alarm := HandshakeAlarm, w_deadline := Some (y_now E + max 1 remaining)\<rparr>
      in if y_connected E (w_log st) then ws_flush S E r st else st)"

definition ws_retry :: "'s reaction \<Rightarrow> qstring \<Rightarrow> 's websock \<Rightarrow> 's websock" where
  "ws_retry r msg st =
     (if w_state st \<noteq> SockConnecting \<or> w_next st = length (w_addresses st) then ws_finish r msg st
      else (detach_close (st\<lparr>w_generation := w_generation st + 1\<rparr>))\<lparr>w_tasks := w_tasks st @ [RedialTask]\<rparr>)"

definition request_target :: "'s sessions \<Rightarrow> qurl \<Rightarrow> qstring" where
  "request_target S url = (if ss_path S url = [] then qs ''/'' else ss_path S url)
     @ (if url_has_query url then qs ''?'' @ ss_query S url else [])"

definition ws_dial_next :: "'s sessions \<Rightarrow> ws_env \<Rightarrow> 's reaction \<Rightarrow> 's websock \<Rightarrow> 's websock" where
  "ws_dial_next S E r st =
     (let st = (detach_close (st\<lparr>w_generation := w_generation st + 1\<rparr>))\<lparr>w_stream := False, w_session := None, w_output := []\<rparr> in
      if w_next st = length (w_addresses st) then ws_finish r (qs ''No reachable WebSocket endpoint'') st
      else
        let endpoint = w_addresses st ! w_next st; st = st\<lparr>w_next := w_next st + 1\<rparr>; url = w_url st in
        case ss_client S (ss_authority S url) (request_target S url) wire_limits of
          Inl e \<Rightarrow> ws_finish r e st
        | Inr s \<Rightarrow>
            let st = st\<lparr>w_session := Some s\<rparr> in
            case if url_scheme url = qs ''wss'' then y_tls E else None of
              Some e \<Rightarrow> ws_finish r e st
            | None \<Rightarrow>
                let st = note_wire (DialTo endpoint) (st\<lparr>w_stream := True\<rparr>) in
                (case y_connect E endpoint of Some e \<Rightarrow> ws_retry r e st | None \<Rightarrow> ws_attach S E r st))"

definition ws_dial :: "'s sessions \<Rightarrow> ws_env \<Rightarrow> 's reaction \<Rightarrow> endpoint_at list \<Rightarrow> 's websock \<Rightarrow> 's websock" where
  "ws_dial S E r endpoints st = ws_dial_next S E r (st\<lparr>w_addresses := endpoints, w_next := 0\<rparr>)"

section \<open>Opening\<close>

definition new_websock :: "qurl \<Rightarrow> 's websock" where
  "new_websock url = \<lparr>w_owner = True, w_stream = False, w_session = None, w_deadline = None, w_alarm = NoAlarm,
     w_error = [], w_url = url, w_notified = False, w_transport_closing = False, w_state = SockClosed,
     w_output = [], w_addresses = [], w_next = 0, w_generation = 0, w_tasks = [], w_resolving = False, w_log = []\<rparr>"

text \<open>The connection that \<open>open\<close> makes, after the one before it was aborted.\<close>

definition ws_open :: "ws_env \<Rightarrow> qurl \<Rightarrow> 's websock" where
  "ws_open E url = (new_websock url)\<lparr>w_state := SockConnecting, w_deadline := Some (y_now E + 5000),
     w_alarm := ResolutionAlarm, w_tasks := [OpenTask]\<rparr>"

definition url_usable :: "qurl \<Rightarrow> bool" where
  "url_usable url \<longleftrightarrow> \<not> (\<not> url_valid url \<or> (url_scheme url \<noteq> qs ''ws'' \<and> url_scheme url \<noteq> qs ''wss'')
     \<or> url_host url = [] \<or> url_user_info url \<noteq> [] \<or> url_has_fragment url)"

definition dial_port :: "qurl \<Rightarrow> int" where
  "dial_port url = (if url_port url = -1 then (if url_scheme url = qs ''wss'' then 443 else 80) else url_port url)"

definition ws_start :: "lib \<Rightarrow> 's sessions \<Rightarrow> ws_env \<Rightarrow> 's reaction \<Rightarrow> 's websock \<Rightarrow> 's websock" where
  "ws_start L S E r st =
     (let url = w_url st; port = dial_port url in
      if \<not> w_owner st \<or> w_state st \<noteq> SockConnecting then st
      else if \<not> url_usable url then ws_finish r (qs ''Invalid WebSocket URL'') st
      else if port < 1 \<or> port > 65535 then ws_finish r (qs ''Invalid WebSocket port'') st
      else case parse_address L (url_host url) of
          Some a \<Rightarrow> ws_dial S E r [(a, port)] st
        | None \<Rightarrow>
            if \<not> y_admitted E then ws_finish r (qs ''WebSocket resolver is busy'') st
            else st\<lparr>w_resolving := True\<rparr>)"

definition ws_resolved :: "'s sessions \<Rightarrow> ws_env \<Rightarrow> 's reaction \<Rightarrow> endpoint_at list option \<Rightarrow> 's websock \<Rightarrow> 's websock" where
  "ws_resolved S E r endpoints st =
     (if \<not> w_resolving st then st
      else
        let st = st\<lparr>w_resolving := False\<rparr> in
        if \<not> w_owner st \<or> w_state st \<noteq> SockConnecting then st
        else case endpoints of
            Some (a # as) \<Rightarrow> ws_dial S E r (a # as) st
          | _ \<Rightarrow> ws_finish r (qs ''Cannot resolve WebSocket endpoint'') st)"

definition ws_redial :: "'s sessions \<Rightarrow> ws_env \<Rightarrow> 's reaction \<Rightarrow> 's websock \<Rightarrow> 's websock" where
  "ws_redial S E r st = (if w_owner st \<and> w_state st = SockConnecting then ws_dial_next S E r st else st)"

definition ws_run_task :: "lib \<Rightarrow> 's sessions \<Rightarrow> ws_env \<Rightarrow> 's reaction \<Rightarrow> 's websock \<Rightarrow> 's websock" where
  "ws_run_task L S E r st =
     (case w_tasks st of
        [] \<Rightarrow> st
      | OpenTask # ts \<Rightarrow> ws_start L S E r (st\<lparr>w_tasks := ts\<rparr>)
      | RedialTask # ts \<Rightarrow> ws_redial S E r (st\<lparr>w_tasks := ts\<rparr>))"

section \<open>The methods\<close>

definition bytes_to_write :: "ws_env \<Rightarrow> 's websock \<Rightarrow> int" where
  "bytes_to_write E st = int (length (w_output st)) + (if w_stream st then int (y_pending E (w_log st)) else 0)"

definition ws_close :: "'s sessions \<Rightarrow> ws_env \<Rightarrow> 's reaction \<Rightarrow> int \<Rightarrow> qstring \<Rightarrow> 's websock \<Rightarrow> 's websock" where
  "ws_close S E r code reason st =
     (case w_session st of
        None \<Rightarrow> ws_finish r [] st
      | Some s \<Rightarrow>
          if w_state st \<noteq> SockConnected then ws_finish r [] st
          else case ss_close S code reason s of
              (Some e, s) \<Rightarrow> ws_finish r e (st\<lparr>w_session := Some s\<rparr>)
            | (None, s) \<Rightarrow>
                (ws_flush S E r (st\<lparr>w_session := Some s, w_state := SockClosing\<rparr>))\<lparr>w_deadline := Some (y_now E + 1000)\<rparr>)"

text \<open>The common part of the two ways to send; \<open>put\<close> hands the bytes to the protocol object.\<close>

definition ws_send :: "'s sessions \<Rightarrow> ws_env \<Rightarrow> 's reaction \<Rightarrow> (bytes \<Rightarrow> 's \<Rightarrow> qstring option \<times> 's) \<Rightarrow> bytes
    \<Rightarrow> 's websock \<Rightarrow> int \<times> 's websock" where
  "ws_send S E r put b st =
     (case w_session st of
        None \<Rightarrow> (-1, st)
      | Some s \<Rightarrow>
          if w_state st \<noteq> SockConnected then (-1, st)
          else if bytes_to_write E st + int (length b) > 4 * 1024 * 1024 then (-1, ws_finish r capacity_text st)
          else case put b s of
              (Some e, s) \<Rightarrow> (-1, ws_finish r e (st\<lparr>w_session := Some s\<rparr>))
            | (None, s) \<Rightarrow> (int (length b), ws_flush S E r (st\<lparr>w_session := Some s\<rparr>)))"

definition ws_send_text :: "lib \<Rightarrow> 's sessions \<Rightarrow> ws_env \<Rightarrow> 's reaction \<Rightarrow> qstring \<Rightarrow> 's websock \<Rightarrow> int \<times> 's websock" where
  "ws_send_text L S E r t = ws_send S E r (ss_text S) (utf8 L t)"

definition ws_send_binary :: "'s sessions \<Rightarrow> ws_env \<Rightarrow> 's reaction \<Rightarrow> bytes \<Rightarrow> 's websock \<Rightarrow> int \<times> 's websock" where
  "ws_send_binary S E r = ws_send S E r (ss_binary S)"

definition ws_ping :: "'s sessions \<Rightarrow> ws_env \<Rightarrow> 's reaction \<Rightarrow> 's websock \<Rightarrow> 's websock" where
  "ws_ping S E r st =
     (case w_session st of
        None \<Rightarrow> st
      | Some s \<Rightarrow>
          if w_state st \<noteq> SockConnected then st
          else case ss_ping S s of
              (Some e, s) \<Rightarrow> ws_finish r e (st\<lparr>w_session := Some s\<rparr>)
            | (None, s) \<Rightarrow> ws_flush S E r (st\<lparr>w_session := Some s\<rparr>))"

definition ws_destroy :: "'s reaction \<Rightarrow> 's websock \<Rightarrow> 's websock" where
  "ws_destroy r st = ws_finish r [] (st\<lparr>w_owner := False\<rparr>)"

definition do_call :: "lib \<Rightarrow> 's sessions \<Rightarrow> ws_env \<Rightarrow> 's reaction \<Rightarrow> app_call \<Rightarrow> 's websock \<Rightarrow> 's websock" where
  "do_call L S E r c st =
     (case c of
        AppClose code reason \<Rightarrow> ws_close S E r code reason st
      | AppAbort \<Rightarrow> ws_finish r [] st
      | AppText t \<Rightarrow> snd (ws_send_text L S E r t st)
      | AppBinary b \<Rightarrow> snd (ws_send_binary S E r b st)
      | AppPing \<Rightarrow> ws_ping S E r st
      | AppDestroy \<Rightarrow> ws_destroy r st)"

text \<open>The slots of the application, with signals in the middle of their own calls.\<close>

primrec app_slot :: "nat \<Rightarrow> lib \<Rightarrow> 's sessions \<Rightarrow> ws_env \<Rightarrow> 's reaction" where
  "app_slot 0 L S E = (\<lambda>x st. st)"
| "app_slot (Suc n) L S E = (\<lambda>x st. fold (do_call L S E (app_slot n L S E)) (y_plan E (w_log st) x) st)"

section \<open>Events\<close>

datatype ws_event =
    RunTask | Resolved "endpoint_at list option"
  | StreamReady nat \<comment> \<open>\<open>connected\<close> or \<open>drained\<close>, with the generation it was attached in\<close>
  | StreamReadable nat
  | StreamFailed nat qstring
  | StreamGone nat \<comment> \<open>\<open>disconnected\<close> or \<open>read_closed\<close>\<close>
  | DeadlineFires
  | AppCalls app_call

definition deadline_fires :: "ws_env \<Rightarrow> 's reaction \<Rightarrow> 's websock \<Rightarrow> 's websock" where
  "deadline_fires E r st =
     (case w_deadline st of
        None \<Rightarrow> st
      | Some d \<Rightarrow>
          if y_now E < d then st
          else
            let st = st\<lparr>w_deadline := None\<rparr> in
            case w_alarm st of
              NoAlarm \<Rightarrow> st
            | ResolutionAlarm \<Rightarrow> ws_finish r (qs ''WebSocket resolution timeout'') st
            | HandshakeAlarm \<Rightarrow>
                ws_finish r (if w_state st = SockClosing then [] else qs ''WebSocket handshake timeout'') st)"

definition ws_step :: "lib \<Rightarrow> 's sessions \<Rightarrow> ws_env \<Rightarrow> ws_event \<Rightarrow> 's websock \<Rightarrow> 's websock" where
  "ws_step L S E ev st =
     (let r = app_slot (y_nest E) L S E in
      case ev of
        RunTask \<Rightarrow> ws_run_task L S E r st
      | Resolved endpoints \<Rightarrow> ws_resolved S E r endpoints st
      | StreamReady g \<Rightarrow> if w_generation st = g then ws_flush S E r st else st
      | StreamReadable g \<Rightarrow> if w_generation st = g then ws_receive (y_depth E) L S E r (y_read E) st else st
      | StreamFailed g e \<Rightarrow> if w_generation st = g then ws_retry r e st else st
      | StreamGone g \<Rightarrow>
          if w_generation st = g then
            (if w_state st = SockConnecting
             then ws_retry r (qs ''WebSocket endpoint disconnected during handshake'') st else ws_finish r [] st)
          else st
      | DeadlineFires \<Rightarrow> deadline_fires E r st
      | AppCalls c \<Rightarrow> do_call L S E r c st)"

text \<open>A connection that the server accepted, before it is upgraded.\<close>

definition ws_accepted :: "'s sessions \<Rightarrow> ws_env \<Rightarrow> 's \<Rightarrow> 's reaction \<Rightarrow> 's websock" where
  "ws_accepted S E s r =
     ws_attach S E r ((new_websock blank_url)\<lparr>w_state := SockConnecting, w_session := Some s, w_stream := True\<rparr>)"

end
