(* ===== verification/TransportProperties.thy ===== *)
theory TransportProperties
  imports Transport Jobs "HOL-Library.Sublist"
begin

text \<open>
  What a connection of \<open>src/NetworkTransport.cpp\<close> promises whatever the protocol object, the
  stream and the slots of the application do: its signals follow the life of one connection,
  it cannot stay half open without a running timer, its own buffer is bounded, and it dials the
  addresses it was given in order and each once.
\<close>

section \<open>The life of a connection as its signals show it\<close>

datatype ws_phase = WsWaiting | WsUp | WsBroken | WsOver

fun next_phase :: "ws_phase \<Rightarrow> ws_signal \<Rightarrow> ws_phase option" where
  "next_phase WsWaiting SigConnected = Some WsUp"
| "next_phase WsWaiting (SigText t) = Some WsWaiting"
| "next_phase WsWaiting (SigBinary b) = Some WsWaiting"
| "next_phase WsUp (SigText t) = Some WsUp"
| "next_phase WsUp (SigBinary b) = Some WsUp"
| "next_phase WsWaiting SigError = Some WsBroken"
| "next_phase WsUp SigError = Some WsBroken"
| "next_phase WsWaiting SigDisconnected = Some WsOver"
| "next_phase WsUp SigDisconnected = Some WsOver"
| "next_phase WsBroken SigDisconnected = Some WsOver"
| "next_phase _ _ = None"

fun path_of :: "ws_phase \<Rightarrow> ws_signal list \<Rightarrow> ws_phase option" where
  "path_of p [] = Some p"
| "path_of p (x # xs) = (case next_phase p x of None \<Rightarrow> None | Some q \<Rightarrow> path_of q xs)"

lemma path_of_append: "path_of p (xs @ ys) = (case path_of p xs of None \<Rightarrow> None | Some q \<Rightarrow> path_of q ys)"
  by (induction p xs rule: path_of.induct) (auto split: option.split)

fun signal_of :: "wire_effect \<Rightarrow> ws_signal option" where
  "signal_of (Signal x) = Some x"
| "signal_of _ = None"

fun dial_of :: "wire_effect \<Rightarrow> endpoint_at option" where
  "dial_of (DialTo a) = Some a"
| "dial_of _ = None"

definition signals :: "'s websock \<Rightarrow> ws_signal list" where
  "signals st = List.map_filter signal_of (w_log st)"

definition dials :: "'s websock \<Rightarrow> endpoint_at list" where
  "dials st = List.map_filter dial_of (w_log st)"

definition phase_of :: "'s websock \<Rightarrow> ws_phase option" where
  "phase_of st = path_of WsWaiting (signals st)"

section \<open>The invariant\<close>

definition dial_ok :: "'s websock \<Rightarrow> bool" where
  "dial_ok st \<longleftrightarrow> (w_tasks st = [OpenTask] \<and> \<not> w_resolving st \<and> w_addresses st = [] \<and> w_next st = 0
      \<or> w_tasks st = [] \<and> w_resolving st \<and> w_addresses st = [] \<and> w_next st = 0
      \<or> OpenTask \<notin> set (w_tasks st) \<and> \<not> w_resolving st)
     \<and> prefix (dials st) (w_addresses st)"

definition open_weak :: "'s websock \<Rightarrow> bool" where
  "open_weak st \<longleftrightarrow> \<not> ended st \<and> \<not> w_notified st \<and> dial_ok st \<and>
     (phase_of st = Some WsWaiting \<or> phase_of st = Some WsUp \<and> w_state st \<noteq> SockConnecting)"

definition open_ok :: "'s websock \<Rightarrow> bool" where
  "open_ok st \<longleftrightarrow> open_weak st \<and> w_next st \<le> length (w_addresses st) \<and> dials st = take (w_next st) (w_addresses st)"

definition ended_ok :: "'s websock \<Rightarrow> bool" where
  "ended_ok st \<longleftrightarrow> ended st \<and> w_session st = None \<and> w_output st = [] \<and> dial_ok st \<and> (w_owner st \<longrightarrow> w_notified st)
     \<and> (\<exists>p. phase_of st = Some p \<and> (w_notified st \<longleftrightarrow> p = WsOver))"

definition output_limit :: nat where
  "output_limit = 5 * 1024 * 1024"

definition base_ok :: "'s websock \<Rightarrow> bool" where
  "base_ok st \<longleftrightarrow> (open_ok st \<or> ended_ok st) \<and> length (w_output st) \<le> output_limit"

definition timed :: "'s websock \<Rightarrow> bool" where
  "timed st \<longleftrightarrow> (\<not> ended st \<longrightarrow> w_alarm st \<noteq> NoAlarm)
     \<and> (w_state st = SockConnecting \<or> w_state st = SockClosing \<longrightarrow> w_deadline st \<noteq> None)"

definition ws_ok :: "'s websock \<Rightarrow> bool" where
  "ws_ok st \<longleftrightarrow> base_ok st \<and> timed st"

text \<open>Reactions that keep it and can do nothing to a connection that has ended but delete it.\<close>

definition calm :: "'s reaction \<Rightarrow> bool" where
  "calm r \<longleftrightarrow> (\<forall>x st. ws_ok st \<longrightarrow> ws_ok (r x st))
     \<and> (\<forall>x st. ended st \<longrightarrow> w_session st = None \<longrightarrow> r x st = st \<or> r x st = st\<lparr>w_owner := False\<rparr>)"

lemma calm_keeps: "calm r \<Longrightarrow> ws_ok st \<Longrightarrow> ws_ok (r x st)"
  by (simp add: calm_def)

lemma calm_ended: "calm r \<Longrightarrow> ended st \<Longrightarrow> w_session st = None \<Longrightarrow> r x st = st \<or> r x st = st\<lparr>w_owner := False\<rparr>"
  by (simp add: calm_def)

lemma open_not_ended: "open_ok st \<Longrightarrow> \<not> ended st" "ended_ok st \<Longrightarrow> ended st"
  by (simp_all add: open_ok_def open_weak_def ended_ok_def)

lemma session_open: "base_ok st \<Longrightarrow> w_session st = Some s \<Longrightarrow> open_ok st"
  by (auto simp: base_ok_def ended_ok_def)

section \<open>Ending\<close>

lemma finish_ended [simp]: "ended st \<Longrightarrow> ws_finish r msg st = st"
  by (simp add: ws_finish_def)

lemma emit_ended:
  assumes "calm r" "ended st" "w_session st = None"
  obtains own where "emit_signal r x st = st\<lparr>w_log := w_log st @ [Signal x], w_owner := own\<rparr>" "own \<longrightarrow> w_owner st"
proof -
  let ?n = "st\<lparr>w_log := w_log st @ [Signal x]\<rparr>"
  have "r x ?n = ?n \<or> r x ?n = ?n\<lparr>w_owner := False\<rparr>" using assms by (intro calm_ended) (simp_all add: ended_def)
  then show thesis
  proof
    assume "r x ?n = ?n"
    then show thesis using that [of "w_owner st"] by (simp add: emit_signal_def note_wire_def)
  next
    assume "r x ?n = ?n\<lparr>w_owner := False\<rparr>"
    then show thesis using that [of False] by (simp add: emit_signal_def note_wire_def)
  qed
qed

text \<open>What is left of a connection after it ended; \<open>l\<close> is what was done to its stream.\<close>

lemma finish_shape:
  assumes "calm r" "\<not> ended st" "\<not> w_notified st"
  obtains l sigs own told where
    "ws_finish r msg st = st\<lparr>w_error := msg, w_state := (if msg = [] then SockClosed else SockFailed),
       w_generation := w_generation st + 1, w_deadline := None, w_session := None, w_output := [],
       w_owner := own, w_notified := told, w_log := w_log st @ l @ map Signal sigs\<rparr>"
    "List.map_filter signal_of l = []" "List.map_filter dial_of l = []" "own \<longrightarrow> told"
    "sigs = (if w_owner st \<and> msg \<noteq> [] then [SigError] else []) @ (if told then [SigDisconnected] else [])"
proof -
  let ?l = "if w_stream st then [DetachStream, CloseStream False] else []"
  let ?a = "st\<lparr>w_error := msg, w_state := (if msg = [] then SockClosed else SockFailed),
     w_generation := w_generation st + 1, w_deadline := None\<rparr>"
  let ?b = "?a\<lparr>w_session := None, w_output := [], w_log := w_log st @ ?l\<rparr>"
  have b: "(detach_close ?a)\<lparr>w_session := None, w_output := []\<rparr> = ?b"
    by (simp add: detach_close_def note_wire_def)
  have f: "ws_finish r msg st = (let c = if w_owner ?b \<and> w_error ?b \<noteq> [] then emit_signal r SigError ?b else ?b in
      if w_owner c \<and> \<not> w_notified c then emit_signal r SigDisconnected (c\<lparr>w_notified := True\<rparr>) else c)"
    unfolding ws_finish_def Let_def b using assms(2) by simp
  define e where "e = (if w_owner st \<and> msg \<noteq> [] then [SigError] else [])"
  obtain own1 where c: "(if w_owner ?b \<and> w_error ?b \<noteq> [] then emit_signal r SigError ?b else ?b)
      = ?b\<lparr>w_log := w_log ?b @ map Signal e, w_owner := own1\<rparr>"
  proof (cases "w_owner st \<and> msg \<noteq> []")
    case True
    have "ended ?b" "w_session ?b = None" by (simp_all add: ended_def)
    then obtain own where "emit_signal r SigError ?b = ?b\<lparr>w_log := w_log ?b @ [Signal SigError], w_owner := own\<rparr>"
      by (rule emit_ended [OF assms(1)])
    then show ?thesis using that [of own] True by (simp add: e_def)
  next
    case False
    then show ?thesis using that [of "w_owner st"] by (auto simp: e_def)
  qed
  let ?c = "?b\<lparr>w_log := w_log ?b @ map Signal e, w_owner := own1\<rparr>"
  have l: "List.map_filter signal_of ?l = []" "List.map_filter dial_of ?l = []" by (simp_all add: List.map_filter_def)
  show thesis
  proof (cases own1)
    case True
    have "ended (?c\<lparr>w_notified := True\<rparr>)" "w_session (?c\<lparr>w_notified := True\<rparr>) = None" by (simp_all add: ended_def)
    then obtain own2 where d: "emit_signal r SigDisconnected (?c\<lparr>w_notified := True\<rparr>)
        = ?c\<lparr>w_notified := True\<rparr>\<lparr>w_log := w_log (?c\<lparr>w_notified := True\<rparr>) @ [Signal SigDisconnected], w_owner := own2\<rparr>"
      by (rule emit_ended [OF assms(1)])
    have "w_owner ?c \<and> \<not> w_notified ?c" using True assms(3) by simp
    then have "ws_finish r msg st = emit_signal r SigDisconnected (?c\<lparr>w_notified := True\<rparr>)"
      unfolding f c Let_def by (simp only: if_True simp_thms)
    also note d
    finally show thesis using True assms(3) l
      by (intro that [of ?l "e @ [SigDisconnected]" True own2]) (simp_all add: e_def)
  next
    case False
    show thesis
      using that [of ?l e False False] False assms(3) l unfolding f c Let_def by (simp add: e_def)
  qed
qed

lemma log_parts:
  "signals (st\<lparr>w_log := w_log st @ l\<rparr>) = signals st @ List.map_filter signal_of l"
  "dials (st\<lparr>w_log := w_log st @ l\<rparr>) = dials st @ List.map_filter dial_of l"
  by (simp_all add: signals_def dials_def)

lemma map_filter_signals [simp]: "List.map_filter signal_of (map Signal xs) = xs" "List.map_filter dial_of (map Signal xs) = []"
  by (induction xs) (simp_all add: List.map_filter_def)

lemma finish_ok:
  assumes "calm r" "open_weak st"
  shows "ws_ok (ws_finish r msg st)" "ended (ws_finish r msg st)"
proof -
  have o: "\<not> ended st" "\<not> w_notified st" "dial_ok st" "phase_of st \<in> {Some WsWaiting, Some WsUp}"
    using assms(2) by (auto simp: open_weak_def)
  obtain l sigs own told where f: "ws_finish r msg st = st\<lparr>w_error := msg, w_state := (if msg = [] then SockClosed else SockFailed),
       w_generation := w_generation st + 1, w_deadline := None, w_session := None, w_output := [],
       w_owner := own, w_notified := told, w_log := w_log st @ l @ map Signal sigs\<rparr>"
    "List.map_filter signal_of l = []" "List.map_filter dial_of l = []" "own \<longrightarrow> told"
    "sigs = (if w_owner st \<and> msg \<noteq> [] then [SigError] else []) @ (if told then [SigDisconnected] else [])"
    by (rule finish_shape [OF assms(1) o(1,2)])
  let ?f = "ws_finish r msg st"
  show e: "ended ?f" unfolding f(1) by (simp add: ended_def)
  have s: "signals ?f = signals st @ sigs" "dials ?f = dials st"
    unfolding f(1) by (simp_all add: signals_def dials_def f(2,3))
  have p: "\<exists>p. phase_of ?f = Some p \<and> (told \<longleftrightarrow> p = WsOver)"
    using o(4) unfolding phase_of_def s(1) f(5) by (auto simp: path_of_append)
  have d: "dial_ok ?f"
    using o(3) unfolding dial_ok_def s(2) by (simp add: f(1))
  have "ended_ok ?f" unfolding ended_ok_def using e p d f(4) by (simp add: f(1))
  then have "base_ok ?f" by (simp add: base_ok_def ended_ok_def)
  then show "ws_ok ?f" using e by (auto simp: ws_ok_def timed_def ended_def)
qed

lemma finish_any:
  assumes "calm r" "base_ok st"
  shows "ws_ok (ws_finish r msg st)" "ended (ws_finish r msg st)"
proof -
  have "ws_ok (ws_finish r msg st) \<and> ended (ws_finish r msg st)"
  proof (cases "ended st")
    case True
    then have "timed st" by (auto simp: timed_def ended_def)
    then show ?thesis using True assms(2) by (simp add: ws_ok_def)
  next
    case False
    then have "open_weak st" using assms(2) by (auto simp: base_ok_def ended_ok_def open_ok_def)
    then show ?thesis using finish_ok [OF assms(1)] by blast
  qed
  then show "ws_ok (ws_finish r msg st)" "ended (ws_finish r msg st)" by simp_all
qed

section \<open>Writing, opening and reading\<close>

declare take_is_prefix [simp]

text \<open>Updates that neither the phase nor the addresses depend on.\<close>

lemma base_session: "open_ok st \<Longrightarrow> length out \<le> output_limit \<Longrightarrow>
    base_ok (st\<lparr>w_session := s, w_output := out, w_deadline := d, w_transport_closing := c\<rparr>)"
  by (simp add: base_ok_def open_ok_def open_weak_def ended_def dial_ok_def phase_of_def signals_def dials_def)

lemma base_no_signal:
  assumes "base_ok st" "List.map_filter signal_of l = []" "List.map_filter dial_of l = []"
  shows "base_ok (st\<lparr>w_log := w_log st @ l\<rparr>)"
  using assms
  by (auto simp: base_ok_def open_ok_def open_weak_def ended_ok_def ended_def dial_ok_def phase_of_def signals_def dials_def)

text \<open>
  Flushing either ends the connection or leaves it as it is, but for the protocol object, the
  buffer and the stream.
\<close>

lemma flush_result:
  assumes "calm r" "base_ok st"
  shows "ws_ok (ws_flush S E r st) \<and> ended (ws_flush S E r st) \<or> base_ok (ws_flush S E r st)
    \<and> w_state (ws_flush S E r st) = w_state st \<and> w_deadline (ws_flush S E r st) = w_deadline st
    \<and> w_alarm (ws_flush S E r st) = w_alarm st \<and> w_owner (ws_flush S E r st) = w_owner st"
proof (cases "w_session st = None \<or> \<not> w_stream st \<or> \<not> y_connected E (w_log st)")
  case True
  then have "ws_flush S E r st = st" by (auto simp: ws_flush_def split: option.split)
  then show ?thesis using assms(2) by simp
next
  case False
  then obtain s where s: "w_session st = Some s" "w_stream st" "y_connected E (w_log st)" by auto
  have o: "open_ok st" using session_open [OF assms(2) s(1)] .
  obtain out s' where t: "ss_take S s = (out, s')" by fastforce
  let ?a = "st\<lparr>w_session := Some s', w_output := w_output st @ out\<rparr>"
  have oa: "open_ok ?a"
    using o by (simp add: open_ok_def open_weak_def ended_def dial_ok_def phase_of_def signals_def dials_def)
  show ?thesis
  proof (cases "int (length (w_output ?a)) + int (y_pending E (w_log ?a)) > 5 * 1024 * 1024")
    case True
    then have "ws_flush S E r st = ws_finish r capacity_text ?a" by (simp add: ws_flush_def s t Let_def)
    then show ?thesis using finish_ok [OF assms(1)] oa by (simp add: open_ok_def)
  next
    case small: False
    have open_stream: "\<not> (\<not> w_stream st \<or> \<not> y_connected E (w_log st))" using s by simp
    have a: "base_ok ?a" using oa small by (simp add: base_ok_def output_limit_def)
    define b where "b = (if w_output ?a \<noteq> [] \<and> y_writes E (w_log ?a) (w_output ?a)
      then note_wire (WriteStream (w_output ?a)) ?a\<lparr>w_output := []\<rparr> else ?a)"
    have b: "base_ok b" "w_state b = w_state st" "w_deadline b = w_deadline st" "w_alarm b = w_alarm st"
      "w_owner b = w_owner st" "open_ok b"
    proof -
      have "open_ok (note_wire (WriteStream (w_output ?a)) ?a\<lparr>w_output := []\<rparr>)"
        using oa by (simp add: open_ok_def open_weak_def ended_def dial_ok_def phase_of_def signals_def dials_def note_wire_def map_filter_one)
      then show "open_ok b" using oa by (simp add: b_def)
      then show "base_ok b" using a by (auto simp: base_ok_def b_def)
      show "w_state b = w_state st" "w_deadline b = w_deadline st" "w_alarm b = w_alarm st" "w_owner b = w_owner st"
        by (simp_all add: b_def note_wire_def)
    qed
    have "ws_flush S E r st = (if w_state b = SockClosing \<and> w_output b = [] \<and> \<not> w_transport_closing b
        then note_wire (CloseStream True) (b\<lparr>w_transport_closing := True\<rparr>) else b)"
      unfolding ws_flush_def s(1) option.case if_not_P [OF open_stream] t prod.case Let_def if_not_P [OF small] b_def ..
    moreover have "base_ok (note_wire (CloseStream True) (b\<lparr>w_transport_closing := True\<rparr>))"
      using base_no_signal [of "b\<lparr>w_transport_closing := True\<rparr>" "[CloseStream True]"] b(6)
        base_session [OF b(6), where out = "w_output b" and s = "w_session b" and d = "w_deadline b" and c = True] b(1)
      by (simp add: note_wire_def map_filter_one base_ok_def)
    ultimately show ?thesis using b by (simp add: note_wire_def)
  qed
qed

lemma flush_ok:
  assumes "calm r" "ws_ok st"
  shows "ws_ok (ws_flush S E r st)"
  using flush_result [OF assms(1), of st S E] assms(2) by (auto simp: ws_ok_def timed_def ended_def)

lemma opened_ok:
  assumes "calm r" "ws_ok st"
  shows "ws_ok (ws_opened r st)"
proof (cases "w_owner st \<and> w_state st = SockConnecting")
  case True
  let ?st = "note_wire (Signal SigConnected) (st\<lparr>w_state := SockConnected, w_deadline := None\<rparr>)"
  have o: "open_ok st" "length (w_output st) \<le> output_limit"
    using assms(2) True by (auto simp: ws_ok_def base_ok_def ended_ok_def ended_def)
  then have p: "phase_of st = Some WsWaiting" using True by (simp add: open_ok_def open_weak_def)
  have "open_ok ?st" using o(1) p
    by (simp add: open_ok_def open_weak_def ended_def dial_ok_def phase_of_def signals_def dials_def note_wire_def map_filter_one path_of_append)
  then have "ws_ok ?st" using o(2) assms(2) True by (simp add: ws_ok_def base_ok_def timed_def note_wire_def ended_def)
  then show ?thesis using True assms(1) by (simp add: ws_opened_def emit_signal_def calm_keeps)
qed (use assms in \<open>auto simp: ws_opened_def\<close>)

text \<open>A message is handed over while the protocol object is there.\<close>

lemma message_ok:
  assumes "calm r" "ws_ok st" "w_session st = Some s" "x = SigText t \<or> x = SigBinary b"
  shows "ws_ok (emit_signal r x st)"
proof -
  have o: "open_ok st" using session_open assms(2,3) by (auto simp: ws_ok_def)
  then have "\<exists>p. phase_of st = Some p \<and> (p = WsWaiting \<or> p = WsUp)" by (auto simp: open_ok_def open_weak_def)
  then have "phase_of (note_wire (Signal x) st) = phase_of st"
    using assms(4) by (auto simp: phase_of_def note_wire_def signals_def map_filter_one path_of_append)
  then have "open_ok (note_wire (Signal x) st)"
    using o by (simp add: open_ok_def open_weak_def ended_def dial_ok_def dials_def note_wire_def map_filter_one)
  then have "ws_ok (note_wire (Signal x) st)"
    using assms(2) by (simp add: ws_ok_def base_ok_def timed_def note_wire_def ended_def)
  then show ?thesis using assms(1) by (simp add: emit_signal_def calm_keeps)
qed

lemma ok_session: "ws_ok st \<Longrightarrow> w_session st = Some s \<Longrightarrow> ws_ok (st\<lparr>w_session := Some s'\<rparr>)"
  using session_open [of st s]
  by (auto simp: ws_ok_def base_ok_def timed_def open_ok_def open_weak_def ended_def dial_ok_def phase_of_def
      signals_def dials_def)

lemma ok_deadline: "ws_ok st \<Longrightarrow> ws_ok (st\<lparr>w_deadline := Some d\<rparr>)"
  by (auto simp: ws_ok_def base_ok_def timed_def open_ok_def open_weak_def ended_ok_def ended_def dial_ok_def phase_of_def
      signals_def dials_def)

text \<open>The other end closed, or the application does: what is buffered is flushed under a timer.\<close>

lemma closing_ok:
  assumes "calm r" "ws_ok st" "w_session st = Some s"
    and f_def: "f = ws_flush S E r (st\<lparr>w_session := Some s', w_state := SockClosing\<rparr>)"
  shows "ws_ok (f\<lparr>w_deadline := Some d\<rparr>)" "w_owner st \<longrightarrow> \<not> w_owner f \<longrightarrow> ws_ok f"
proof -
  let ?a = "st\<lparr>w_session := Some s', w_state := SockClosing\<rparr>"
  have o: "open_ok st" using session_open assms(2,3) by (auto simp: ws_ok_def)
  then have alarm: "w_alarm st \<noteq> NoAlarm" using assms(2) open_not_ended by (auto simp: ws_ok_def timed_def)
  have "open_ok ?a" using o by (auto simp: open_ok_def open_weak_def ended_def dial_ok_def phase_of_def signals_def dials_def)
  then have "base_ok ?a" using assms(2) by (simp add: ws_ok_def base_ok_def)
  from flush_result [OF assms(1) this, of S E] alarm consider "ws_ok f" "ended f" | "base_ok f" "w_alarm f \<noteq> NoAlarm" "w_owner f = w_owner st"
    unfolding f_def [symmetric] by auto
  then have "ws_ok (f\<lparr>w_deadline := Some d\<rparr>) \<and> (w_owner st \<longrightarrow> \<not> w_owner f \<longrightarrow> ws_ok f)"
  proof cases
    case 2
    have "base_ok (f\<lparr>w_deadline := Some d\<rparr>)"
      using 2(1) by (auto simp: base_ok_def open_ok_def open_weak_def ended_ok_def ended_def dial_ok_def phase_of_def
          signals_def dials_def)
    then show ?thesis using 2(2,3) by (simp add: ws_ok_def timed_def)
  qed (auto intro: ok_deadline)
  then show "ws_ok (f\<lparr>w_deadline := Some d\<rparr>)" "w_owner st \<longrightarrow> \<not> w_owner f \<longrightarrow> ws_ok f" by simp_all
qed

lemma event_loop_ok:
  assumes "calm r" and again: "\<And>st. ws_ok st \<Longrightarrow> ws_ok (again st)"
  shows "ws_ok st \<Longrightarrow> ws_ok (snd (event_loop L S E r again evs st))"
proof (induction evs arbitrary: st)
  case (Cons ev evs)
  show ?case
  proof (cases "w_session st")
    case (Some s)
    note set = ok_session [OF Cons.prems Some]
    have base: "ws_ok (ws_finish r e (st\<lparr>w_session := Some s'\<rparr>))" for e s'
      using set finish_any(1) [OF assms(1)] by (simp add: ws_ok_def)
    show ?thesis
    proof (cases "w_owner st")
      case True
      show ?thesis
      proof (cases ev)
        case UpgradeRequest
        obtain u s' where u: "ss_accept S s = (u, s')" by fastforce
        show ?thesis
        proof (cases u)
          case None
          let ?b = "ws_opened r (ws_flush S E r (st\<lparr>w_session := Some s'\<rparr>))"
          have "ws_ok ?b" using set by (intro opened_ok flush_ok assms(1))
          then have "ws_ok (if w_session ?b \<noteq> None then again ?b else ?b)" using again by simp
          then show ?thesis using Some True UpgradeRequest u None Cons.IH by (simp add: Let_def)
        qed (use Some True UpgradeRequest u base in simp)
      next
        case ClosedEvent
        have st: "st\<lparr>w_state := SockClosing\<rparr> = st\<lparr>w_session := Some s, w_state := SockClosing\<rparr>" using Some by simp
        let ?f = "ws_flush S E r (st\<lparr>w_state := SockClosing\<rparr>)"
        have "ws_ok (if w_owner ?f then ?f\<lparr>w_deadline := Some (y_now E + 1000)\<rparr> else ?f)"
          using closing_ok [OF assms(1) Cons.prems Some refl] True unfolding st by simp
        then show ?thesis using Some True ClosedEvent Cons.IH by (simp add: Let_def)
      qed (use Some True Cons opened_ok [OF assms(1)] message_ok [OF assms(1)] in simp_all)
    qed (use Some Cons.prems in simp)
  qed (use Cons.prems in simp)
qed simp

lemma receive_ok:
  assumes "calm r"
  shows "ws_ok st \<Longrightarrow> ws_ok (ws_receive n L S E r b st)"
proof (induction n arbitrary: st b)
  case (Suc n)
  show ?case
  proof (cases "w_session st = None \<or> \<not> w_owner st")
    case True
    then show ?thesis using Suc.prems by (auto split: option.split)
  next
    case False
    then obtain s where s: "w_session st = Some s" "w_owner st" by auto
    obtain e s' where r: "ss_receive S b s = (e, s')" by fastforce
    have set: "ws_ok (st\<lparr>w_session := Some s'\<rparr>)" using ok_session [OF Suc.prems s(1)] .
    show ?thesis
    proof (cases e)
      case (Inl msg)
      then show ?thesis using s r set finish_any(1) [OF assms] by (simp add: ws_ok_def)
    next
      case (Inr evs)
      obtain w st1 where l: "event_loop L S E r (ws_receive n L S E r []) evs (st\<lparr>w_session := Some s'\<rparr>) = (w, st1)"
        by fastforce
      have "ws_ok (snd (event_loop L S E r (ws_receive n L S E r []) evs (st\<lparr>w_session := Some s'\<rparr>)))"
        by (rule event_loop_ok [OF assms Suc.IH set])
      then have "ws_ok st1" using l by simp
      then show ?thesis using s r Inr l flush_ok [OF assms] by simp
    qed
  qed
qed simp

section \<open>Dialling\<close>

lemma attach_ok:
  assumes "calm r" "base_ok st"
  shows "ws_ok (ws_attach S E r st)"
proof -
  let ?a = "st\<lparr>w_alarm := HandshakeAlarm, w_deadline := Some (y_now E + max 1 (case w_deadline st of Some d \<Rightarrow> d - y_now E | None \<Rightarrow> 5000))\<rparr>"
  have "ws_ok ?a" using assms(2)
    by (auto simp: ws_ok_def base_ok_def timed_def open_ok_def open_weak_def ended_ok_def ended_def dial_ok_def phase_of_def
        signals_def dials_def)
  then show ?thesis using flush_ok [OF assms(1)] by (simp add: ws_attach_def Let_def)
qed

lemma detach_shape:
  obtains l where "detach_close st = st\<lparr>w_log := w_log st @ l\<rparr>" "List.map_filter signal_of l = []" "List.map_filter dial_of l = []"
proof -
  let ?l = "if w_stream st then [DetachStream, CloseStream False] else []"
  have "detach_close st = st\<lparr>w_log := w_log st @ ?l\<rparr>" by (simp add: detach_close_def note_wire_def)
  then show thesis by (rule that) (simp_all add: List.map_filter_def)
qed

text \<open>What may be done to a connection without telling: its stream, generation, tasks and protocol object.\<close>

lemma open_silent:
  assumes "open_ok st" "List.map_filter signal_of l = []" "List.map_filter dial_of l = []"
    "ts = w_tasks st \<or> OpenTask \<notin> set ts \<and> \<not> w_resolving st"
  shows "open_ok (st\<lparr>w_generation := g, w_log := w_log st @ l, w_tasks := ts, w_stream := b, w_session := s, w_output := out\<rparr>)"
  using assms
  by (auto simp: open_ok_def open_weak_def ended_def dial_ok_def phase_of_def signals_def dials_def)

lemma retry_ok:
  assumes "calm r" "base_ok st" "timed st"
  shows "ws_ok (ws_retry r msg st)"
proof (cases "w_state st \<noteq> SockConnecting \<or> w_next st = length (w_addresses st)")
  case True
  then show ?thesis using finish_any(1) [OF assms(1,2)] by (simp add: ws_retry_def)
next
  case False
  let ?a = "st\<lparr>w_generation := w_generation st + 1\<rparr>"
  obtain l where l: "detach_close ?a = ?a\<lparr>w_log := w_log ?a @ l\<rparr>" "List.map_filter signal_of l = []" "List.map_filter dial_of l = []"
    by (rule detach_shape)
  have o: "open_ok st" using assms(2) False by (auto simp: base_ok_def ended_ok_def ended_def)
  have "OpenTask \<notin> set (w_tasks st)" "\<not> w_resolving st"
    using o False by (auto simp: open_ok_def open_weak_def dial_ok_def)
  then have "open_ok (st\<lparr>w_generation := w_generation st + 1, w_log := w_log st @ l, w_tasks := w_tasks st @ [RedialTask],
      w_stream := w_stream st, w_session := w_session st, w_output := w_output st\<rparr>)"
    by (intro open_silent [OF o l(2,3)]) simp_all
  then have "open_ok (?a\<lparr>w_log := w_log ?a @ l\<rparr>\<lparr>w_tasks := w_tasks st @ [RedialTask]\<rparr>)" by simp
  then have "ws_ok ((detach_close ?a)\<lparr>w_tasks := w_tasks st @ [RedialTask]\<rparr>)"
    unfolding l using assms(2,3) by (simp add: ws_ok_def base_ok_def timed_def ended_def)
  then show ?thesis using False by (simp add: ws_retry_def)
qed

text \<open>A connection that may dial: connecting, with its task taken.\<close>

definition dialling :: "'s websock \<Rightarrow> bool" where
  "dialling st \<longleftrightarrow> w_state st = SockConnecting \<and> \<not> w_resolving st \<and> OpenTask \<notin> set (w_tasks st)"

lemma dial_next_ok:
  assumes "calm r" "ws_ok st" "dialling st"
  shows "ws_ok (ws_dial_next S E r st)"
proof -
  have o: "open_ok st" using assms(2,3) by (auto simp: ws_ok_def base_ok_def ended_ok_def ended_def dialling_def)
  have t: "timed st" using assms(2) by (simp add: ws_ok_def)
  let ?a = "st\<lparr>w_generation := w_generation st + 1\<rparr>"
  obtain l where l: "detach_close ?a = ?a\<lparr>w_log := w_log ?a @ l\<rparr>" "List.map_filter signal_of l = []" "List.map_filter dial_of l = []"
    by (rule detach_shape)
  let ?b = "st\<lparr>w_generation := w_generation st + 1, w_log := w_log st @ l, w_tasks := w_tasks st, w_stream := False,
    w_session := None, w_output := []\<rparr>"
  have b: "(detach_close ?a)\<lparr>w_stream := False, w_session := None, w_output := []\<rparr> = ?b" unfolding l(1) by simp
  have ob: "open_ok ?b" by (intro open_silent [OF o l(2,3)]) simp_all
  show ?thesis
  proof (cases "w_next ?b = length (w_addresses ?b)")
    case True
    have "ws_dial_next S E r st = ws_finish r (qs ''No reachable WebSocket endpoint'') ?b"
      unfolding ws_dial_next_def Let_def b if_P [OF True] ..
    then show ?thesis using finish_ok(1) [OF assms(1)] ob by (simp add: open_ok_def)
  next
    case False
    let ?c = "?b\<lparr>w_next := w_next ?b + 1\<rparr>"
    let ?a = "w_addresses ?b ! w_next ?b"
    have less: "w_next st < length (w_addresses st)" using False o by (simp add: open_ok_def)
    have weak: "open_weak (?c\<lparr>w_session := s\<rparr>)" for s
      using ob assms(3)
      by (auto simp: open_ok_def open_weak_def ended_def dial_ok_def phase_of_def signals_def dials_def dialling_def)
    have weakN: "open_weak ?c"
      using ob assms(3)
      by (auto simp: open_ok_def open_weak_def ended_def dial_ok_def phase_of_def signals_def dials_def dialling_def)
    have p: "prefix (take (w_next st) (w_addresses st) @ [w_addresses st ! w_next st]) (w_addresses st)"
      using take_is_prefix [of "Suc (w_next st)" "w_addresses st"] by (simp add: take_Suc_conv_app_nth [OF less])
    have on: "open_ok (note_wire (DialTo ?a) (?c\<lparr>w_session := Some s, w_stream := True\<rparr>))" for s
      using ob weak [of "Some s"] less take_Suc_conv_app_nth [OF less]
      by (auto simp: open_ok_def open_weak_def ended_def dial_ok_def phase_of_def signals_def dials_def dialling_def note_wire_def
          map_filter_one) (simp_all add: p flip: append_assoc)
    have bn: "base_ok (note_wire (DialTo ?a) (?c\<lparr>w_session := Some s, w_stream := True\<rparr>))"
      "timed (note_wire (DialTo ?a) (?c\<lparr>w_session := Some s, w_stream := True\<rparr>))" for s
      using on t by (simp_all add: base_ok_def timed_def note_wire_def ended_def)
    show ?thesis
      unfolding ws_dial_next_def Let_def b if_not_P [OF False]
      using finish_ok(1) [OF assms(1) weakN] finish_ok(1) [OF assms(1) weak] retry_ok [OF assms(1) bn]
        attach_ok [OF assms(1) bn(1)]
      by (auto split: sum.split option.split)
  qed
qed

section \<open>Opening and the methods\<close>

lemma dial_ok:
  assumes "calm r" "ws_ok st" "dialling st" "w_addresses st = []" "w_next st = 0"
  shows "ws_ok (ws_dial S E r as st)"
proof -
  let ?st = "st\<lparr>w_addresses := as, w_next := 0\<rparr>"
  have "ws_ok ?st"
    using assms(2-5)
    by (auto simp: ws_ok_def base_ok_def timed_def open_ok_def open_weak_def ended_ok_def ended_def dial_ok_def phase_of_def
        signals_def dials_def dialling_def)
  moreover have "dialling ?st" using assms(3) by (simp add: dialling_def)
  ultimately show ?thesis unfolding ws_dial_def by (rule dial_next_ok [OF assms(1)])
qed

lemma ok_dial: "ws_ok st \<Longrightarrow> dial_ok st"
  by (auto simp: ws_ok_def base_ok_def open_ok_def open_weak_def ended_ok_def)

text \<open>Only the bookkeeping of what is to be dialled changes.\<close>

lemma ok_dial_fields:
  assumes "ws_ok st" "dial_ok (st\<lparr>w_tasks := ts, w_resolving := b\<rparr>)"
  shows "ws_ok (st\<lparr>w_tasks := ts, w_resolving := b\<rparr>)"
proof -
  have "signals (st\<lparr>w_tasks := ts, w_resolving := b\<rparr>) = signals st" "dials (st\<lparr>w_tasks := ts, w_resolving := b\<rparr>) = dials st"
    "ended (st\<lparr>w_tasks := ts, w_resolving := b\<rparr>) = ended st"
    by (simp_all add: signals_def dials_def ended_def)
  then show ?thesis
    using assms by (simp add: ws_ok_def base_ok_def timed_def open_ok_def open_weak_def ended_ok_def phase_of_def) blast
qed

lemma ok_tasks:
  assumes "ws_ok st" "w_tasks st = t # ts"
  shows "ws_ok (st\<lparr>w_tasks := ts\<rparr>)"
proof -
  have "dial_ok (st\<lparr>w_tasks := ts, w_resolving := w_resolving st\<rparr>)"
    using ok_dial [OF assms(1)] assms(2) by (auto simp: dial_ok_def dials_def)
  from ok_dial_fields [OF assms(1) this] show ?thesis by simp
qed

lemma ok_resolving:
  assumes "ws_ok st" "b \<longrightarrow> w_addresses st = [] \<and> w_next st = 0 \<and> w_tasks st = []" "\<not> b \<longrightarrow> w_resolving st"
  shows "ws_ok (st\<lparr>w_resolving := b\<rparr>)"
proof -
  have "dial_ok (st\<lparr>w_tasks := w_tasks st, w_resolving := b\<rparr>)"
    using ok_dial [OF assms(1)] assms(2,3) by (auto simp: dial_ok_def dials_def)
  from ok_dial_fields [OF assms(1) this] show ?thesis by simp
qed

lemma start_ok:
  assumes "calm r" "ws_ok st" "w_addresses st = []" "w_next st = 0" "w_tasks st = []" "\<not> w_resolving st"
  shows "ws_ok (ws_start L S E r st)"
proof -
  have f: "ws_ok (ws_finish r m st)" for m using finish_any(1) [OF assms(1)] assms(2) by (simp add: ws_ok_def)
  have d: "ws_ok (ws_dial S E r as st)" if "w_state st = SockConnecting" for as
    using that assms by (intro dial_ok) (simp_all add: dialling_def)
  have r: "ws_ok (st\<lparr>w_resolving := True\<rparr>)" using assms by (intro ok_resolving) simp_all
  show ?thesis using f d r assms(2) by (simp add: ws_start_def Let_def split: option.split)
qed

lemma resolved_ok:
  assumes "calm r" "ws_ok st"
  shows "ws_ok (ws_resolved S E r es st)"
proof (cases "w_resolving st")
  case True
  let ?st = "st\<lparr>w_resolving := False\<rparr>"
  have d: "w_addresses st = []" "w_next st = 0" "OpenTask \<notin> set (w_tasks st)"
    using ok_dial [OF assms(2)] True by (auto simp: dial_ok_def)
  have ok: "ws_ok ?st" using assms(2) True by (intro ok_resolving) simp_all
  have f: "ws_ok (ws_finish r m ?st)" for m using finish_any(1) [OF assms(1)] ok by (simp add: ws_ok_def)
  have "ws_ok (ws_dial S E r as ?st)" if "w_state st = SockConnecting" for as
    using that d by (intro dial_ok assms(1) ok) (simp_all add: dialling_def)
  then show ?thesis using f ok True by (simp add: ws_resolved_def Let_def split: option.split list.split)
qed (use assms in \<open>simp add: ws_resolved_def\<close>)

lemma run_task_ok:
  assumes "calm r" "ws_ok st"
  shows "ws_ok (ws_run_task L S E r st)"
proof (cases "w_tasks st")
  case (Cons t ts)
  have ok: "ws_ok (st\<lparr>w_tasks := ts\<rparr>)" using ok_tasks [OF assms(2) Cons] .
  show ?thesis
  proof (cases t)
    case OpenTask
    then have d: "w_addresses st = []" "w_next st = 0" "\<not> w_resolving st" "ts = []"
      using ok_dial [OF assms(2)] Cons by (auto simp: dial_ok_def)
    show ?thesis using start_ok [OF assms(1) ok] d Cons OpenTask by (simp add: ws_run_task_def)
  next
    case RedialTask
    have "ws_ok (ws_dial_next S E r (st\<lparr>w_tasks := ts\<rparr>))" if "w_state st = SockConnecting"
      using that ok_dial [OF assms(2)] Cons RedialTask by (intro dial_next_ok assms(1) ok) (auto simp: dialling_def dial_ok_def)
    then show ?thesis using ok Cons RedialTask by (simp add: ws_run_task_def ws_redial_def)
  qed
qed (use assms in \<open>simp add: ws_run_task_def\<close>)

lemma close_ok:
  assumes "calm r" "ws_ok st"
  shows "ws_ok (ws_close S E r code reason st)"
proof -
  have f: "ws_ok (ws_finish r m st)" for m using finish_any(1) [OF assms(1)] assms(2) by (simp add: ws_ok_def)
  show ?thesis
  proof (cases "w_session st")
    case (Some s)
    have g: "ws_ok (ws_finish r m (st\<lparr>w_session := Some s'\<rparr>))" for m s'
      using finish_any(1) [OF assms(1)] ok_session [OF assms(2) Some] by (simp add: ws_ok_def)
    have c: "ws_ok ((ws_flush S E r (st\<lparr>w_session := Some s', w_state := SockClosing\<rparr>))\<lparr>w_deadline := Some (y_now E + 1000)\<rparr>)"
      for s' using closing_ok(1) [OF assms Some refl] .
    show ?thesis
      unfolding ws_close_def Some option.case using f g c
      by (simp split: prod.split option.split)
  qed (use f in \<open>simp add: ws_close_def\<close>)
qed

lemma handed_ok:
  assumes "calm r" "ws_ok st" "w_session st = Some s"
  shows "ws_ok (ws_finish r m (st\<lparr>w_session := Some s'\<rparr>))" "ws_ok (ws_flush S E r (st\<lparr>w_session := Some s'\<rparr>))"
  using finish_any(1) [OF assms(1)] flush_ok [OF assms(1)] ok_session [OF assms(2,3)] by (simp_all add: ws_ok_def)

lemma send_ok:
  assumes "calm r" "ws_ok st"
  shows "ws_ok (snd (ws_send S E r put b st))"
proof (cases "w_session st")
  case (Some s)
  have f: "ws_ok (ws_finish r m st)" for m using finish_any(1) [OF assms(1)] assms(2) by (simp add: ws_ok_def)
  show ?thesis
    unfolding ws_send_def Some option.case using f handed_ok [OF assms Some] assms(2)
    by (simp split: prod.split option.split)
qed (use assms in \<open>simp add: ws_send_def\<close>)

lemma ping_ok:
  assumes "calm r" "ws_ok st"
  shows "ws_ok (ws_ping S E r st)"
proof (cases "w_session st")
  case (Some s)
  show ?thesis
    unfolding ws_ping_def Some option.case using handed_ok [OF assms Some] assms(2)
    by (simp split: prod.split option.split)
qed (use assms in \<open>simp add: ws_ping_def\<close>)

lemma ok_orphan:
  assumes "ws_ok st"
  shows "ws_ok (st\<lparr>w_owner := False\<rparr>)"
proof -
  have "signals (st\<lparr>w_owner := False\<rparr>) = signals st" "dials (st\<lparr>w_owner := False\<rparr>) = dials st"
    "ended (st\<lparr>w_owner := False\<rparr>) = ended st" "dial_ok (st\<lparr>w_owner := False\<rparr>) = dial_ok st"
    by (simp_all add: signals_def dials_def ended_def dial_ok_def)
  then show ?thesis
    using assms by (simp add: ws_ok_def base_ok_def timed_def open_ok_def open_weak_def ended_ok_def phase_of_def) blast
qed

lemma do_call_ok:
  assumes "calm r" "ws_ok st"
  shows "ws_ok (do_call L S E r c st)"
proof -
  have "ws_ok (ws_finish r m st)" for m using finish_any(1) [OF assms(1)] assms(2) by (simp add: ws_ok_def)
  moreover have "ws_ok (ws_finish r m (st\<lparr>w_owner := False\<rparr>))" for m
    using finish_any(1) [OF assms(1)] ok_orphan [OF assms(2)] by (simp add: ws_ok_def)
  ultimately show ?thesis
    using close_ok [OF assms] send_ok [OF assms] ping_ok [OF assms]
    by (cases c) (simp_all add: do_call_def ws_send_text_def ws_send_binary_def ws_destroy_def)
qed

text \<open>A connection that has ended is beyond every call.\<close>

lemma do_call_ended:
  assumes "ended st" "w_session st = None"
  shows "do_call L S E r c st = st \<or> do_call L S E r c st = st\<lparr>w_owner := False\<rparr>"
proof -
  have "ended (st\<lparr>w_owner := False\<rparr>)" using assms(1) by (simp add: ended_def)
  then show ?thesis
    using assms by (cases c)
      (simp_all add: do_call_def ws_close_def ws_send_text_def ws_send_binary_def ws_send_def ws_ping_def ws_destroy_def)
qed

lemma calls_ended:
  assumes "ended st" "w_session st = None"
  shows "fold (do_call L S E r) cs st = st \<or> fold (do_call L S E r) cs st = st\<lparr>w_owner := False\<rparr>"
  using assms
proof (induction cs arbitrary: st)
  case (Cons c cs)
  let ?o = "st\<lparr>w_owner := False\<rparr>"
  have o: "ended ?o" "w_session ?o = None" using Cons.prems by (simp_all add: ended_def)
  from do_call_ended [OF Cons.prems, of L S E r c] show ?case
    using Cons.IH [OF Cons.prems] Cons.IH [OF o] by auto
qed simp

lemma calls_ok: "calm r \<Longrightarrow> ws_ok st \<Longrightarrow> ws_ok (fold (do_call L S E r) cs st)"
  by (induction cs arbitrary: st) (simp_all add: do_call_ok)

lemma calm_app_slot: "calm (app_slot n L S E)"
proof (induction n)
  case (Suc n)
  show ?case unfolding app_slot.simps calm_def [of "\<lambda>x st. fold (do_call L S E (app_slot n L S E)) (y_plan E (w_log st) x) st"]
    by (intro conjI allI impI calls_ok [OF Suc] calls_ended)
qed (simp add: calm_def)

section \<open>Every run\<close>

text \<open>The connection of \<open>open\<close> or of the server, and any number of events.\<close>

inductive ws_run :: "lib \<Rightarrow> 's sessions \<Rightarrow> 's websock \<Rightarrow> bool" for L S where
  run_open: "ws_run L S (ws_open E url)"
| run_accepted: "ss_server S wire_limits = Inr s \<Longrightarrow> ws_run L S (ws_accepted S E s (app_slot n L S E))"
| run_event: "ws_run L S st \<Longrightarrow> ws_run L S (ws_step L S E ev st)"

lemma open_start_ok: "ws_ok (ws_open E url)"
  by (simp add: ws_open_def new_websock_def ws_ok_def base_ok_def timed_def open_ok_def open_weak_def ended_def dial_ok_def
      phase_of_def signals_def dials_def)

lemma accepted_ok: "calm r \<Longrightarrow> ws_ok (ws_accepted S E s r)"
  unfolding ws_accepted_def
  by (intro attach_ok, assumption)
    (simp add: new_websock_def base_ok_def open_ok_def open_weak_def ended_def dial_ok_def phase_of_def signals_def dials_def)

lemma deadline_ok:
  assumes "calm r" "ws_ok st"
  shows "ws_ok (deadline_fires E r st)"
proof (cases "w_deadline st")
  case (Some d)
  let ?st = "st\<lparr>w_deadline := None\<rparr>"
  have b: "base_ok ?st"
    using assms(2)
    by (auto simp: ws_ok_def base_ok_def open_ok_def open_weak_def ended_ok_def ended_def dial_ok_def phase_of_def
        signals_def dials_def)
  have "ws_ok ?st" if "w_alarm st = NoAlarm"
    using that b assms(2) by (auto simp: ws_ok_def timed_def ended_def)
  then show ?thesis
    using Some assms(2) finish_any(1) [OF assms(1) b] by (simp add: deadline_fires_def Let_def split: ws_alarm.split)
qed (use assms in \<open>simp add: deadline_fires_def\<close>)

lemma step_ok: "ws_ok st \<Longrightarrow> ws_ok (ws_step L S E ev st)"
proof -
  assume ok: "ws_ok st"
  note c = calm_app_slot [of "y_nest E" L S E]
  have f: "ws_ok (ws_finish (app_slot (y_nest E) L S E) m st)" "ws_ok (ws_retry (app_slot (y_nest E) L S E) m st)" for m
    using finish_any(1) [OF c] retry_ok [OF c] ok by (simp_all add: ws_ok_def)
  show ?thesis
    using ok f run_task_ok [OF c] resolved_ok [OF c] flush_ok [OF c] receive_ok [OF c] deadline_ok [OF c] do_call_ok [OF c]
    by (cases ev) (simp_all add: ws_step_def Let_def)
qed

lemma run_ok: "ws_run L S st \<Longrightarrow> ws_ok st"
  by (induction rule: ws_run.induct) (simp_all add: open_start_ok accepted_ok calm_app_slot step_ok)

text \<open>
  C33: Whatever the network, the protocol object and the slots of the application do, also when
  a slot closes, sends on or deletes the socket in the middle of an operation, the signals of a
  connection are a path of the life of one: connected at most once, messages only before the
  end, an error at most once and then nothing but disconnected, and disconnected at most once
  and last. A connection that has ended with its owner alive has told so.
\<close>

theorem ws_signals_refine:
  assumes "ws_run L S st"
  shows "\<exists>p. path_of WsWaiting (signals st) = Some p \<and> (w_notified st \<longleftrightarrow> p = WsOver)
    \<and> (ended st \<and> w_owner st \<longrightarrow> p = WsOver)
    \<and> (\<not> ended st \<longrightarrow> p = WsWaiting \<or> p = WsUp \<and> w_state st \<noteq> SockConnecting)"
proof -
  have ok: "open_ok st \<or> ended_ok st" using run_ok [OF assms] by (simp add: ws_ok_def base_ok_def)
  show ?thesis
  proof (cases "ended st")
    case True
    then have "ended_ok st" using ok open_not_ended by blast
    then obtain p where "phase_of st = Some p" "w_notified st \<longleftrightarrow> p = WsOver" "w_owner st \<longrightarrow> w_notified st"
      by (auto simp: ended_ok_def)
    then show ?thesis using True by (intro exI [of _ p]) (simp add: phase_of_def)
  next
    case False
    then have "open_weak st" using ok open_not_ended by (auto simp: open_ok_def)
    then show ?thesis by (auto simp: open_weak_def phase_of_def)
  qed
qed

text \<open>
  C34: No connection stays half open: while it is being made or closed its timer runs, and when
  that fires the connection ends.
\<close>

theorem ws_never_hangs:
  assumes "ws_run L S st" and "w_state st = SockConnecting \<or> w_state st = SockClosing"
  shows "\<exists>d. w_deadline st = Some d \<and> (d \<le> y_now E \<longrightarrow> ended (ws_step L S E DeadlineFires st))"
proof -
  have ok: "ws_ok st" using run_ok [OF assms(1)] .
  then have t: "w_alarm st \<noteq> NoAlarm" "w_deadline st \<noteq> None"
    using assms(2) by (auto simp: ws_ok_def timed_def ended_def)
  then obtain d where d: "w_deadline st = Some d" by auto
  let ?r = "app_slot (y_nest E) L S E"
  have o: "open_ok st" using ok assms(2) by (auto simp: ws_ok_def base_ok_def ended_ok_def ended_def)
  have "base_ok (st\<lparr>w_deadline := None\<rparr>)"
    using o ok by (auto simp: ws_ok_def base_ok_def open_ok_def open_weak_def ended_def dial_ok_def phase_of_def
        signals_def dials_def)
  then have "ended (ws_finish ?r m (st\<lparr>w_deadline := None\<rparr>))" for m by (rule finish_any(2) [OF calm_app_slot])
  then have "ended (ws_step L S E DeadlineFires st)" if "d \<le> y_now E"
    using that d t(1) by (simp add: ws_step_def deadline_fires_def Let_def split: ws_alarm.split)
  then show ?thesis using d by blast
qed


text \<open>
  The addresses a connection dialled are the first of those its host was resolved to, in
  their order, none left out and none twice.
\<close>

theorem ws_dials_in_order:
  assumes "ws_run L S st"
  shows "prefix (dials st) (w_addresses st) \<and> (\<not> ended st \<longrightarrow> dials st = take (w_next st) (w_addresses st))"
  using run_ok [OF assms] ok_dial [OF run_ok [OF assms]]
  by (auto simp: ws_ok_def base_ok_def open_ok_def dial_ok_def ended_ok_def)

end
