(* ===== verification/TransportServer.thy ===== *)
theory TransportServer
  imports TransportProperties
begin

text \<open>
  \<open>WebSocketServer\<close> of \<open>src/NetworkTransport.cpp\<close>: which connections it takes, hands over and
  forgets, and what it needs to listen; with the fingerprints of certificates. A \<open>QPointer\<close> is
  \<open>None\<close> once its socket is deleted.
\<close>

section \<open>Certificates\<close>

record tls_identity =
  chain_file :: string
  key_file :: string
  chain_pem :: string
  key_pem :: string

definition has_identity :: "tls_identity \<Rightarrow> bool" where
  "has_identity i \<longleftrightarrow> chain_file i \<noteq> [] \<and> key_file i \<noteq> [] \<or> chain_pem i \<noteq> [] \<and> key_pem i \<noteq> []"

definition digest_text :: "bytes \<Rightarrow> qstring" where
  "digest_text d = from_latin1 (to_hex d)"

text \<open>\<open>inspect_file\<close> and \<open>inspect_text\<close> give the SHA-256 of the certificate found, if there is one.\<close>

definition certificate_fingerprint :: "(string \<Rightarrow> bytes option) \<Rightarrow> (string \<Rightarrow> bytes option) \<Rightarrow> tls_identity \<Rightarrow> qstring" where
  "certificate_fingerprint inspect_file inspect_text i =
     (case if chain_pem i = [] then inspect_file (chain_file i) else inspect_text (chain_pem i) of
        None \<Rightarrow> [] | Some d \<Rightarrow> digest_text d)"

definition peer_fingerprint :: "bytes option option \<Rightarrow> qstring" where
  "peer_fingerprint connection_certificate =
     (case connection_certificate of Some (Some d) \<Rightarrow> digest_text d | _ \<Rightarrow> [])"

section \<open>The server\<close>

datatype server_effect = RefuseStream | NewConnection | DeleteLater sock

record ws_server =
  u_handshakes :: "sock option list"
  u_pending :: "sock option list"
  u_secure :: "int option" \<comment> \<open>port of the TLS listener, if there is one\<close>
  u_plain :: "int option"
  u_error :: qstring
  u_log :: "server_effect list"

definition new_ws_server :: ws_server where
  "new_ws_server = \<lparr>u_handshakes = [], u_pending = [], u_secure = None, u_plain = None, u_error = [], u_log = []\<rparr>"

definition note_server :: "server_effect \<Rightarrow> ws_server \<Rightarrow> ws_server" where
  "note_server x u = u\<lparr>u_log := u_log u @ [x]\<rparr>"

text \<open>The pointers that still point to a socket.\<close>

definition live_ones :: "sock option list \<Rightarrow> sock option list" where
  "live_ones xs = filter (\<lambda>x. x \<noteq> None) xs"

text \<open>\<open>made\<close>: the protocol object of the new socket could be made.\<close>

definition server_accept :: "sock \<Rightarrow> bool \<Rightarrow> ws_server \<Rightarrow> ws_server" where
  "server_accept s made u =
     (let u = u\<lparr>u_handshakes := live_ones (u_handshakes u)\<rparr> in
      if length (u_handshakes u) + length (u_pending u) \<ge> 64 then note_server RefuseStream u
      else if \<not> made then u
      else u\<lparr>u_handshakes := u_handshakes u @ [Some s]\<rparr>)"

definition server_upgraded :: "sock \<Rightarrow> ws_server \<Rightarrow> ws_server" where
  "server_upgraded s u =
     note_server NewConnection (u\<lparr>u_handshakes := removeAll (Some s) (u_handshakes u), u_pending := u_pending u @ [Some s]\<rparr>)"

definition server_lost :: "sock \<Rightarrow> bool \<Rightarrow> ws_server \<Rightarrow> ws_server" where
  "server_lost s still_child u =
     (let u = u\<lparr>u_handshakes := removeAll (Some s) (u_handshakes u), u_pending := removeAll (Some s) (u_pending u)\<rparr>
      in if still_child then note_server (DeleteLater s) u else u)"

definition socket_deleted :: "sock \<Rightarrow> ws_server \<Rightarrow> ws_server" where
  "socket_deleted s u =
     (let clear = map (\<lambda>x. if x = Some s then None else x)
      in u\<lparr>u_handshakes := clear (u_handshakes u), u_pending := clear (u_pending u)\<rparr>)"

definition has_pending :: "ws_server \<Rightarrow> bool" where
  "has_pending u \<longleftrightarrow> u_pending u \<noteq> []"

fun pop_pending :: "sock option list \<Rightarrow> sock option \<times> sock option list" where
  "pop_pending [] = (None, [])"
| "pop_pending (Some s # xs) = (Some s, xs)"
| "pop_pending (None # xs) = pop_pending xs"

definition next_pending :: "ws_server \<Rightarrow> sock option \<times> ws_server" where
  "next_pending u = (case pop_pending (u_pending u) of (s, rest) \<Rightarrow> (s, u\<lparr>u_pending := rest\<rparr>))"

text \<open>
  \<open>context_error\<close> of making the TLS context; \<open>bound\<close> is the error of listening, if there is one,
  with the port the listener then reports.
\<close>

definition server_listen :: "address \<Rightarrow> bool \<Rightarrow> qstring option \<Rightarrow> qstring option \<times> int \<Rightarrow> ws_server \<Rightarrow> bool \<times> ws_server" where
  "server_listen a identity context_error bound u =
     (if identity then
        (case context_error of
           Some e \<Rightarrow> (False, u\<lparr>u_error := e\<rparr>)
         | None \<Rightarrow>
             let u = u\<lparr>u_secure := Some (snd bound)\<rparr> in
             (case fst bound of Some e \<Rightarrow> (False, u\<lparr>u_error := e\<rparr>) | None \<Rightarrow> (True, u)))
      else if \<not> addr_loopback a then (False, u\<lparr>u_error := qs ''TLS is required for non-loopback listeners''\<rparr>)
      else
        let u = u\<lparr>u_plain := Some (snd bound)\<rparr> in
        (case fst bound of Some e \<Rightarrow> (False, u\<lparr>u_error := e\<rparr>) | None \<Rightarrow> (True, u)))"

definition ws_server_port :: "ws_server \<Rightarrow> int" where
  "ws_server_port u = (case u_secure u of Some p \<Rightarrow> p | None \<Rightarrow> (case u_plain u of Some p \<Rightarrow> p | None \<Rightarrow> 0))"

section \<open>Runs\<close>

text \<open>
  A socket reports connected while it shakes hands, and is deleted by the server only after it
  reported disconnected; what the application took belongs to the application. The lists
  collect the sockets accepted so far and those handed over.
\<close>

inductive server_run :: "sock list \<Rightarrow> sock list \<Rightarrow> ws_server \<Rightarrow> bool" where
  server_start: "server_run [] [] new_ws_server"
| server_new: "server_run seen taken u \<Longrightarrow> s \<notin> set seen \<Longrightarrow> server_run (seen @ [s]) taken (server_accept s made u)"
| server_up: "server_run seen taken u \<Longrightarrow> Some s \<in> set (u_handshakes u) \<Longrightarrow> server_run seen taken (server_upgraded s u)"
| server_down: "server_run seen taken u \<Longrightarrow> server_run seen taken (server_lost s c u)"
| server_gone: "server_run seen taken u \<Longrightarrow> Some s \<notin> set (u_pending u) \<Longrightarrow> server_run seen taken (socket_deleted s u)"
| server_take: "server_run seen taken u \<Longrightarrow> next_pending u = (Some s, u') \<Longrightarrow> server_run seen (taken @ [s]) u'"

definition server_ok :: "sock list \<Rightarrow> sock list \<Rightarrow> ws_server \<Rightarrow> bool" where
  "server_ok seen taken u \<longleftrightarrow>
     length (live_ones (u_handshakes u)) + length (u_pending u) \<le> 64
     \<and> None \<notin> set (u_pending u)
     \<and> distinct (live_ones (u_handshakes u) @ u_pending u @ map Some taken)
     \<and> (\<forall>s. Some s \<in> set (u_handshakes u) \<union> set (u_pending u) \<union> Some ` set taken \<longrightarrow> s \<in> set seen)"

lemma pop_no_hole: "None \<notin> set xs \<Longrightarrow> pop_pending xs = (case xs of [] \<Rightarrow> (None, []) | x # ys \<Rightarrow> (x, ys))"
  by (cases xs; cases "hd xs") auto

lemma live_simps [simp]:
  "live_ones [] = []" "live_ones (xs @ ys) = live_ones xs @ live_ones ys" "live_ones [Some s] = [Some s]"
  "live_ones (live_ones xs) = live_ones xs" "set (live_ones xs) = set xs - {None}"
  "live_ones (removeAll (Some s) xs) = removeAll (Some s) (live_ones xs)"
  "live_ones (map (\<lambda>x. if x = Some s then None else x) xs) = removeAll (Some s) (live_ones xs)"
proof -
  show "live_ones (removeAll (Some s) xs) = removeAll (Some s) (live_ones xs)"
    "live_ones (map (\<lambda>x. if x = Some s then None else x) xs) = removeAll (Some s) (live_ones xs)"
    by (induction xs) (auto simp: live_ones_def)
qed (auto simp: live_ones_def)

lemma distinct_move: "distinct (xs @ ys @ zs) \<Longrightarrow> x \<in> set xs \<Longrightarrow> distinct (removeAll x xs @ (ys @ [x]) @ zs)"
  by (auto simp: distinct_removeAll)

lemma length_removeAll_in: "x \<in> set xs \<Longrightarrow> Suc (length (removeAll x xs)) \<le> length xs"
  using length_removeAll_less by (metis Suc_leI)

lemma server_ok_run: "server_run seen taken u \<Longrightarrow> server_ok seen taken u"
proof (induction rule: server_run.induct)
  case server_start
  show ?case by (simp add: server_ok_def new_ws_server_def)
next
  case (server_new seen taken u s made)
  then have ok: "server_ok seen taken u" by simp
  then have "Some s \<notin> set (u_handshakes u) \<union> set (u_pending u) \<union> Some ` set taken"
    using server_new.hyps(2) by (auto simp: server_ok_def)
  then show ?case using ok by (auto simp: server_ok_def server_accept_def Let_def note_server_def)
next
  case (server_up seen taken u s)
  then have ok: "server_ok seen taken u" by simp
  have in_live: "Some s \<in> set (live_ones (u_handshakes u))" using server_up.hyps(2) by simp
  from ok have "distinct (live_ones (u_handshakes u) @ u_pending u @ map Some taken)" by (simp add: server_ok_def)
  note d = distinct_move [OF this in_live]
  have "length (removeAll (Some s) (live_ones (u_handshakes u))) + length (u_pending u @ [Some s]) \<le> 64"
    using length_removeAll_in [OF in_live] ok by (simp add: server_ok_def)
  moreover have "\<forall>t. Some t \<in> set (removeAll (Some s) (u_handshakes u)) \<union> set (u_pending u @ [Some s]) \<union> Some ` set taken \<longrightarrow> t \<in> set seen"
    using ok server_up.hyps(2) by (auto simp: server_ok_def)
  moreover have "None \<notin> set (u_pending u @ [Some s])" using ok by (simp add: server_ok_def)
  moreover have h: "u_handshakes (server_upgraded s u) = removeAll (Some s) (u_handshakes u)"
    "u_pending (server_upgraded s u) = u_pending u @ [Some s]"
    by (simp_all add: server_upgraded_def note_server_def)
  ultimately show ?case using d unfolding server_ok_def h live_simps by blast
next
  case (server_down seen taken u s c)
  then have ok: "server_ok seen taken u" by simp
  have "length (removeAll (Some s) (live_ones (u_handshakes u))) \<le> length (live_ones (u_handshakes u))"
    "length (removeAll (Some s) (u_pending u)) \<le> length (u_pending u)"
    by (simp_all add: removeAll_filter_not_eq)
  moreover have "length (live_ones (u_handshakes u)) + length (u_pending u) \<le> 64" using ok by (simp add: server_ok_def)
  ultimately have "length (removeAll (Some s) (live_ones (u_handshakes u))) + length (removeAll (Some s) (u_pending u)) \<le> 64"
    by linarith
  then show ?case using ok by (auto simp: server_ok_def server_lost_def note_server_def Let_def distinct_removeAll)
next
  case (server_gone seen taken u s)
  then have ok: "server_ok seen taken u" "Some s \<notin> set (u_pending u)" by simp_all
  then have p: "map (\<lambda>x. if x = Some s then None else x) (u_pending u) = u_pending u" by (auto intro: map_idI)
  have "length (removeAll (Some s) (live_ones (u_handshakes u))) \<le> length (live_ones (u_handshakes u))"
    by (simp add: removeAll_filter_not_eq)
  moreover have "length (live_ones (u_handshakes u)) + length (u_pending u) \<le> 64" using ok by (simp add: server_ok_def)
  ultimately have "length (removeAll (Some s) (live_ones (u_handshakes u))) + length (u_pending u) \<le> 64" by linarith
  then show ?case using ok by (auto simp: server_ok_def socket_deleted_def Let_def p distinct_removeAll)
next
  case (server_take seen taken u s u')
  then have ok: "server_ok seen taken u" by simp
  obtain rest where p: "u_pending u = Some s # rest" "u' = u\<lparr>u_pending := rest\<rparr>"
    using server_take.hyps(2) ok pop_no_hole [of "u_pending u"]
    by (cases "u_pending u") (auto simp: next_pending_def server_ok_def)
  show ?case using ok unfolding server_ok_def p by auto
qed


end
