(* ===== verification/TransportReads.thy ===== *)
theory TransportReads
  imports TransportProperties
begin

text \<open>
  Why the depth of nested reads in \<open>ws_receive\<close> does not matter: the code reads once more after
  it accepted an upgrade, and a protocol object asks for that only before it was accepted.
\<close>

section \<open>Nested reads\<close>

text \<open>
  A protocol object asks for an upgrade before it accepted one, never after. Then reads nest
  twice at most: any larger depth gives the same.
\<close>

definition upgrades_once :: "'s sessions \<Rightarrow> ('s \<Rightarrow> bool) \<Rightarrow> bool" where
  "upgrades_once S up \<longleftrightarrow> (\<forall>s. fst (ss_accept S s) = None \<longrightarrow> up (snd (ss_accept S s)))
     \<and> (\<forall>b s evs. up s \<longrightarrow> fst (ss_receive S b s) = Inr evs \<longrightarrow> UpgradeRequest \<notin> set evs)
     \<and> (\<forall>s. up s \<longrightarrow> up (snd (ss_take S s)) \<and> up (snd (ss_ping S s)) \<and> (\<forall>c t. up (snd (ss_close S c t s)))
          \<and> (\<forall>b. up (snd (ss_text S b s)) \<and> up (snd (ss_binary S b s))))"

definition held :: "('s \<Rightarrow> bool) \<Rightarrow> 's websock \<Rightarrow> bool" where
  "held up st \<longleftrightarrow> (\<forall>s. w_session st = Some s \<longrightarrow> up s)"

lemma held_simps [simp]:
  "held up (note_wire x st) = held up st" "held up (detach_close st) = held up st" "held up (st\<lparr>w_session := None\<rparr>)"
  "held up (st\<lparr>w_session := Some s\<rparr>) = up s" "held up (st\<lparr>w_session := None, w_output := b\<rparr>)"
  "held up (st\<lparr>w_notified := c\<rparr>) = held up st" "held up (st\<lparr>w_state := v\<rparr>) = held up st"
  "held up (st\<lparr>w_deadline := d\<rparr>) = held up st" "held up (st\<lparr>w_owner := c\<rparr>) = held up st" "held up (st\<lparr>w_output := b\<rparr>) = held up st"
  "held up (st\<lparr>w_transport_closing := c\<rparr>) = held up st"
  by (simp_all add: held_def note_wire_def detach_close_def)

lemma held_finish: "(\<And>x st. held up st \<Longrightarrow> held up (r x st)) \<Longrightarrow> held up st \<Longrightarrow> held up (ws_finish r m st)"
  by (simp add: ws_finish_def Let_def emit_signal_def)

lemma held_flush:
  assumes "upgrades_once S up" "\<And>x st. held up st \<Longrightarrow> held up (r x st)" "held up st"
  shows "held up (ws_flush S E r st)"
proof (cases "w_session st")
  case (Some s)
  obtain out s' where t: "ss_take S s = (out, s')" by fastforce
  have "up s'" using assms(1,3) Some t unfolding upgrades_once_def held_def by (metis snd_conv)
  then have "held up (st\<lparr>w_session := Some s', w_output := out'\<rparr>)" for out' by (simp add: held_def)
  then show ?thesis
    unfolding ws_flush_def Some option.case t prod.case Let_def
    using assms(3) held_finish [OF assms(2)] by simp
qed (use assms in \<open>simp add: ws_flush_def\<close>)

lemma held_handed:
  assumes "upgrades_once S up" "\<And>x st. held up st \<Longrightarrow> held up (r x st)" "up s"
  shows "held up (ws_finish r m (st\<lparr>w_session := Some s\<rparr>))" "held up (ws_flush S E r (st\<lparr>w_session := Some s\<rparr>))"
    "held up (ws_flush S E r (st\<lparr>w_session := Some s, w_state := v\<rparr>))"
proof -
  have "held up (st\<lparr>w_session := Some s, w_state := v\<rparr>)" using assms(3) by (simp add: held_def)
  then show "held up (ws_finish r m (st\<lparr>w_session := Some s\<rparr>))" "held up (ws_flush S E r (st\<lparr>w_session := Some s\<rparr>))"
    "held up (ws_flush S E r (st\<lparr>w_session := Some s, w_state := v\<rparr>))"
    using held_finish [OF assms(2)] held_flush [OF assms(1,2)] assms(3) by simp_all
qed

lemma upgrades_onceD:
  assumes "upgrades_once S up" "up s"
  shows "ss_ping S s = (e, s') \<Longrightarrow> up s'" "ss_close S c t s = (e, s') \<Longrightarrow> up s'" "ss_text S b s = (e, s') \<Longrightarrow> up s'"
    "ss_binary S b s = (e, s') \<Longrightarrow> up s'"
  using assms unfolding upgrades_once_def by (metis snd_conv)+

lemma held_send:
  assumes "upgrades_once S up" "\<And>x st. held up st \<Longrightarrow> held up (r x st)" "held up st"
    "\<And>s e s'. up s \<Longrightarrow> put b s = (e, s') \<Longrightarrow> up s'"
  shows "held up (snd (ws_send S E r put b st))"
proof (cases "w_session st")
  case (Some s)
  obtain e s' where p: "put b s = (e, s')" by fastforce
  have "up s'" using assms(3,4) Some p by (auto simp: held_def)
  then show ?thesis
    unfolding ws_send_def Some option.case p prod.case
    using assms(3) held_finish [OF assms(2)] held_handed [OF assms(1,2)] by (cases e) simp_all
qed (use assms in \<open>simp add: ws_send_def\<close>)

lemma held_do_call:
  assumes S: "upgrades_once S up" and r: "\<And>x st. held up st \<Longrightarrow> held up (r x st)" and st: "held up st"
  shows "held up (do_call L S E r c st)"
proof (cases c)
  case (AppClose code reason)
  show ?thesis
  proof (cases "w_session st")
    case (Some s)
    obtain e s' where p: "ss_close S code reason s = (e, s')" by fastforce
    have "up s'" using upgrades_onceD(2) [OF S _ p] st Some by (simp add: held_def)
    then show ?thesis
      unfolding AppClose do_call_def app_call.case ws_close_def Some option.case p prod.case
      using st held_finish [OF r] held_handed [OF S r] by (cases e) simp_all
  qed (use st held_finish [OF r] AppClose in \<open>simp add: do_call_def ws_close_def\<close>)
next
  case AppPing
  show ?thesis
  proof (cases "w_session st")
    case (Some s)
    obtain e s' where p: "ss_ping S s = (e, s')" by fastforce
    have "up s'" using upgrades_onceD(1) [OF S _ p] st Some by (simp add: held_def)
    then show ?thesis
      unfolding AppPing do_call_def app_call.case ws_ping_def Some option.case p prod.case
      using st held_handed [OF S r] by (cases e) simp_all
  qed (use st AppPing in \<open>simp add: do_call_def ws_ping_def\<close>)
next
  case (AppText t)
  show ?thesis unfolding AppText do_call_def app_call.case ws_send_text_def
    by (rule held_send [OF S r st]) (assumption | erule upgrades_onceD(3) [OF S])+
next
  case (AppBinary b)
  show ?thesis unfolding AppBinary do_call_def app_call.case ws_send_binary_def
    by (rule held_send [OF S r st]) (assumption | erule upgrades_onceD(4) [OF S])+
qed (use st held_finish [OF r] in \<open>simp_all add: do_call_def ws_destroy_def\<close>)

lemma held_app_slot:
  assumes "upgrades_once S up"
  shows "held up st \<Longrightarrow> held up (app_slot n L S E x st)"
proof (induction n arbitrary: x st)
  case (Suc n)
  have "held up (fold (do_call L S E (app_slot n L S E)) cs st)" for cs
    using Suc.prems by (induction cs arbitrary: st) (simp_all add: held_do_call [OF assms Suc.IH])
  then show ?case by simp
qed simp

text \<open>The nested read is called only after an accepted upgrade.\<close>

lemma event_loop_again:
  assumes S: "upgrades_once S up" and r: "\<And>x st. held up st \<Longrightarrow> held up (r x st)"
    and same: "\<And>st. held up st \<Longrightarrow> again st = again' st"
  shows "event_loop L S E r again evs st = event_loop L S E r again' evs st"
proof (induction evs arbitrary: st)
  case (Cons ev evs)
  show ?case
  proof (cases "\<exists>s. w_session st = Some s \<and> w_owner st \<and> ev = UpgradeRequest")
    case True
    then obtain s where s: "w_session st = Some s" "w_owner st" "ev = UpgradeRequest" by blast
    obtain u s' where u: "ss_accept S s = (u, s')" by fastforce
    show ?thesis
    proof (cases u)
      case None
      then have "up s'" using S u unfolding upgrades_once_def by (metis fst_conv snd_conv)
      then have "held up (ws_flush S E r (st\<lparr>w_session := Some s'\<rparr>))" by (intro held_handed [OF S r])
      then have "held up (ws_opened r (ws_flush S E r (st\<lparr>w_session := Some s'\<rparr>)))"
        by (auto simp: ws_opened_def emit_signal_def intro!: r)
      then show ?thesis using s u None Cons same by (simp add: Let_def)
    qed (use s u in simp)
  next
    case False
    then show ?thesis using Cons by (cases ev) (auto simp: Let_def split: option.split)
  qed
qed simp

lemma event_loop_no_upgrade:
  "UpgradeRequest \<notin> set evs \<Longrightarrow> event_loop L S E r again evs st = event_loop L S E r again' evs st"
proof (induction evs arbitrary: st)
  case (Cons ev evs)
  then show ?case by (cases ev) (auto simp: Let_def split: option.split)
qed simp

lemma receive_once:
  assumes S: "upgrades_once S up" and "held up st"
  shows "ws_receive (Suc n) L S E r b st = ws_receive 1 L S E r b st"
proof (cases "w_session st")
  case (Some s)
  obtain e s' where p: "ss_receive S b s = (e, s')" by fastforce
  show ?thesis
  proof (cases e)
    case (Inr evs)
    then have "UpgradeRequest \<notin> set evs"
      using S assms(2) Some p unfolding upgrades_once_def held_def by (metis fst_conv)
    from event_loop_no_upgrade [OF this, of L S E r "ws_receive n L S E r []" _ "ws_receive 0 L S E r []"]
    show ?thesis using Some p Inr by simp
  qed (use Some p in simp)
qed simp

lemma receive_depth:
  assumes "upgrades_once S up"
  shows "ws_receive (Suc (Suc n)) L S E (app_slot k L S E) b st = ws_receive 2 L S E (app_slot k L S E) b st"
proof (cases "w_session st")
  case (Some s)
  let ?r = "app_slot k L S E"
  obtain e s' where p: "ss_receive S b s = (e, s')" by fastforce
  show ?thesis
  proof (cases e)
    case (Inr evs)
    have "event_loop L S E ?r (ws_receive (Suc n) L S E ?r []) evs st1 = event_loop L S E ?r (ws_receive 1 L S E ?r []) evs st1" for st1
      by (rule event_loop_again [OF assms held_app_slot [OF assms] receive_once [OF assms]])
    then show ?thesis using Some p Inr by (simp add: numeral_2_eq_2 del: ws_receive.simps(2)) (simp add: Some p)
  qed (use Some p in \<open>simp add: numeral_2_eq_2\<close>)
qed (simp add: numeral_2_eq_2)

end
