(* ===== verification/TransportExamples.thy ===== *)
theory TransportExamples
  imports TransportServer TransportReads
begin

text \<open>
  A protocol object of one state that takes the byte 1 for the end of the handshake, 2 for a
  text and 3 for the close of the other end, and connections that use it: the instances of the
  theorems about \<open>src/NetworkTransport.cpp\<close>.
\<close>

definition demo_sessions :: "unit sessions" where
  "demo_sessions = \<lparr>ss_client = (\<lambda>h t l. Inr ()), ss_server = (\<lambda>l. Inr ()),
     ss_receive = (\<lambda>b s. (Inr (map (\<lambda>x. if x = 1 then UpgradeDone else if x = 2 then TextEvent [65]
       else if x = 3 then ClosedEvent else OtherEvent) b), s)),
     ss_accept = (\<lambda>s. (None, s)), ss_take = (\<lambda>s. ([], s)), ss_close = (\<lambda>c t s. (None, s)), ss_text = (\<lambda>b s. (None, s)),
     ss_binary = (\<lambda>b s. (None, s)), ss_ping = (\<lambda>s. (None, s)), ss_authority = (\<lambda>u. url_host u), ss_path = (\<lambda>u. []),
     ss_query = (\<lambda>u. [])\<rparr>"

text \<open>The application aborts when it gets a text.\<close>

definition demo_ws_env :: "msecs \<Rightarrow> bytes \<Rightarrow> ws_env" where
  "demo_ws_env t b = \<lparr>y_now = t, y_connected = (\<lambda>l. True), y_pending = (\<lambda>l. 0), y_writes = (\<lambda>l b. True), y_read = b, y_tls = None,
     y_connect = (\<lambda>a. None), y_admitted = True,
     y_plan = (\<lambda>l x. case x of SigText t \<Rightarrow> [AppAbort] | _ \<Rightarrow> []), y_nest = 2, y_depth = 2\<rparr>"

definition demo_ws_url :: qurl where
  "demo_ws_url = blank_url\<lparr>url_valid := True, url_scheme := qs ''ws'', url_host := qs ''h'', url_port := 80\<rparr>"

definition demo_endpoint :: endpoint_at where
  "demo_endpoint = (\<lparr>addr_family = Ipv4, addr_bytes = [10, 0, 0, 1], addr_loopback = False, addr_multicast = False,
     addr_unspecified = False, addr_text = qs ''10.0.0.1''\<rparr>, 80)"

definition ws_after :: "(ws_env \<times> ws_event) list \<Rightarrow> unit websock" where
  "ws_after evs = fold (\<lambda>(E, ev). ws_step demo_lib demo_sessions E ev) evs (ws_open (demo_ws_env 0 []) demo_ws_url)"

lemma ws_after_run: "ws_run demo_lib demo_sessions (ws_after evs)"
proof (induction evs rule: rev_induct)
  case Nil
  show ?case by (simp add: ws_after_def run_open)
next
  case (snoc x evs)
  obtain E ev where "x = (E, ev)" by fastforce
  then show ?case using snoc run_event by (simp add: ws_after_def)
qed

definition demo_dialled :: "(ws_env \<times> ws_event) list" where
  "demo_dialled = [(demo_ws_env 1 [], RunTask), (demo_ws_env 2 [], Resolved (Some [demo_endpoint]))]"

definition demo_up :: "(ws_env \<times> ws_event) list" where
  "demo_up = demo_dialled @ [(demo_ws_env 3 [1], StreamReadable 1)]"

text \<open>Example: connected, then a text whose slot aborts the connection.\<close>

theorem ws_signals_refine_witness:
  "path_of WsWaiting (signals (ws_after (demo_up @ [(demo_ws_env 4 [2, 2], StreamReadable 1)]))) = Some WsOver
   \<and> signals (ws_after (demo_up @ [(demo_ws_env 4 [2, 2], StreamReadable 1)])) = [SigConnected, SigText [65], SigDisconnected]"
proof -
  let ?st = "ws_after (demo_up @ [(demo_ws_env 4 [2, 2], StreamReadable 1)])"
  have s: "signals ?st = [SigConnected, SigText [65], SigDisconnected]" "ended ?st \<and> w_owner ?st"
    by code_simp+
  from ws_signals_refine [OF ws_after_run, of "demo_up @ [(demo_ws_env 4 [2, 2], StreamReadable 1)]"]
  have "path_of WsWaiting (signals ?st) = Some WsOver" using s(2) by auto
  then show ?thesis using s(1) by simp
qed

text \<open>Example: a handshake that gets no answer.\<close>

theorem ws_never_hangs_witness:
  "ended (ws_step demo_lib demo_sessions (demo_ws_env 9000 []) DeadlineFires (ws_after demo_dialled))"
proof -
  have c: "w_state (ws_after demo_dialled) = SockConnecting" "w_deadline (ws_after demo_dialled) = Some 5000" by code_simp+
  from ws_never_hangs [OF ws_after_run disjI1 [OF c(1)], of "demo_ws_env 9000 []"] c(2)
  show ?thesis by (simp add: demo_ws_env_def)
qed


text \<open>Example: one address, dialled.\<close>

theorem ws_dials_in_order_witness: "dials (ws_after demo_up) = [demo_endpoint]"
proof -
  have c: "\<not> ended (ws_after demo_up)" "w_next (ws_after demo_up) = 1" "w_addresses (ws_after demo_up) = [demo_endpoint]"
    by code_simp+
  from ws_dials_in_order [OF ws_after_run, of demo_up] show ?thesis by (simp add: c)
qed


end
